(* ===== verification/Select_Prelude.thy ===== *)
theory Select_Prelude
  imports Complex_Main "HOL-Library.Word" "HOL-Library.AList"
begin

text \<open>
  Shared ground of the development: how a C function of the module is a function on the
  state of the process, what can end it early, and the heaps it reads and writes.

  A C function is a value of type \<^theory_text>\<open>('w, 'a) M\<close>: it takes the state and gives
  an outcome and the new state.  The outcome is a value, a Lua error (\<open>luaL_error\<close> and
  \<open>luaL_argerror\<close> leave the function by \<open>longjmp\<close>), a yield of the Lua coroutine
  (\<open>lua_yield\<close>), or a fault: what stops the worker process or is undefined in C.
\<close>

type_synonym addr = nat
type_synonym ptr = "addr option"

datatype lua_error = Lua_error string | Arg_error nat string

datatype fault =
    Null_deref
  | Dangling_deref
  | Out_of_bounds
  | Assert_failed
  | Sig_abort
  | Undefined_conversion
  | Buffer_overflow
  | Out_of_fuel

datatype 'a outcome = Val 'a | Raise lua_error | Yield nat | Fault fault

type_synonym ('w, 'a) M = "'w \<Rightarrow> 'a outcome \<times> 'w"

named_theorems run_simps "symbolic execution of the C functions of the module"

section \<open>The monad\<close>

definition mret :: "'a \<Rightarrow> ('w, 'a) M" where
  "mret x w = (Val x, w)"

definition mbind :: "('w, 'a) M \<Rightarrow> ('a \<Rightarrow> ('w, 'b) M) \<Rightarrow> ('w, 'b) M" where
  "mbind m k w =
     (case m w of
        (Val x, w') \<Rightarrow> k x w'
      | (Raise e, w') \<Rightarrow> (Raise e, w')
      | (Yield n, w') \<Rightarrow> (Yield n, w')
      | (Fault f, w') \<Rightarrow> (Fault f, w'))"

definition mseq :: "('w, 'a) M \<Rightarrow> ('w, 'b) M \<Rightarrow> ('w, 'b) M" where
  "mseq m k = mbind m (\<lambda>_. k)"

definition mraise :: "lua_error \<Rightarrow> ('w, 'a) M" where
  "mraise e w = (Raise e, w)"

definition mfault :: "fault \<Rightarrow> ('w, 'a) M" where
  "mfault f w = (Fault f, w)"

definition myield :: "nat \<Rightarrow> ('w, 'a) M" where
  "myield n w = (Yield n, w)"

text \<open>A value read from the state, an effect on the state, a foreign call that does both.\<close>

definition rd :: "('w \<Rightarrow> 'a) \<Rightarrow> ('w, 'a) M" where
  "rd f w = (Val (f w), w)"

definition act :: "('w \<Rightarrow> 'w) \<Rightarrow> ('w, unit) M" where
  "act f w = (Val (), f w)"

definition ext :: "('w \<Rightarrow> 'a \<times> 'w) \<Rightarrow> ('w, 'a) M" where
  "ext f w = (Val (fst (f w)), snd (f w))"

definition mwhen :: "bool \<Rightarrow> ('w, unit) M \<Rightarrow> ('w, unit) M" where
  "mwhen b m = (if b then m else mret ())"

text \<open>The C \<open>assert\<close>: the process aborts when the condition fails.\<close>

definition c_assert :: "bool \<Rightarrow> ('w, unit) M" where
  "c_assert b = (if b then mret () else mfault Assert_failed)"

text \<open>A \<open>for\<close> loop over given indices that carries a value.\<close>

fun for_each :: "'i list \<Rightarrow> ('i \<Rightarrow> 's \<Rightarrow> ('w, 's) M) \<Rightarrow> 's \<Rightarrow> ('w, 's) M" where
  "for_each [] body s = mret s"
| "for_each (i # is) body s = mbind (body i s) (for_each is body)"

lemma mret_run [run_simps]: "mret x w = (Val x, w)"
  by (simp add: mret_def)

lemma mraise_run [run_simps]: "mraise e w = (Raise e, w)"
  by (simp add: mraise_def)

lemma mfault_run [run_simps]: "mfault f w = (Fault f, w)"
  by (simp add: mfault_def)

lemma myield_run [run_simps]: "myield n w = (Yield n, w)"
  by (simp add: myield_def)

lemma rd_run [run_simps]: "rd f w = (Val (f w), w)"
  by (simp add: rd_def)

lemma act_run [run_simps]: "act f w = (Val (), f w)"
  by (simp add: act_def)

lemma ext_run [run_simps]: "ext f w = (Val (fst (f w)), snd (f w))"
  by (simp add: ext_def)

lemma mbind_run [run_simps]:
  "m w = (Val x, w') \<Longrightarrow> mbind m k w = k x w'"
  "m w = (Raise e, w') \<Longrightarrow> mbind m k w = (Raise e, w')"
  "m w = (Yield n, w') \<Longrightarrow> mbind m k w = (Yield n, w')"
  "m w = (Fault f, w') \<Longrightarrow> mbind m k w = (Fault f, w')"
  by (simp_all add: mbind_def)

lemma mseq_run [run_simps]:
  "m w = (Val x, w') \<Longrightarrow> mseq m k w = k w'"
  "m w = (Raise e, w') \<Longrightarrow> mseq m k w = (Raise e, w')"
  "m w = (Yield n, w') \<Longrightarrow> mseq m k w = (Yield n, w')"
  "m w = (Fault f, w') \<Longrightarrow> mseq m k w = (Fault f, w')"
  by (simp_all add: mseq_def run_simps)

lemma mbind_direct [run_simps]:
  "mbind (mret x) k w = k x w"
  "mbind (rd f) k w = k (f w) w"
  "mbind (act g) h w = h () (g w)"
  "mbind (ext e) k w = k (fst (e w)) (snd (e w))"
  "mseq (mret x) m w = m w"
  "mseq (rd f) m w = m w"
  "mseq (act g) m w = m (g w)"
  "mseq (ext e) m w = m (snd (e w))"
  by (simp_all add: run_simps)

lemma mwhen_run [run_simps]:
  "b \<Longrightarrow> mwhen b m = m"
  "\<not> b \<Longrightarrow> mwhen b m = mret ()"
  by (simp_all add: mwhen_def)

lemma c_assert_run [run_simps]:
  "b \<Longrightarrow> c_assert b = mret ()"
  "\<not> b \<Longrightarrow> c_assert b = mfault Assert_failed"
  by (simp_all add: c_assert_def)

lemma for_each_run [run_simps]:
  "for_each [] body s w = (Val s, w)"
  "body i s w = (Val s', w') \<Longrightarrow> for_each (i # is) body s w = for_each is body s' w'"
  "body i s w = (Fault f, w') \<Longrightarrow> for_each (i # is) body s w = (Fault f, w')"
  by (simp_all add: run_simps)

lemma mbind_mret: "mbind m mret = m"
  by (rule ext) (simp add: mbind_def mret_def split: prod.splits outcome.splits)

lemma mbind_assoc: "mbind (mbind m k) h = mbind m (\<lambda>x. mbind (k x) h)"
  by (rule ext) (simp add: mbind_def split: prod.splits outcome.splits)

lemma for_each_append:
  "for_each (xs @ ys) body s = mbind (for_each xs body s) (for_each ys body)"
proof (induction xs arbitrary: s)
  case Nil
  show ?case by (rule ext) (simp add: mbind_def mret_def)
next
  case (Cons i xs)
  have "for_each (xs @ ys) body = (\<lambda>s. mbind (for_each xs body s) (for_each ys body))"
    by (rule ext) (rule Cons.IH)
  then show ?case by (simp add: mbind_assoc)
qed

lemma mbind_cong_at: "m w = m' w' \<Longrightarrow> mbind m k w = mbind m' k w'"
  by (simp add: mbind_def)

lemma mseq_cong_at: "m w = m' w' \<Longrightarrow> mseq m k w = mseq m' k w'"
  by (simp add: mseq_def mbind_def)

lemma mbind_ValE:
  assumes "mbind m k w = (Val y, w')"
  obtains x v where "m w = (Val x, v)" and "k x v = (Val y, w')"
  using assms by (auto simp: mbind_def split: prod.splits outcome.splits)

text \<open>
  A function with fuel approximates another one: where it does not run out of fuel, they agree.
\<close>

definition fuel_le :: "('w, 'a) M \<Rightarrow> ('w, 'a) M \<Rightarrow> bool" where
  "fuel_le m m' \<longleftrightarrow> (\<forall>w. fst (m w) \<noteq> Fault Out_of_fuel \<longrightarrow> m' w = m w)"

named_theorems fuel_intros "approximation, by the structure of the functions"

lemma fuel_le_refl [fuel_intros]: "fuel_le m m"
  by (simp add: fuel_le_def)

lemma fuel_le_out [fuel_intros]: "fuel_le (mfault Out_of_fuel) m"
  by (simp add: fuel_le_def mfault_def)

lemma fuel_le_mbind [fuel_intros]:
  assumes "fuel_le m m'" and "\<And>x. fuel_le (k x) (k' x)"
  shows "fuel_le (mbind m k) (mbind m' k')"
  unfolding fuel_le_def
proof (intro allI impI)
  fix w assume fin: "fst (mbind m k w) \<noteq> Fault Out_of_fuel"
  obtain r w1 where r: "m w = (r, w1)" by force
  with fin have "fst (m w) \<noteq> Fault Out_of_fuel" by (auto simp: mbind_def)
  with assms(1) r have r': "m' w = (r, w1)" by (simp add: fuel_le_def)
  show "mbind m' k' w = mbind m k w"
  proof (cases r)
    case (Val x)
    with fin r have "fst (k x w1) \<noteq> Fault Out_of_fuel" by (simp add: mbind_def)
    with assms(2)[of x] have "k' x w1 = k x w1" by (simp add: fuel_le_def)
    with r r' Val show ?thesis by (simp add: mbind_def)
  qed (use r r' in \<open>simp_all add: mbind_def\<close>)
qed

lemma fuel_le_mseq [fuel_intros]: "fuel_le m m' \<Longrightarrow> fuel_le k k' \<Longrightarrow> fuel_le (mseq m k) (mseq m' k')"
  by (simp add: mseq_def fuel_le_mbind)

lemma fuel_le_if [fuel_intros]:
  "(b \<Longrightarrow> fuel_le m m') \<Longrightarrow> (\<not> b \<Longrightarrow> fuel_le k k') \<Longrightarrow>
    fuel_le (if b then m else k) (if b then m' else k')"
  by simp

text \<open>Rules for a loop that runs to its end: an invariant indexed by the work done.\<close>

lemma for_each_invariant:
  assumes "I 0 s w"
    and "\<And>k s w. k < length is \<Longrightarrow> I k s w \<Longrightarrow>
           \<exists>s' w'. body (is ! k) s w = (Val s', w') \<and> I (Suc k) s' w'"
  shows "\<exists>s' w'. for_each is body s w = (Val s', w') \<and> I (length is) s' w'"
  using assms
proof (induction "is" arbitrary: I s w)
  case Nil
  then show ?case by (simp add: mret_def)
next
  case (Cons i "is")
  obtain s1 w1 where step: "body i s w = (Val s1, w1)" and I1: "I (Suc 0) s1 w1"
    using Cons.prems(2)[of 0 s w] Cons.prems(1) by auto
  have "\<exists>s' w'. for_each is body s1 w1 = (Val s', w') \<and> I (Suc (length is)) s' w'"
  proof (rule Cons.IH[of "\<lambda>k. I (Suc k)"])
    show "I (Suc 0) s1 w1" by (rule I1)
    fix k s w assume "k < length is" and "I (Suc k) s w"
    then show "\<exists>s' w'. body (is ! k) s w = (Val s', w') \<and> I (Suc (Suc k)) s' w'"
      using Cons.prems(2)[of "Suc k" s w] by simp
  qed
  with step show ?case by (simp add: run_simps)
qed

section \<open>Typed heaps\<close>

text \<open>
  Each C struct type has a heap of its own, a partial map from addresses.  Reading through a
  null pointer or through a pointer to freed memory is a fault.
\<close>

definition load :: "('w \<Rightarrow> addr \<Rightarrow> 'a option) \<Rightarrow> ptr \<Rightarrow> ('w, 'a) M" where
  "load get p w =
     (case p of
        None \<Rightarrow> (Fault Null_deref, w)
      | Some a \<Rightarrow> (case get w a of
           None \<Rightarrow> (Fault Dangling_deref, w)
         | Some x \<Rightarrow> (Val x, w)))"

definition store ::
  "('w \<Rightarrow> addr \<Rightarrow> 'a option) \<Rightarrow> (addr \<Rightarrow> 'a \<Rightarrow> 'w \<Rightarrow> 'w) \<Rightarrow> ptr \<Rightarrow> ('a \<Rightarrow> 'a) \<Rightarrow> ('w, unit) M"
where
  "store get put p f = mbind (load get p) (\<lambda>x. act (put (the p) (f x)))"

lemma load_run [run_simps]:
  "load get None w = (Fault Null_deref, w)"
  "get w a = None \<Longrightarrow> load get (Some a) w = (Fault Dangling_deref, w)"
  "get w a = Some x \<Longrightarrow> load get (Some a) w = (Val x, w)"
  by (simp_all add: load_def)

lemma store_run [run_simps]:
  "store get put None f w = (Fault Null_deref, w)"
  "get w a = None \<Longrightarrow> store get put (Some a) f w = (Fault Dangling_deref, w)"
  "get w a = Some x \<Longrightarrow> store get put (Some a) f w = (Val (), put a (f x) w)"
  by (simp_all add: store_def run_simps)

text \<open>The contract of a heap of structs, which each heap of the process state provides.\<close>

locale typed_heap =
  fixes get :: "'w \<Rightarrow> addr \<Rightarrow> 'a option"
    and put :: "addr \<Rightarrow> 'a \<Rightarrow> 'w \<Rightarrow> 'w"
  assumes get_put: "get (put a x w) = (get w)(a \<mapsto> x)"
    and put_put: "put a y (put a x w) = put a y w"
    and put_same: "get w a = Some x \<Longrightarrow> put a x w = w"
begin

lemma load_after_store:
  assumes "get w a = Some x"
  shows "mseq (store get put (Some a) f) (load get (Some a)) w = (Val (f x), put a (f x) w)"
  using assms by (simp add: run_simps get_put)

lemma load_other_after_store:
  assumes "get w a = Some x" and "get w b = Some y" and "a \<noteq> b"
  shows "mseq (store get put (Some a) f) (load get (Some b)) w = (Val y, put a (f x) w)"
  using assms by (simp add: run_simps get_put)

lemma store_store:
  assumes "get w a = Some x"
  shows "mseq (store get put (Some a) f) (store get put (Some a) g) w
       = store get put (Some a) (g \<circ> f) w"
  using assms by (simp add: run_simps get_put put_put)

lemma store_id:
  assumes "get w a = Some x"
  shows "store get put (Some a) (\<lambda>x. x) w = (Val (), w)"
  using assms by (simp add: run_simps put_same)

end

section \<open>Lists and association lists\<close>

lemma delete_fresh [simp]: "k \<notin> fst ` set al \<Longrightarrow> AList.delete k al = al"
  by (induction al) (auto simp: AList.delete_eq)

definition fresh_nat :: "(nat \<times> 'a) list \<Rightarrow> nat" where
  "fresh_nat al = Suc (fold max (map fst al) 0)"

definition fresh_int :: "(int \<times> 'a) list \<Rightarrow> int" where
  "fresh_int al = 1 + fold max (map fst al) 0"

lemma fold_max_ge: "(m::'a::linorder) \<le> fold max xs m" and
  fold_max_ge_elem: "x \<in> set xs \<Longrightarrow> x \<le> fold max xs m"
proof (induction xs arbitrary: m)
  case Nil
  { case 1 show ?case by simp }
  { case 2 then show ?case by simp }
next
  case (Cons y xs)
  { case 1 show ?case using Cons.IH(1)[of "max y m"] by (simp add: le_max_iff_disj) }
  { case 2
    then show ?case
      using Cons.IH(1)[of "max y m"] Cons.IH(2)[of "max y m"] by (auto simp: le_max_iff_disj) }
qed

lemma fresh_nat_notin: "fresh_nat al \<notin> fst ` set al"
proof
  assume "fresh_nat al \<in> fst ` set al"
  then have "fresh_nat al \<le> fold max (map fst al) 0" by (intro fold_max_ge_elem) auto
  then show False by (simp add: fresh_nat_def)
qed

lemma fresh_int_notin: "fresh_int al \<notin> fst ` set al"
proof
  assume "fresh_int al \<in> fst ` set al"
  then have "fresh_int al \<le> fold max (map fst al) 0" by (intro fold_max_ge_elem) auto
  then show False by (simp add: fresh_int_def)
qed

lemma fresh_int_pos: "1 \<le> fresh_int al"
  using fold_max_ge[of "0::int" "map fst al"] by (simp add: fresh_int_def)

lemma map_of_None_fst: "map_of al k = None \<longleftrightarrow> k \<notin> fst ` set al"
  by (simp add: map_of_eq_None_iff)

end
