(* ===== verification/Select_State.thy ===== *)
theory Select_State
  imports Select_Prelude
begin

text \<open>
  The data of the module: the structs and enums of \<open>src/ngx_lua_select.h\<close>, and of the
  structs of nginx, OpenResty and Lua the fields that the module's code reads or writes
  itself.  A C pointer is a \<^theory_text>\<open>ptr\<close> (\<open>NULL\<close> is \<open>None\<close>), a function
  pointer an \<^theory_text>\<open>fnptr\<close>, a \<open>lua_State\<close> a \<^theory_text>\<open>thread\<close>; the process state
  \<^theory_text>\<open>world\<close> has one heap per struct type.
\<close>

section \<open>Lua values\<close>

type_synonym thread = nat

text \<open>\<open>lua_Number\<close> is a C double: not a number, an infinity, or a finite value.\<close>

datatype lua_number = LNaN | LMinusInf | LPlusInf | LFin rat

fun lua_number_neg :: "lua_number \<Rightarrow> bool" where
  "lua_number_neg (LFin q) = (q < 0)"
| "lua_number_neg LMinusInf = True"
| "lua_number_neg _ = False"

fun lua_number_pos :: "lua_number \<Rightarrow> bool" where
  "lua_number_pos (LFin q) = (0 < q)"
| "lua_number_pos LPlusInf = True"
| "lua_number_pos _ = False"

text \<open>
  The conversion of a double to \<open>ngx_msec_t\<close>, an unsigned 64-bit integer: C truncates, and
  is undefined where the truncated value does not fit.
\<close>

fun lua_number_to_msec :: "lua_number \<Rightarrow> 64 word option" where
  "lua_number_to_msec (LFin q) =
     (if -1 < q \<and> q < 2 ^ 64 then Some (word_of_int (if q < 0 then 0 else \<lfloor>q\<rfloor>)) else None)"
| "lua_number_to_msec _ = None"

datatype lval =
    LNil
  | LBool bool
  | LNum lua_number
  | LStr string
  | LTable addr
  | LUserdata addr
  | LLightuserdata ptr
  | LFunction fnptr
  | LThread thread
and fnptr =
    Fn_NULL
  | Fn_select                  \<comment> \<open>\<open>lua_select_module_select\<close>\<close>
  | Fn_read_request_handler    \<comment> \<open>\<open>ngx_stream_lua_select_socket_read_request_handler\<close>\<close>
  | Fn_write_request_handler   \<comment> \<open>\<open>ngx_stream_lua_select_socket_write_request_handler\<close>\<close>
  | Fn_read_upstream_handler   \<comment> \<open>\<open>ngx_stream_lua_select_socket_read_upstream_handler\<close>\<close>
  | Fn_write_upstream_handler  \<comment> \<open>\<open>ngx_stream_lua_select_socket_write_upstream_handler\<close>\<close>
  | Fn_timeout_handler         \<comment> \<open>\<open>ngx_stream_lua_select_timeout_handler\<close>\<close>
  | Fn_post_completion_handler \<comment> \<open>\<open>ngx_stream_lua_select_post_completion_handler\<close>\<close>
  | Fn_cleanup                 \<comment> \<open>\<open>ngx_stream_lua_select_cleanup\<close>\<close>
  | Fn_resume                  \<comment> \<open>\<open>ngx_stream_lua_select_resume\<close>\<close>
  | Fn_wev_handler             \<comment> \<open>\<open>ngx_stream_lua_wev_handler\<close> of OpenResty\<close>
  | Fn_init_code               \<comment> \<open>\<open>ngx_stream_lua_select_init_code\<close>\<close>
  | Fn_foreign nat

type_synonym lua_table = "(lval \<times> lval) list"

section \<open>The structs and enums of the header\<close>

text \<open>
  The field \<open>type\<close> of a socket; a field that was never written can hold a value that is
  none of the enumerators.
\<close>

datatype ngx_lua_select_socktype_t =
    NGX_LUA_SELECT_TCP_UPSTREAM
  | NGX_LUA_SELECT_TCP_DOWNSTREAM
  | NGX_LUA_SELECT_UDP_UPSTREAM
  | NGX_LUA_SELECT_UDP_DOWNSTREAM
  | Not_a_socktype int

definition NGX_LUA_SELECT_READ :: "32 word" where "NGX_LUA_SELECT_READ = 1"
definition NGX_LUA_SELECT_WRITE :: "32 word" where "NGX_LUA_SELECT_WRITE = 2"
definition SOCKET_CTX_INDEX :: int where "SOCKET_CTX_INDEX = 1"

text \<open>Constants of \<open>lua.h\<close>, \<open>lauxlib.h\<close>, \<open>ngx_core.h\<close>.\<close>

definition LUA_REGISTRYINDEX :: int where "LUA_REGISTRYINDEX = -10000"
definition LUA_NOREF :: int where "LUA_NOREF = -2"
definition NGX_OK :: int where "NGX_OK = 0"
definition NGX_ERROR :: int where "NGX_ERROR = -1"
definition NGX_AGAIN :: int where "NGX_AGAIN = -2"
definition NGX_DONE :: int where "NGX_DONE = -4"

text \<open>\<open>ngx_event_t\<close>: the fields the module uses.\<close>

record ngx_event =
  ev_active :: bool
  ev_ready :: bool
  ev_posted :: bool
  ev_timer_set :: bool
  ev_timedout :: bool
  ev_cancelable :: bool
  ev_handler :: fnptr
  ev_data :: ptr
  ev_log :: ptr
  ev_delay :: "64 word"

text \<open>What \<open>ngx_memzero\<close> leaves in an event.\<close>

definition zero_event :: ngx_event where
  "zero_event =
     \<lparr>ev_active = False, ev_ready = False, ev_posted = False, ev_timer_set = False,
      ev_timedout = False, ev_cancelable = False, ev_handler = Fn_NULL, ev_data = None,
      ev_log = None, ev_delay = 0\<rparr>"

text \<open>\<open>ngx_lua_select_socket_t\<close>; the union of the TCP and the UDP pointer is \<open>sk_up\<close>.\<close>

record ngx_lua_select_socket =
  sk_up :: ptr
  sk_prev_upstream_read_handler :: fnptr
  sk_prev_upstream_write_handler :: fnptr
  sk_connection :: ptr
  sk_type :: ngx_lua_select_socktype_t
  sk_lua_socket_ref :: int
  sk_readwrite :: "2 word"
  sk_read_ready :: bool
  sk_write_ready :: bool

text \<open>\<open>ngx_lua_select_ctx_t\<close>; the flexible array member \<open>socket[]\<close> is a list.\<close>

record ngx_lua_select_ctx =
  cx_r :: ptr
  cx_coctx :: ptr
  cx_prev_request_read_handler :: fnptr
  cx_prev_request_write_handler :: fnptr
  cx_post_completion_ev :: ngx_event
  cx_timer :: ngx_event
  cx_ref :: int
  cx_count :: nat
  cx_socket :: "ngx_lua_select_socket list"

section \<open>The structs of nginx and OpenResty\<close>

record ngx_connection =
  cn_fd :: int
  cn_read :: ngx_event
  cn_write :: ngx_event
  cn_buffered :: nat
  cn_requests :: nat
  cn_log :: ptr

text \<open>\<open>ngx_stream_lua_socket_tcp_upstream_t\<close> and \<open>ngx_stream_lua_socket_udp_upstream_t\<close>.\<close>

record tcp_upstream =
  up_peer_connection :: ptr
  up_read_closed :: bool
  up_request :: ptr
  up_conn_waiting :: bool
  up_read_waiting :: bool
  up_write_waiting :: bool
  up_raw_downstream :: bool
  up_read_event_handler :: fnptr
  up_write_event_handler :: fnptr

record udp_upstream =
  uu_connection :: ptr

datatype ngx_module = Mod_stream_lua | Mod_select

text \<open>\<open>ngx_stream_lua_request_t\<close>; \<open>rq_ctx\<close> holds the module contexts.\<close>

record lua_request =
  rq_connection :: ptr
  rq_read_event_handler :: fnptr
  rq_write_event_handler :: fnptr
  rq_ctx :: "ngx_module \<Rightarrow> ptr"

text \<open>\<open>ngx_stream_lua_ctx_t\<close> and \<open>ngx_stream_lua_co_ctx_t\<close>.\<close>

record stream_lua_ctx =
  sc_cur_co_ctx :: ptr
  sc_entered_content_phase :: bool
  sc_resume_handler :: fnptr

record co_ctx =
  co_co :: thread
  co_cleanup :: fnptr
  co_data :: ptr

text \<open>The address of an \<open>ngx_event_t\<close> inside the struct that contains it.\<close>

datatype event_ref =
    Timer_of addr
  | Completion_of addr
  | Read_of addr
  | Write_of addr

section \<open>The state of the process\<close>

text \<open>
  \<open>w_stack L\<close> is the stack of the running C function on the thread \<open>L\<close>, its top first.
  \<open>w_registry\<close> holds the live references made by \<open>luaL_ref\<close>, \<open>w_tables\<close> the Lua
  tables (each in its traversal order), \<open>w_meta\<close> their metatables, \<open>w_posted\<close> the queue
  \<open>ngx_posted_events\<close>, \<open>w_kernel\<close> what \<open>ioctl(fd, FIONREAD, &n)\<close> finds for each
  descriptor: the call's result and the number of bytes that wait to be read.
\<close>

record world =
  w_stack :: "thread \<Rightarrow> lval list"
  w_registry :: "(int \<times> lval) list"
  w_tables :: "(addr \<times> lua_table) list"
  w_meta :: "addr \<Rightarrow> ptr"
  w_ctxs :: "(addr \<times> ngx_lua_select_ctx) list"
  w_conns :: "addr \<Rightarrow> ngx_connection option"
  w_ups :: "addr \<Rightarrow> tcp_upstream option"
  w_udps :: "addr \<Rightarrow> udp_upstream option"
  w_reqs :: "addr \<Rightarrow> lua_request option"
  w_sctxs :: "addr \<Rightarrow> stream_lua_ctx option"
  w_coctxs :: "addr \<Rightarrow> co_ctx option"
  w_posted :: "event_ref list"
  w_kernel :: "int \<Rightarrow> int \<times> int"
  w_log :: "string list"

type_synonym 'a cfun = "(world, 'a) M"

definition set_stack :: "thread \<Rightarrow> lval list \<Rightarrow> world \<Rightarrow> world" where
  "set_stack L s w = w\<lparr>w_stack := (w_stack w)(L := s)\<rparr>"

definition ctx_at :: "world \<Rightarrow> addr \<Rightarrow> ngx_lua_select_ctx option" where
  "ctx_at w a = map_of (w_ctxs w) a"
definition put_ctx :: "addr \<Rightarrow> ngx_lua_select_ctx \<Rightarrow> world \<Rightarrow> world" where
  "put_ctx a c w = w\<lparr>w_ctxs := AList.update a c (w_ctxs w)\<rparr>"

definition table_at :: "world \<Rightarrow> addr \<Rightarrow> lua_table option" where
  "table_at w a = map_of (w_tables w) a"
definition put_table :: "addr \<Rightarrow> lua_table \<Rightarrow> world \<Rightarrow> world" where
  "put_table a t w = w\<lparr>w_tables := AList.update a t (w_tables w)\<rparr>"

definition put_conn :: "addr \<Rightarrow> ngx_connection \<Rightarrow> world \<Rightarrow> world" where
  "put_conn a x w = w\<lparr>w_conns := (w_conns w)(a \<mapsto> x)\<rparr>"
definition put_up :: "addr \<Rightarrow> tcp_upstream \<Rightarrow> world \<Rightarrow> world" where
  "put_up a x w = w\<lparr>w_ups := (w_ups w)(a \<mapsto> x)\<rparr>"
definition put_req :: "addr \<Rightarrow> lua_request \<Rightarrow> world \<Rightarrow> world" where
  "put_req a x w = w\<lparr>w_reqs := (w_reqs w)(a \<mapsto> x)\<rparr>"
definition put_sctx :: "addr \<Rightarrow> stream_lua_ctx \<Rightarrow> world \<Rightarrow> world" where
  "put_sctx a x w = w\<lparr>w_sctxs := (w_sctxs w)(a \<mapsto> x)\<rparr>"
definition put_coctx :: "addr \<Rightarrow> co_ctx \<Rightarrow> world \<Rightarrow> world" where
  "put_coctx a x w = w\<lparr>w_coctxs := (w_coctxs w)(a \<mapsto> x)\<rparr>"

lemmas heap_defs = ctx_at_def put_ctx_def table_at_def put_table_def put_conn_def put_up_def
  put_req_def put_sctx_def put_coctx_def

lemma alist_update_update [simp]: "AList.update k y (AList.update k x al) = AList.update k y al"
  by (induction al) auto

lemma alist_update_triv: "map_of al k = Some v \<Longrightarrow> AList.update k v al = al"
  by (induction al) (auto split: if_splits)

text \<open>\<open>ctx->socket[i]\<close>, read and written; past the allocated array it is out of bounds.\<close>

definition socket_at :: "ptr \<Rightarrow> nat \<Rightarrow> ngx_lua_select_socket cfun" where
  "socket_at p i =
     mbind (load ctx_at p) (\<lambda>c.
       if i < length (cx_socket c) then mret (cx_socket c ! i) else mfault Out_of_bounds)"

definition upd_socket ::
  "ptr \<Rightarrow> nat \<Rightarrow> (ngx_lua_select_socket \<Rightarrow> ngx_lua_select_socket) \<Rightarrow> unit cfun" where
  "upd_socket p i f =
     mbind (socket_at p i) (\<lambda>s.
       store ctx_at put_ctx p (\<lambda>c. c\<lparr>cx_socket := (cx_socket c)[i := f s]\<rparr>))"

lemma socket_at_run [run_simps]:
  "ctx_at w a = Some c \<Longrightarrow> i < length (cx_socket c) \<Longrightarrow>
     socket_at (Some a) i w = (Val (cx_socket c ! i), w)"
  "ctx_at w a = Some c \<Longrightarrow> \<not> i < length (cx_socket c) \<Longrightarrow>
     socket_at (Some a) i w = (Fault Out_of_bounds, w)"
  by (simp_all add: socket_at_def run_simps)

lemma upd_socket_run [run_simps]:
  "ctx_at w a = Some c \<Longrightarrow> i < length (cx_socket c) \<Longrightarrow>
     upd_socket (Some a) i f w =
       (Val (), put_ctx a (c\<lparr>cx_socket := (cx_socket c)[i := f (cx_socket c ! i)]\<rparr>) w)"
  by (simp add: upd_socket_def run_simps)

text \<open>Unfolding every access to the state to the fields of the record.\<close>

lemmas world_defs = heap_defs set_stack_def update_conv'

text \<open>What each update leaves as it was.\<close>

lemma set_stack_frame [simp]:
  "w_registry (set_stack a x w) = w_registry w" "w_tables (set_stack a x w) = w_tables w"
  "w_meta (set_stack a x w) = w_meta w" "w_ctxs (set_stack a x w) = w_ctxs w"
  "w_conns (set_stack a x w) = w_conns w" "w_ups (set_stack a x w) = w_ups w"
  "w_udps (set_stack a x w) = w_udps w" "w_reqs (set_stack a x w) = w_reqs w"
  "w_sctxs (set_stack a x w) = w_sctxs w" "w_coctxs (set_stack a x w) = w_coctxs w"
  "w_posted (set_stack a x w) = w_posted w" "w_kernel (set_stack a x w) = w_kernel w"
  "w_log (set_stack a x w) = w_log w" "ctx_at (set_stack a x w) = ctx_at w"
  "table_at (set_stack a x w) = table_at w" "w_stack (set_stack a x w) = (w_stack w)(a := x)"
  by (simp_all add: world_defs fun_eq_iff)

lemma put_ctx_frame [simp]:
  "w_stack (put_ctx a x w) = w_stack w" "w_registry (put_ctx a x w) = w_registry w"
  "w_tables (put_ctx a x w) = w_tables w" "w_meta (put_ctx a x w) = w_meta w"
  "w_conns (put_ctx a x w) = w_conns w" "w_ups (put_ctx a x w) = w_ups w"
  "w_udps (put_ctx a x w) = w_udps w" "w_reqs (put_ctx a x w) = w_reqs w"
  "w_sctxs (put_ctx a x w) = w_sctxs w" "w_coctxs (put_ctx a x w) = w_coctxs w"
  "w_posted (put_ctx a x w) = w_posted w" "w_kernel (put_ctx a x w) = w_kernel w"
  "w_log (put_ctx a x w) = w_log w" "table_at (put_ctx a x w) = table_at w"
  "ctx_at (put_ctx a x w) = (ctx_at w)(a \<mapsto> x)"
  by (simp_all add: world_defs fun_eq_iff)

lemma put_table_frame [simp]:
  "w_stack (put_table a x w) = w_stack w" "w_registry (put_table a x w) = w_registry w"
  "w_meta (put_table a x w) = w_meta w" "w_ctxs (put_table a x w) = w_ctxs w"
  "w_conns (put_table a x w) = w_conns w" "w_ups (put_table a x w) = w_ups w"
  "w_udps (put_table a x w) = w_udps w" "w_reqs (put_table a x w) = w_reqs w"
  "w_sctxs (put_table a x w) = w_sctxs w" "w_coctxs (put_table a x w) = w_coctxs w"
  "w_posted (put_table a x w) = w_posted w" "w_kernel (put_table a x w) = w_kernel w"
  "w_log (put_table a x w) = w_log w" "ctx_at (put_table a x w) = ctx_at w"
  "table_at (put_table a x w) = (table_at w)(a \<mapsto> x)"
  by (simp_all add: world_defs fun_eq_iff)

lemma put_conn_frame [simp]:
  "w_stack (put_conn a x w) = w_stack w" "w_registry (put_conn a x w) = w_registry w"
  "w_tables (put_conn a x w) = w_tables w" "w_meta (put_conn a x w) = w_meta w"
  "w_ctxs (put_conn a x w) = w_ctxs w" "w_ups (put_conn a x w) = w_ups w"
  "w_udps (put_conn a x w) = w_udps w" "w_reqs (put_conn a x w) = w_reqs w"
  "w_sctxs (put_conn a x w) = w_sctxs w" "w_coctxs (put_conn a x w) = w_coctxs w"
  "w_posted (put_conn a x w) = w_posted w" "w_kernel (put_conn a x w) = w_kernel w"
  "w_log (put_conn a x w) = w_log w" "ctx_at (put_conn a x w) = ctx_at w"
  "table_at (put_conn a x w) = table_at w"
  "w_conns (put_conn a x w) = (w_conns w)(a \<mapsto> x)"
  by (simp_all add: world_defs fun_eq_iff)

lemma put_up_frame [simp]:
  "w_stack (put_up a x w) = w_stack w" "w_registry (put_up a x w) = w_registry w"
  "w_tables (put_up a x w) = w_tables w" "w_meta (put_up a x w) = w_meta w"
  "w_ctxs (put_up a x w) = w_ctxs w" "w_conns (put_up a x w) = w_conns w"
  "w_udps (put_up a x w) = w_udps w" "w_reqs (put_up a x w) = w_reqs w"
  "w_sctxs (put_up a x w) = w_sctxs w" "w_coctxs (put_up a x w) = w_coctxs w"
  "w_posted (put_up a x w) = w_posted w" "w_kernel (put_up a x w) = w_kernel w"
  "w_log (put_up a x w) = w_log w" "ctx_at (put_up a x w) = ctx_at w"
  "table_at (put_up a x w) = table_at w" "w_ups (put_up a x w) = (w_ups w)(a \<mapsto> x)"
  by (simp_all add: world_defs fun_eq_iff)

lemma put_req_frame [simp]:
  "w_stack (put_req a x w) = w_stack w" "w_registry (put_req a x w) = w_registry w"
  "w_tables (put_req a x w) = w_tables w" "w_meta (put_req a x w) = w_meta w"
  "w_ctxs (put_req a x w) = w_ctxs w" "w_conns (put_req a x w) = w_conns w"
  "w_ups (put_req a x w) = w_ups w" "w_udps (put_req a x w) = w_udps w"
  "w_sctxs (put_req a x w) = w_sctxs w" "w_coctxs (put_req a x w) = w_coctxs w"
  "w_posted (put_req a x w) = w_posted w" "w_kernel (put_req a x w) = w_kernel w"
  "w_log (put_req a x w) = w_log w" "ctx_at (put_req a x w) = ctx_at w"
  "table_at (put_req a x w) = table_at w" "w_reqs (put_req a x w) = (w_reqs w)(a \<mapsto> x)"
  by (simp_all add: world_defs fun_eq_iff)

lemma put_sctx_frame [simp]:
  "w_stack (put_sctx a x w) = w_stack w" "w_registry (put_sctx a x w) = w_registry w"
  "w_tables (put_sctx a x w) = w_tables w" "w_meta (put_sctx a x w) = w_meta w"
  "w_ctxs (put_sctx a x w) = w_ctxs w" "w_conns (put_sctx a x w) = w_conns w"
  "w_ups (put_sctx a x w) = w_ups w" "w_udps (put_sctx a x w) = w_udps w"
  "w_reqs (put_sctx a x w) = w_reqs w" "w_coctxs (put_sctx a x w) = w_coctxs w"
  "w_posted (put_sctx a x w) = w_posted w" "w_kernel (put_sctx a x w) = w_kernel w"
  "w_log (put_sctx a x w) = w_log w" "ctx_at (put_sctx a x w) = ctx_at w"
  "table_at (put_sctx a x w) = table_at w"
  "w_sctxs (put_sctx a x w) = (w_sctxs w)(a \<mapsto> x)"
  by (simp_all add: world_defs fun_eq_iff)

lemma put_coctx_frame [simp]:
  "w_stack (put_coctx a x w) = w_stack w" "w_registry (put_coctx a x w) = w_registry w"
  "w_tables (put_coctx a x w) = w_tables w" "w_meta (put_coctx a x w) = w_meta w"
  "w_ctxs (put_coctx a x w) = w_ctxs w" "w_conns (put_coctx a x w) = w_conns w"
  "w_ups (put_coctx a x w) = w_ups w" "w_udps (put_coctx a x w) = w_udps w"
  "w_reqs (put_coctx a x w) = w_reqs w" "w_sctxs (put_coctx a x w) = w_sctxs w"
  "w_posted (put_coctx a x w) = w_posted w" "w_kernel (put_coctx a x w) = w_kernel w"
  "w_log (put_coctx a x w) = w_log w" "ctx_at (put_coctx a x w) = ctx_at w"
  "table_at (put_coctx a x w) = table_at w"
  "w_coctxs (put_coctx a x w) = (w_coctxs w)(a \<mapsto> x)"
  by (simp_all add: world_defs fun_eq_iff)

text \<open>Updates commute with a change of the stack, which is kept outermost.\<close>

lemma set_stack_collect [simp]:
  "set_stack L s (set_stack L s' w) = set_stack L s w"
  "put_ctx a x_put_ctx (set_stack L s w) = set_stack L s (put_ctx a x_put_ctx w)"
  "put_table a x_put_table (set_stack L s w) = set_stack L s (put_table a x_put_table w)"
  "put_conn a x_put_conn (set_stack L s w) = set_stack L s (put_conn a x_put_conn w)"
  "put_up a x_put_up (set_stack L s w) = set_stack L s (put_up a x_put_up w)"
  "put_req a x_put_req (set_stack L s w) = set_stack L s (put_req a x_put_req w)"
  "put_sctx a x_put_sctx (set_stack L s w) = set_stack L s (put_sctx a x_put_sctx w)"
  "put_coctx a x_put_coctx (set_stack L s w) = set_stack L s (put_coctx a x_put_coctx w)"
  "(set_stack L s w)\<lparr>w_registry := y_w_registry\<rparr> = set_stack L s (w\<lparr>w_registry := y_w_registry\<rparr>)"
  "(set_stack L s w)\<lparr>w_tables := y_w_tables\<rparr> = set_stack L s (w\<lparr>w_tables := y_w_tables\<rparr>)"
  "(set_stack L s w)\<lparr>w_meta := y_w_meta\<rparr> = set_stack L s (w\<lparr>w_meta := y_w_meta\<rparr>)"
  "(set_stack L s w)\<lparr>w_ctxs := y_w_ctxs\<rparr> = set_stack L s (w\<lparr>w_ctxs := y_w_ctxs\<rparr>)"
  "(set_stack L s w)\<lparr>w_conns := y_w_conns\<rparr> = set_stack L s (w\<lparr>w_conns := y_w_conns\<rparr>)"
  "(set_stack L s w)\<lparr>w_ups := y_w_ups\<rparr> = set_stack L s (w\<lparr>w_ups := y_w_ups\<rparr>)"
  "(set_stack L s w)\<lparr>w_udps := y_w_udps\<rparr> = set_stack L s (w\<lparr>w_udps := y_w_udps\<rparr>)"
  "(set_stack L s w)\<lparr>w_reqs := y_w_reqs\<rparr> = set_stack L s (w\<lparr>w_reqs := y_w_reqs\<rparr>)"
  "(set_stack L s w)\<lparr>w_sctxs := y_w_sctxs\<rparr> = set_stack L s (w\<lparr>w_sctxs := y_w_sctxs\<rparr>)"
  "(set_stack L s w)\<lparr>w_coctxs := y_w_coctxs\<rparr> = set_stack L s (w\<lparr>w_coctxs := y_w_coctxs\<rparr>)"
  "(set_stack L s w)\<lparr>w_posted := y_w_posted\<rparr> = set_stack L s (w\<lparr>w_posted := y_w_posted\<rparr>)"
  "(set_stack L s w)\<lparr>w_kernel := y_w_kernel\<rparr> = set_stack L s (w\<lparr>w_kernel := y_w_kernel\<rparr>)"
  "(set_stack L s w)\<lparr>w_log := y_w_log\<rparr> = set_stack L s (w\<lparr>w_log := y_w_log\<rparr>)"
  by (simp_all add: world_defs)

lemma heap_frame [simp]:
  "ctx_at (w\<lparr>w_stack := y_w_stack\<rparr>) = ctx_at w"
  "table_at (w\<lparr>w_stack := y_w_stack\<rparr>) = table_at w"
  "ctx_at (w\<lparr>w_registry := y_w_registry\<rparr>) = ctx_at w"
  "table_at (w\<lparr>w_registry := y_w_registry\<rparr>) = table_at w"
  "ctx_at (w\<lparr>w_tables := y_w_tables\<rparr>) = ctx_at w"
  "ctx_at (w\<lparr>w_meta := y_w_meta\<rparr>) = ctx_at w"
  "table_at (w\<lparr>w_meta := y_w_meta\<rparr>) = table_at w"
  "table_at (w\<lparr>w_ctxs := y_w_ctxs\<rparr>) = table_at w"
  "ctx_at (w\<lparr>w_conns := y_w_conns\<rparr>) = ctx_at w"
  "table_at (w\<lparr>w_conns := y_w_conns\<rparr>) = table_at w"
  "ctx_at (w\<lparr>w_ups := y_w_ups\<rparr>) = ctx_at w"
  "table_at (w\<lparr>w_ups := y_w_ups\<rparr>) = table_at w"
  "ctx_at (w\<lparr>w_udps := y_w_udps\<rparr>) = ctx_at w"
  "table_at (w\<lparr>w_udps := y_w_udps\<rparr>) = table_at w"
  "ctx_at (w\<lparr>w_reqs := y_w_reqs\<rparr>) = ctx_at w"
  "table_at (w\<lparr>w_reqs := y_w_reqs\<rparr>) = table_at w"
  "ctx_at (w\<lparr>w_sctxs := y_w_sctxs\<rparr>) = ctx_at w"
  "table_at (w\<lparr>w_sctxs := y_w_sctxs\<rparr>) = table_at w"
  "ctx_at (w\<lparr>w_coctxs := y_w_coctxs\<rparr>) = ctx_at w"
  "table_at (w\<lparr>w_coctxs := y_w_coctxs\<rparr>) = table_at w"
  "ctx_at (w\<lparr>w_posted := y_w_posted\<rparr>) = ctx_at w"
  "table_at (w\<lparr>w_posted := y_w_posted\<rparr>) = table_at w"
  "ctx_at (w\<lparr>w_kernel := y_w_kernel\<rparr>) = ctx_at w"
  "table_at (w\<lparr>w_kernel := y_w_kernel\<rparr>) = table_at w"
  "ctx_at (w\<lparr>w_log := y_w_log\<rparr>) = ctx_at w"
  "table_at (w\<lparr>w_log := y_w_log\<rparr>) = table_at w"
  by (simp_all add: heap_defs fun_eq_iff)

lemma put_registry [simp]:
  "(put_ctx a x_put_ctx w)\<lparr>w_registry := reg\<rparr> = put_ctx a x_put_ctx (w\<lparr>w_registry := reg\<rparr>)"
  "(put_table a x_put_table w)\<lparr>w_registry := reg\<rparr> = put_table a x_put_table (w\<lparr>w_registry := reg\<rparr>)"
  "(put_conn a x_put_conn w)\<lparr>w_registry := reg\<rparr> = put_conn a x_put_conn (w\<lparr>w_registry := reg\<rparr>)"
  "(put_up a x_put_up w)\<lparr>w_registry := reg\<rparr> = put_up a x_put_up (w\<lparr>w_registry := reg\<rparr>)"
  "(put_req a x_put_req w)\<lparr>w_registry := reg\<rparr> = put_req a x_put_req (w\<lparr>w_registry := reg\<rparr>)"
  "(put_sctx a x_put_sctx w)\<lparr>w_registry := reg\<rparr> = put_sctx a x_put_sctx (w\<lparr>w_registry := reg\<rparr>)"
  "(put_coctx a x_put_coctx w)\<lparr>w_registry := reg\<rparr> = put_coctx a x_put_coctx (w\<lparr>w_registry := reg\<rparr>)"
  by (simp_all add: world_defs)

text \<open>A change of a context is kept outside the changes of the other structs.\<close>

lemma put_ctx_out [simp]:
  "put_conn a x_put_conn (put_ctx p c w) = put_ctx p c (put_conn a x_put_conn w)"
  "put_up a x_put_up (put_ctx p c w) = put_ctx p c (put_up a x_put_up w)"
  "put_req a x_put_req (put_ctx p c w) = put_ctx p c (put_req a x_put_req w)"
  "put_sctx a x_put_sctx (put_ctx p c w) = put_ctx p c (put_sctx a x_put_sctx w)"
  "put_coctx a x_put_coctx (put_ctx p c w) = put_ctx p c (put_coctx a x_put_coctx w)"
  "put_table a x_put_table (put_ctx p c w) = put_ctx p c (put_table a x_put_table w)"
  by (simp_all add: world_defs)

lemma set_stack_triv [simp]: "w_stack w L = s \<Longrightarrow> set_stack L s w = w"
  by (simp add: set_stack_def fun_upd_idem)

text \<open>The events inside the contexts and the connections.\<close>

fun event_at :: "world \<Rightarrow> event_ref \<Rightarrow> ngx_event option" where
  "event_at w (Timer_of a) = map_option cx_timer (ctx_at w a)"
| "event_at w (Completion_of a) = map_option cx_post_completion_ev (ctx_at w a)"
| "event_at w (Read_of a) = map_option cn_read (w_conns w a)"
| "event_at w (Write_of a) = map_option cn_write (w_conns w a)"

fun upd_event :: "event_ref \<Rightarrow> (ngx_event \<Rightarrow> ngx_event) \<Rightarrow> world \<Rightarrow> world" where
  "upd_event (Timer_of a) f w =
     (case ctx_at w a of None \<Rightarrow> w | Some c \<Rightarrow> put_ctx a (c\<lparr>cx_timer := f (cx_timer c)\<rparr>) w)"
| "upd_event (Completion_of a) f w =
     (case ctx_at w a of None \<Rightarrow> w
      | Some c \<Rightarrow> put_ctx a (c\<lparr>cx_post_completion_ev := f (cx_post_completion_ev c)\<rparr>) w)"
| "upd_event (Read_of a) f w =
     (case w_conns w a of None \<Rightarrow> w | Some c \<Rightarrow> put_conn a (c\<lparr>cn_read := f (cn_read c)\<rparr>) w)"
| "upd_event (Write_of a) f w =
     (case w_conns w a of None \<Rightarrow> w | Some c \<Rightarrow> put_conn a (c\<lparr>cn_write := f (cn_write c)\<rparr>) w)"

interpretation ctxs: typed_heap ctx_at put_ctx
  by unfold_locales (auto simp: heap_defs update_conv' alist_update_triv)
interpretation tables: typed_heap table_at put_table
  by unfold_locales (auto simp: heap_defs update_conv' alist_update_triv)
interpretation conns: typed_heap w_conns put_conn
  by unfold_locales (auto simp: heap_defs map_upd_triv)
interpretation ups: typed_heap w_ups put_up
  by unfold_locales (auto simp: heap_defs map_upd_triv)
interpretation reqs: typed_heap w_reqs put_req
  by unfold_locales (auto simp: heap_defs map_upd_triv)
interpretation sctxs: typed_heap w_sctxs put_sctx
  by unfold_locales (auto simp: heap_defs map_upd_triv)
interpretation coctxs: typed_heap w_coctxs put_coctx
  by unfold_locales (auto simp: heap_defs map_upd_triv)

lemmas put_put [simp] = ctxs.put_put tables.put_put conns.put_put ups.put_put reqs.put_put
  sctxs.put_put coctxs.put_put

end
