(* ===== verification/Select_Externals.thy ===== *)
theory Select_Externals
  imports Select_State
begin

text \<open>
  The code the module calls but does not contain: the C API of Lua 5.1, the event functions of
  nginx, the functions of OpenResty's stream Lua module and the system call \<open>ioctl\<close>.  They are
  the fields of a record \<^theory_text>\<open>env\<close> that every definition of the model takes as an
  argument.  The locales below state what the module relies on, each law a sentence of the
  documentation of these libraries; the laws leave open what the documentation leaves open (the
  references \<open>luaL_ref\<close> hands out, the addresses of new objects, the content of fresh memory,
  the order of a table's entries).  The last section instantiates all of them.
\<close>

record env =
  \<comment> \<open>Lua\<close>
  lua_gettop :: "thread \<Rightarrow> world \<Rightarrow> nat"
  lua_istable :: "thread \<Rightarrow> int \<Rightarrow> world \<Rightarrow> bool"
  lua_isnumber :: "thread \<Rightarrow> int \<Rightarrow> world \<Rightarrow> bool"
  lua_isnil :: "thread \<Rightarrow> int \<Rightarrow> world \<Rightarrow> bool"
  lua_isstring :: "thread \<Rightarrow> int \<Rightarrow> world \<Rightarrow> bool"
  lua_tonumber :: "thread \<Rightarrow> int \<Rightarrow> world \<Rightarrow> lua_number"
  lua_tostring :: "thread \<Rightarrow> int \<Rightarrow> world \<Rightarrow> string option \<times> world"
  lua_touserdata :: "thread \<Rightarrow> int \<Rightarrow> world \<Rightarrow> ptr"
  lua_pushnil :: "thread \<Rightarrow> world \<Rightarrow> world"
  lua_pushliteral :: "thread \<Rightarrow> string \<Rightarrow> world \<Rightarrow> world"
  lua_pushcfunction :: "thread \<Rightarrow> fnptr \<Rightarrow> world \<Rightarrow> world"
  lua_pushvalue :: "thread \<Rightarrow> int \<Rightarrow> world \<Rightarrow> world"
  lua_pop :: "thread \<Rightarrow> nat \<Rightarrow> world \<Rightarrow> world"
  lua_checkstack :: "thread \<Rightarrow> nat \<Rightarrow> world \<Rightarrow> bool \<times> world"
  lua_next :: "thread \<Rightarrow> int \<Rightarrow> world \<Rightarrow> bool \<times> world"
  lua_createtable :: "thread \<Rightarrow> nat \<Rightarrow> nat \<Rightarrow> world \<Rightarrow> world"
  lua_settable :: "thread \<Rightarrow> int \<Rightarrow> world \<Rightarrow> world"
  lua_rawseti :: "thread \<Rightarrow> int \<Rightarrow> int \<Rightarrow> world \<Rightarrow> world"
  lua_rawgeti :: "thread \<Rightarrow> int \<Rightarrow> int \<Rightarrow> world \<Rightarrow> world"
  lua_newuserdata :: "thread \<Rightarrow> nat \<Rightarrow> world \<Rightarrow> ptr \<times> world"
  luaL_ref :: "thread \<Rightarrow> world \<Rightarrow> int \<times> world"
  luaL_unref :: "thread \<Rightarrow> int \<Rightarrow> world \<Rightarrow> world"
  lua_str2number :: "string \<Rightarrow> lua_number option"
  lua_number2str :: "lua_number \<Rightarrow> string"
  \<comment> \<open>nginx and the kernel\<close>
  ngx_add_timer :: "event_ref \<Rightarrow> 64 word \<Rightarrow> world \<Rightarrow> world"
  ngx_del_timer :: "event_ref \<Rightarrow> world \<Rightarrow> world"
  ngx_post_event :: "event_ref \<Rightarrow> world \<Rightarrow> world"
  ngx_del_event :: "event_ref \<Rightarrow> world \<Rightarrow> int \<times> world"
  ngx_log_error :: "string \<Rightarrow> world \<Rightarrow> world"
  ioctl_FIONREAD :: "int \<Rightarrow> world \<Rightarrow> int \<times> int"
  \<comment> \<open>OpenResty\<close>
  ngx_stream_lua_get_req :: "thread \<Rightarrow> world \<Rightarrow> ptr"
  ngx_stream_lua_get_module_ctx :: "ptr \<Rightarrow> ngx_module \<Rightarrow> ptr cfun"
  ngx_stream_lua_set_ctx :: "ptr \<Rightarrow> ptr \<Rightarrow> ngx_module \<Rightarrow> unit cfun"
  ngx_stream_lua_get_lua_vm :: "ptr \<Rightarrow> ptr \<Rightarrow> world \<Rightarrow> thread"
  ngx_stream_lua_cleanup_pending_operation :: "ptr \<Rightarrow> unit cfun"
  ngx_stream_lua_run_thread :: "thread \<Rightarrow> ptr \<Rightarrow> ptr \<Rightarrow> int \<Rightarrow> int cfun"
  ngx_stream_lua_run_posted_threads ::
    "ptr \<Rightarrow> thread \<Rightarrow> ptr \<Rightarrow> ptr \<Rightarrow> nat \<Rightarrow> int cfun"
  ngx_stream_lua_finalize_request :: "ptr \<Rightarrow> int \<Rightarrow> unit cfun"
  ngx_stream_lua_core_run_phases :: "ptr \<Rightarrow> unit cfun"
  ngx_stream_lua_add_package_preload :: "string \<Rightarrow> fnptr \<Rightarrow> int cfun"

section \<open>What the Lua manual says of a stack, a table, a value\<close>

text \<open>
  Positive indices count from the bottom of the stack, negative ones from its top.
\<close>

definition lua_at :: "lval list \<Rightarrow> int \<Rightarrow> lval" where
  "lua_at s i =
     (if 0 < i \<and> i \<le> int (length s) then s ! (length s - nat i)
      else if i < 0 \<and> - i \<le> int (length s) then s ! (nat (- i) - 1)
      else LNil)"

lemma lua_at_top [simp]:
  "lua_at (x # s) (-1) = x"
  "lua_at (x # y # s) (-2) = y"
  by (simp_all add: lua_at_def)

lemma lua_at_bottom:
  assumes "0 < i" and "i \<le> int (length s)"
  shows "lua_at (xs @ s) i = lua_at s i"
proof -
  from assms have "nat i \<le> length s" and "0 < nat i" by linarith+
  then have "(xs @ s) ! (length (xs @ s) - nat i) = s ! (length s - nat i)"
    by (simp add: nth_append) linarith
  with assms show ?thesis by (simp add: lua_at_def)
qed

lemma lua_at_Cons [simp]:
  "0 < i \<Longrightarrow> i \<le> int (length s) \<Longrightarrow> lua_at (x # s) i = lua_at s i"
  using lua_at_bottom[of i s "[x]"] by simp

lemma lua_at_base [simp]: "lua_at (x # s) (1 + int (length s)) = x"
  "lua_at (x # s) (int (length s) + 1) = x"
  by (simp_all add: lua_at_def nat_add_distrib)

fun lval_is_table :: "lval \<Rightarrow> bool" where
  "lval_is_table (LTable a) = True"
| "lval_is_table _ = False"

fun lval_number :: "(string \<Rightarrow> lua_number option) \<Rightarrow> lval \<Rightarrow> lua_number option" where
  "lval_number f (LNum x) = Some x"
| "lval_number f (LStr s) = f s"
| "lval_number f _ = None"

fun lval_string :: "(lua_number \<Rightarrow> string) \<Rightarrow> lval \<Rightarrow> string option" where
  "lval_string f (LStr s) = Some s"
| "lval_string f (LNum x) = Some (f x)"
| "lval_string f _ = None"

fun lval_userdata :: "lval \<Rightarrow> ptr" where
  "lval_userdata (LUserdata a) = Some a"
| "lval_userdata (LLightuserdata p) = p"
| "lval_userdata _ = None"

definition lua_int :: "int \<Rightarrow> lval" where
  "lua_int n = LNum (LFin (of_int n))"

lemma lua_int_inject [simp]: "lua_int m = lua_int n \<longleftrightarrow> m = n"
  by (simp add: lua_int_def)

lemma lua_int_not_table [simp]: "lua_int n \<noteq> LTable a" "LTable a \<noteq> lua_int n"
  by (simp_all add: lua_int_def)

definition table_get :: "lua_table \<Rightarrow> lval \<Rightarrow> lval" where
  "table_get t k = (case map_of t k of None \<Rightarrow> LNil | Some v \<Rightarrow> v)"

text \<open>The entry after the key \<open>k\<close> in the traversal order of a table; from nil, the first one.\<close>

fun entry_after :: "lua_table \<Rightarrow> lval \<Rightarrow> (lval \<times> lval) option" where
  "entry_after [] k = None"
| "entry_after ((k', v') # t) k = (if k' = k then (case t of [] \<Rightarrow> None | e # _ \<Rightarrow> Some e) else entry_after t k)"

definition next_entry :: "lua_table \<Rightarrow> lval \<Rightarrow> (lval \<times> lval) option" where
  "next_entry t k =
     (if k = LNil then (case t of [] \<Rightarrow> None | e # _ \<Rightarrow> Some e) else entry_after t k)"

text \<open>A table as a program sees it: no key twice, no nil key, no nil value.\<close>

definition wf_table :: "lua_table \<Rightarrow> bool" where
  "wf_table t \<longleftrightarrow> distinct (map fst t) \<and> LNil \<notin> fst ` set t \<and> LNil \<notin> snd ` set t"

lemma entry_after_append:
  "k \<notin> fst ` set xs \<Longrightarrow> entry_after (xs @ ys) k = entry_after ys k"
  by (induction xs) auto

text \<open>Where a traversal stands after the entries \<open>pre\<close>: on the key of the last of them.\<close>

definition key_after :: "lua_table \<Rightarrow> lval" where
  "key_after pre = (if pre = [] then LNil else fst (last pre))"

lemma key_after_simps [simp]: "key_after [] = LNil" "key_after (pre @ [(k, v)]) = k"
  by (simp_all add: key_after_def)

lemma next_entry_after:
  assumes "wf_table (pre @ post)"
  shows "next_entry (pre @ post) (key_after pre) = (case post of [] \<Rightarrow> None | e # _ \<Rightarrow> Some e)"
proof (cases pre rule: rev_cases)
  case Nil
  then show ?thesis by (simp add: next_entry_def)
next
  case (snoc xs e)
  obtain k v where e: "e = (k, v)" by force
  with snoc assms have "k \<notin> fst ` set xs" and "k \<noteq> LNil" by (auto simp: wf_table_def)
  with snoc e show ?thesis by (simp add: next_entry_def entry_after_append)
qed

lemma key_after_known: "key_after pre = LNil \<or> key_after pre \<in> fst ` set (pre @ post)"
  by (simp add: key_after_def)

section \<open>The laws\<close>

locale lua_api =
  fixes E :: env
  assumes gettop: "lua_gettop E L w = length (w_stack w L)"
    and istable: "lua_istable E L i w = lval_is_table (lua_at (w_stack w L) i)"
    and isnumber:
      "lua_isnumber E L i w = (lval_number (lua_str2number E) (lua_at (w_stack w L) i) \<noteq> None)"
    and isnil: "i \<noteq> 0 \<Longrightarrow> nat \<bar>i\<bar> \<le> length (w_stack w L) \<Longrightarrow>
      lua_isnil E L i w = (lua_at (w_stack w L) i = LNil)"
    and isstring:
      "lua_isstring E L i w = (lval_string (lua_number2str E) (lua_at (w_stack w L) i) \<noteq> None)"
    and tonumber: "lval_number (lua_str2number E) (lua_at (w_stack w L) i) = Some num \<Longrightarrow>
      lua_tonumber E L i w = num"
    and tostring: "w_stack w L = x # s \<Longrightarrow> lval_string (lua_number2str E) x = Some str \<Longrightarrow>
      lua_tostring E L (-1) w = (Some str, set_stack L (LStr str # s) w)"
    and touserdata: "lua_touserdata E L i w = lval_userdata (lua_at (w_stack w L) i)"
    and pushnil: "lua_pushnil E L w = set_stack L (LNil # w_stack w L) w"
    and pushliteral: "lua_pushliteral E L str w = set_stack L (LStr str # w_stack w L) w"
    and pushcfunction: "lua_pushcfunction E L f w = set_stack L (LFunction f # w_stack w L) w"
    and pushvalue: "i \<noteq> 0 \<Longrightarrow> nat \<bar>i\<bar> \<le> length (w_stack w L) \<Longrightarrow>
      lua_pushvalue E L i w = set_stack L (lua_at (w_stack w L) i # w_stack w L) w"
    and pop: "m \<le> length (w_stack w L) \<Longrightarrow> lua_pop E L m w = set_stack L (drop m (w_stack w L)) w"
    and checkstack: "snd (lua_checkstack E L m w) = w"
    and next_more: "w_stack w L = k # s \<Longrightarrow> lua_at (k # s) i = LTable a \<Longrightarrow>
      table_at w a = Some t \<Longrightarrow> wf_table t \<Longrightarrow> next_entry t k = Some (k', v') \<Longrightarrow>
      lua_next E L i w = (True, set_stack L (v' # k' # s) w)"
    and next_done: "w_stack w L = k # s \<Longrightarrow> lua_at (k # s) i = LTable a \<Longrightarrow>
      table_at w a = Some t \<Longrightarrow> wf_table t \<Longrightarrow> next_entry t k = None \<Longrightarrow>
      k = LNil \<or> k \<in> fst ` set t \<Longrightarrow>
      lua_next E L i w = (False, set_stack L s w)"
    and createtable: "\<exists>a. table_at w a = None \<and> lua_createtable E L na nr w =
      set_stack L (LTable a # w_stack w L)
        (put_table a [] (w\<lparr>w_meta := (w_meta w)(a := None)\<rparr>))"
    and settable: "w_stack w L = v # k # s \<Longrightarrow> lua_at (v # k # s) i = LTable a \<Longrightarrow>
      table_at w a = Some t \<Longrightarrow> wf_table t \<Longrightarrow> w_meta w a = None \<Longrightarrow>
      k \<noteq> LNil \<Longrightarrow> k \<noteq> LNum LNaN \<Longrightarrow> v \<noteq> LNil \<Longrightarrow>
      \<exists>t'. wf_table t' \<and> map_of t' = (map_of t)(k \<mapsto> v) \<and>
        lua_settable E L i w = set_stack L s (put_table a t' w)"
    and rawseti: "w_stack w L = v # s \<Longrightarrow> lua_at (v # s) i = LTable a \<Longrightarrow>
      table_at w a = Some t \<Longrightarrow> wf_table t \<Longrightarrow> v \<noteq> LNil \<Longrightarrow>
      \<exists>t'. wf_table t' \<and> map_of t' = (map_of t)(lua_int n \<mapsto> v) \<and>
        lua_rawseti E L i n w = set_stack L s (put_table a t' w)"
    and rawgeti: "i \<noteq> LUA_REGISTRYINDEX \<Longrightarrow> lua_at (w_stack w L) i = LTable a \<Longrightarrow>
      table_at w a = Some t \<Longrightarrow>
      lua_rawgeti E L i n w = set_stack L (table_get t (lua_int n) # w_stack w L) w"
    and rawgeti_registry: "map_of (w_registry w) n = Some v \<Longrightarrow>
      lua_rawgeti E L LUA_REGISTRYINDEX n w = set_stack L (v # w_stack w L) w"
    and newuserdata: "\<exists>a c. ctx_at w a = None \<and> length (cx_socket c) = m \<and>
      lua_newuserdata E L m w =
        (Some a, set_stack L (LUserdata a # w_stack w L) (put_ctx a c w))"
    and ref: "w_stack w L = v # s \<Longrightarrow> v \<noteq> LNil \<Longrightarrow>
      \<exists>n. 1 \<le> n \<and> n \<notin> fst ` set (w_registry w) \<and>
        luaL_ref E L w = (n, set_stack L s (w\<lparr>w_registry := (n, v) # w_registry w\<rparr>))"
    and unref: "n \<in> fst ` set (w_registry w) \<Longrightarrow>
      luaL_unref E L n w = w\<lparr>w_registry := AList.delete n (w_registry w)\<rparr>"

text \<open>
  \<open>newuserdata\<close>: the size the module asks for is that of a context with \<open>n\<close> sockets; the
  memory's content is not specified.  \<open>checkstack\<close> makes room and changes nothing the program
  sees.
\<close>

locale nginx_api =
  fixes E :: env
  assumes add_timer: "ngx_add_timer E e ms w =
      upd_event e (\<lambda>v. v\<lparr>ev_timer_set := True, ev_delay := ms\<rparr>) w"
    and del_timer: "ngx_del_timer E e w = upd_event e (\<lambda>v. v\<lparr>ev_timer_set := False\<rparr>) w"
    and post_event: "event_at w e = Some v \<Longrightarrow> \<not> ev_posted v \<Longrightarrow>
      ngx_post_event E e w =
        upd_event e (\<lambda>v. v\<lparr>ev_posted := True\<rparr>) (w\<lparr>w_posted := w_posted w @ [e]\<rparr>)"
    and del_event: "event_at w e = Some v \<Longrightarrow> ev_active v \<Longrightarrow>
      snd (ngx_del_event E e w) = upd_event e (\<lambda>v. v\<lparr>ev_active := False\<rparr>) w"
    and log_error: "ngx_log_error E msg w = w\<lparr>w_log := w_log w @ [msg]\<rparr>"
    and ioctl: "ioctl_FIONREAD E fd w = w_kernel w fd"

locale openresty_api =
  fixes E :: env
  assumes get_module_ctx: "ngx_stream_lua_get_module_ctx E r m =
      mbind (load w_reqs r) (\<lambda>q. mret (rq_ctx q m))"
    and set_ctx: "ngx_stream_lua_set_ctx E r c m =
      store w_reqs put_req r (\<lambda>q. q\<lparr>rq_ctx := (rq_ctx q)(m := c)\<rparr>)"
    and cleanup_nothing_pending: "w_coctxs w a = Some x \<Longrightarrow> co_cleanup x = Fn_NULL \<Longrightarrow>
      ngx_stream_lua_cleanup_pending_operation E (Some a) w = (Val (), w)"

locale process_api = lua_api E + nginx_api E + openresty_api E for E

section \<open>An instance of the laws\<close>

text \<open>
  The libraries as their documentation describes them, with one choice made where it leaves
  one: the next free reference and address, new entries at the end of a table, zeroed memory.
  What resumes Lua code (\<open>run_thread\<close> and its kin) has no law; here it reports that the
  coroutine yielded again.
\<close>

definition zero_socket :: ngx_lua_select_socket where
  "zero_socket =
     \<lparr>sk_up = None, sk_prev_upstream_read_handler = Fn_NULL,
      sk_prev_upstream_write_handler = Fn_NULL, sk_connection = None,
      sk_type = NGX_LUA_SELECT_TCP_UPSTREAM, sk_lua_socket_ref = 0, sk_readwrite = 0,
      sk_read_ready = False, sk_write_ready = False\<rparr>"

definition zero_ctx :: "nat \<Rightarrow> ngx_lua_select_ctx" where
  "zero_ctx n =
     \<lparr>cx_r = None, cx_coctx = None, cx_prev_request_read_handler = Fn_NULL,
      cx_prev_request_write_handler = Fn_NULL, cx_post_completion_ev = zero_event,
      cx_timer = zero_event, cx_ref = 0, cx_count = 0, cx_socket = replicate n zero_socket\<rparr>"

definition the_table :: "lval list \<Rightarrow> int \<Rightarrow> addr" where
  "the_table s i = (case lua_at s i of LTable a \<Rightarrow> a | _ \<Rightarrow> 0)"

definition the_entries :: "world \<Rightarrow> addr \<Rightarrow> lua_table" where
  "the_entries w a = (case table_at w a of None \<Rightarrow> [] | Some t \<Rightarrow> t)"

definition doc_next :: "thread \<Rightarrow> int \<Rightarrow> world \<Rightarrow> bool \<times> world" where
  "doc_next L i w =
     (let s = w_stack w L in
      case next_entry (the_entries w (the_table s i)) (hd s) of
        None \<Rightarrow> (False, set_stack L (tl s) w)
      | Some (k, v) \<Rightarrow> (True, set_stack L (v # k # tl s) w))"

definition doc_createtable :: "thread \<Rightarrow> nat \<Rightarrow> nat \<Rightarrow> world \<Rightarrow> world" where
  "doc_createtable L na nr w =
     (let a = fresh_nat (w_tables w) in
      set_stack L (LTable a # w_stack w L)
        (put_table a [] (w\<lparr>w_meta := (w_meta w)(a := None)\<rparr>)))"

definition doc_rawset :: "thread \<Rightarrow> addr \<Rightarrow> lval \<Rightarrow> lval \<Rightarrow> nat \<Rightarrow> world \<Rightarrow> world" where
  "doc_rawset L a k v n w =
     set_stack L (drop n (w_stack w L)) (put_table a (AList.update k v (the_entries w a)) w)"

definition doc_rawgeti :: "thread \<Rightarrow> int \<Rightarrow> int \<Rightarrow> world \<Rightarrow> world" where
  "doc_rawgeti L i n w =
     set_stack L
       ((if i = LUA_REGISTRYINDEX
         then (case map_of (w_registry w) n of None \<Rightarrow> LNil | Some v \<Rightarrow> v)
         else table_get (the_entries w (the_table (w_stack w L) i)) (lua_int n)) # w_stack w L) w"

definition doc_newuserdata :: "thread \<Rightarrow> nat \<Rightarrow> world \<Rightarrow> ptr \<times> world" where
  "doc_newuserdata L n w =
     (let a = fresh_nat (w_ctxs w) in
      (Some a, set_stack L (LUserdata a # w_stack w L) (put_ctx a (zero_ctx n) w)))"

definition doc_ref :: "thread \<Rightarrow> world \<Rightarrow> int \<times> world" where
  "doc_ref L w =
     (let n = fresh_int (w_registry w) in
      (n, set_stack L (tl (w_stack w L))
            (w\<lparr>w_registry := (n, hd (w_stack w L)) # w_registry w\<rparr>)))"

definition doc_tostring ::
  "(lua_number \<Rightarrow> string) \<Rightarrow> thread \<Rightarrow> int \<Rightarrow> world \<Rightarrow> string option \<times> world" where
  "doc_tostring f L i w =
     (case lval_string f (lua_at (w_stack w L) i) of
        None \<Rightarrow> (None, w)
      | Some str \<Rightarrow> (Some str,
          if i = -1 then set_stack L (LStr str # tl (w_stack w L)) w else w))"

definition doc_post_event :: "event_ref \<Rightarrow> world \<Rightarrow> world" where
  "doc_post_event e w =
     upd_event e (\<lambda>v. v\<lparr>ev_posted := True\<rparr>) (w\<lparr>w_posted := w_posted w @ [e]\<rparr>)"

definition doc_cleanup_pending :: "ptr \<Rightarrow> unit cfun" where
  "doc_cleanup_pending c = store w_coctxs put_coctx c (\<lambda>x. x\<lparr>co_cleanup := Fn_NULL\<rparr>)"

definition doc_env :: env where
  "doc_env =
     \<lparr>lua_gettop = (\<lambda>L w. length (w_stack w L)),
      lua_istable = (\<lambda>L i w. lval_is_table (lua_at (w_stack w L) i)),
      lua_isnumber = (\<lambda>L i w. lval_number (\<lambda>_. None) (lua_at (w_stack w L) i) \<noteq> None),
      lua_isnil = (\<lambda>L i w. lua_at (w_stack w L) i = LNil),
      lua_isstring = (\<lambda>L i w. lval_string (\<lambda>_. ''0'') (lua_at (w_stack w L) i) \<noteq> None),
      lua_tonumber = (\<lambda>L i w.
        case lval_number (\<lambda>_. None) (lua_at (w_stack w L) i) of None \<Rightarrow> LFin 0 | Some x \<Rightarrow> x),
      lua_tostring = doc_tostring (\<lambda>_. ''0''),
      lua_touserdata = (\<lambda>L i w. lval_userdata (lua_at (w_stack w L) i)),
      lua_pushnil = (\<lambda>L w. set_stack L (LNil # w_stack w L) w),
      lua_pushliteral = (\<lambda>L str w. set_stack L (LStr str # w_stack w L) w),
      lua_pushcfunction = (\<lambda>L f w. set_stack L (LFunction f # w_stack w L) w),
      lua_pushvalue = (\<lambda>L i w. set_stack L (lua_at (w_stack w L) i # w_stack w L) w),
      lua_pop = (\<lambda>L n w. set_stack L (drop n (w_stack w L)) w),
      lua_checkstack = (\<lambda>L n w. (True, w)),
      lua_next = doc_next,
      lua_createtable = doc_createtable,
      lua_settable = (\<lambda>L i w.
        doc_rawset L (the_table (w_stack w L) i) (hd (tl (w_stack w L))) (hd (w_stack w L)) 2 w),
      lua_rawseti = (\<lambda>L i n w.
        doc_rawset L (the_table (w_stack w L) i) (lua_int n) (hd (w_stack w L)) 1 w),
      lua_rawgeti = doc_rawgeti,
      lua_newuserdata = doc_newuserdata,
      luaL_ref = doc_ref,
      luaL_unref = (\<lambda>L n w. w\<lparr>w_registry := AList.delete n (w_registry w)\<rparr>),
      lua_str2number = (\<lambda>_. None),
      lua_number2str = (\<lambda>_. ''0''),
      ngx_add_timer = (\<lambda>e ms. upd_event e (\<lambda>v. v\<lparr>ev_timer_set := True, ev_delay := ms\<rparr>)),
      ngx_del_timer = (\<lambda>e. upd_event e (\<lambda>v. v\<lparr>ev_timer_set := False\<rparr>)),
      ngx_post_event = doc_post_event,
      ngx_del_event = (\<lambda>e w. (NGX_OK, upd_event e (\<lambda>v. v\<lparr>ev_active := False\<rparr>) w)),
      ngx_log_error = (\<lambda>msg w. w\<lparr>w_log := w_log w @ [msg]\<rparr>),
      ioctl_FIONREAD = (\<lambda>fd w. w_kernel w fd),
      ngx_stream_lua_get_req = (\<lambda>L w. Some 1),
      ngx_stream_lua_get_module_ctx =
        (\<lambda>r m. mbind (load w_reqs r) (\<lambda>q. mret (rq_ctx q m))),
      ngx_stream_lua_set_ctx =
        (\<lambda>r c m. store w_reqs put_req r (\<lambda>q. q\<lparr>rq_ctx := (rq_ctx q)(m := c)\<rparr>)),
      ngx_stream_lua_get_lua_vm = (\<lambda>r c w. 0),
      ngx_stream_lua_cleanup_pending_operation = doc_cleanup_pending,
      ngx_stream_lua_run_thread = (\<lambda>L r c n. mret NGX_AGAIN),
      ngx_stream_lua_run_posted_threads = (\<lambda>c L r s n. mret NGX_DONE),
      ngx_stream_lua_finalize_request = (\<lambda>r rc. mret ()),
      ngx_stream_lua_core_run_phases = (\<lambda>r. mret ()),
      ngx_stream_lua_add_package_preload = (\<lambda>name f. mret NGX_OK)\<rparr>"

lemma wf_table_update:
  assumes "wf_table t" and "k \<noteq> LNil" and "v \<noteq> LNil"
  shows "wf_table (AList.update k v t)"
proof -
  have "set (AList.update k v t) \<subseteq> insert (k, v) (set t)"
    by (induction t) auto
  with assms show ?thesis
    by (auto simp: wf_table_def distinct_update dom_update)
qed

lemma doc_createtable_law:
  "\<exists>a. table_at w a = None \<and> doc_createtable L na nr w =
    set_stack L (LTable a # w_stack w L) (put_table a [] (w\<lparr>w_meta := (w_meta w)(a := None)\<rparr>))"
  by (rule exI[of _ "fresh_nat (w_tables w)"])
    (simp add: doc_createtable_def table_at_def map_of_None_fst fresh_nat_notin Let_def)

lemma doc_rawset_law:
  assumes "table_at w a = Some t" and "wf_table t" and "k \<noteq> LNil" and "v \<noteq> LNil"
    and "drop n (w_stack w L) = s"
  shows "\<exists>t'. wf_table t' \<and> map_of t' = (map_of t)(k \<mapsto> v) \<and>
    doc_rawset L a k v n w = set_stack L s (put_table a t' w)"
  using assms
  by (intro exI[of _ "AList.update k v t"])
    (simp add: doc_rawset_def the_entries_def wf_table_update update_conv')

lemma doc_newuserdata_law:
  "\<exists>a. ctx_at w a = None \<and> (\<exists>c. length (cx_socket c) = n \<and> doc_newuserdata L n w =
    (Some a, set_stack L (LUserdata a # w_stack w L) (put_ctx a c w)))"
  by (intro exI[of _ "fresh_nat (w_ctxs w)"] conjI exI[of _ "zero_ctx n"])
    (simp_all add: doc_newuserdata_def ctx_at_def map_of_None_fst fresh_nat_notin Let_def zero_ctx_def)

lemma doc_ref_law:
  assumes "w_stack w L = v # s"
  shows "\<exists>n. 1 \<le> n \<and> n \<notin> fst ` set (w_registry w) \<and>
    doc_ref L w = (n, set_stack L s (w\<lparr>w_registry := (n, v) # w_registry w\<rparr>))"
  using assms
  by (intro exI[of _ "fresh_int (w_registry w)"])
    (simp add: doc_ref_def fresh_int_notin fresh_int_pos Let_def)

lemma lua_int_not_nil [simp]: "lua_int n \<noteq> LNil"
  by (simp add: lua_int_def)

interpretation doc_lua: lua_api doc_env
  by unfold_locales
    (auto simp: doc_env_def doc_tostring_def doc_next_def doc_rawgeti_def the_table_def
        the_entries_def
      intro: doc_createtable_law doc_newuserdata_law doc_ref_law doc_rawset_law)

interpretation doc_nginx: nginx_api doc_env
  by unfold_locales (simp_all add: doc_env_def doc_post_event_def)

interpretation doc_openresty: openresty_api doc_env
  by unfold_locales
    (simp_all add: doc_env_def doc_cleanup_pending_def run_simps coctxs.put_same)

interpretation doc_process: process_api doc_env ..

end
