(* ===== verification/Select_Result.thy ===== *)
theory Select_Result
  imports Select_Externals
begin

text \<open>
  \<open>ngx_lua_select_push_result\<close> (\<open>src/ngx_lua_select.c\<close>): the table of ready sockets that
  \<open>ngx.select\<close> returns to Lua, or \<open>nil, "timeout"\<close>.  The abstract result
  \<^theory_text>\<open>result_map\<close> is the map the README promises; the lemmas prove that the calls on the
  Lua stack build a table with exactly this content and leave the stack otherwise as it was.
\<close>

section \<open>The code\<close>

text \<open>One round of the loop over the sockets.\<close>

definition push_result_round :: "env \<Rightarrow> thread \<Rightarrow> ptr \<Rightarrow> int \<Rightarrow> nat \<Rightarrow> int \<Rightarrow> int cfun" where
  "push_result_round E L ctx socktable_index i ready_count =
     mbind (socket_at ctx i) (\<lambda>s.
     let sockref = sk_lua_socket_ref s in
     if \<not> sk_read_ready s \<and> \<not> sk_write_ready s then mret ready_count
     else
       mbind (rd (lua_gettop E L)) (\<lambda>sane_stack_top.
       let ready_count = ready_count + 1 in
       mseq (ext (lua_checkstack E L 3)) (
       mseq (act (lua_rawgeti E L LUA_REGISTRYINDEX sockref)) (
       mseq (act (lua_pushvalue E L (-1))) (
       mseq (if sk_read_ready s \<and> sk_write_ready s then act (lua_pushliteral E L ''rw'')
             else if sk_read_ready s then act (lua_pushliteral E L ''r'')
             else act (lua_pushliteral E L ''w'')) (
       mseq (act (lua_settable E L socktable_index)) (
       mseq (act (lua_rawseti E L socktable_index ready_count)) (
       mbind (rd (lua_gettop E L)) (\<lambda>top.
       mseq (c_assert (top = sane_stack_top)) (
       mret ready_count))))))))))"

definition ngx_lua_select_push_result :: "env \<Rightarrow> thread \<Rightarrow> ptr \<Rightarrow> int cfun" where
  "ngx_lua_select_push_result E L ctx =
     mseq (act (lua_createtable E L 1 1)) (
     mbind (rd (lua_gettop E L)) (\<lambda>socktable_index.
     mbind (load ctx_at ctx) (\<lambda>c.
     mbind (for_each [0..<cx_count c] (push_result_round E L ctx (int socktable_index)) 0)
       (\<lambda>ready_count.
     mbind (load ctx_at ctx) (\<lambda>c.
     if ready_count = 0 \<and> ev_timedout (cx_timer c) then
       mseq (act (lua_pop E L 1)) (
       mseq (act (lua_pushnil E L)) (
       mseq (act (lua_pushliteral E L ''timeout'')) (
       mret 2)))
     else mret 1)))))"

section \<open>What the caller is promised\<close>

fun mode_string :: "bool \<Rightarrow> bool \<Rightarrow> string" where
  "mode_string r w = (if r \<and> w then ''rw'' else if r then ''r'' else ''w'')"

text \<open>The sockets with a ready flag, in order, as Lua values with their mode strings.\<close>

definition ready_list ::
  "(int \<times> lval) list \<Rightarrow> ngx_lua_select_socket list \<Rightarrow> (lval \<times> string) list" where
  "ready_list reg ss =
     map (\<lambda>s. (the (map_of reg (sk_lua_socket_ref s)),
               mode_string (sk_read_ready s) (sk_write_ready s)))
       (filter (\<lambda>s. sk_read_ready s \<or> sk_write_ready s) ss)"

text \<open>
  The content of the result table after the ready sockets \<open>rs\<close>, the first of them the
  \<open>(n + 1)\<close>-th entry: \<open>[socket] = mode\<close> and \<open>[number] = socket\<close>.
\<close>

fun result_map :: "int \<Rightarrow> (lval \<Rightarrow> lval option) \<Rightarrow> (lval \<times> string) list \<Rightarrow> lval \<Rightarrow> lval option" where
  "result_map n m [] = m"
| "result_map n m ((v, md) # rs) = result_map (n + 1) (m(v \<mapsto> LStr md, lua_int (n + 1) \<mapsto> v)) rs"

lemma result_map_append:
  "result_map n m (xs @ ys) = result_map (n + int (length xs)) (result_map n m xs) ys"
  by (induction xs arbitrary: n m) (auto simp: algebra_simps)

text \<open>Reading the result table: the sockets by number, the modes by socket, nothing else.\<close>

lemma result_map_number:
  assumes "\<forall>r \<in> set rs. lval_is_table (fst r)"
  shows "result_map n m rs (lua_int k) =
    (if n < k \<and> k \<le> n + int (length rs) then Some (fst (rs ! nat (k - n - 1)))
     else m (lua_int k))"
  using assms
proof (induction rs arbitrary: n m)
  case Nil
  then show ?case by auto
next
  case (Cons r rs)
  obtain v md where r: "r = (v, md)" by force
  with Cons.prems have v: "v \<noteq> lua_int k" by (auto simp: lua_int_def)
  consider "k = n + 1" | "n + 1 < k" | "k \<le> n" by linarith
  then show ?case
  proof cases
    case 2
    then have "nat (k - n - 1) = Suc (nat (k - (n + 1) - 1))" by simp
    with 2 r v Cons.IH Cons.prems show ?thesis by auto
  qed (use r v Cons.IH Cons.prems in auto)
qed

lemma result_map_socket:
  "result_map n m rs (LTable a) =
    (case map_of (rev rs) (LTable a) of Some md \<Rightarrow> Some (LStr md) | None \<Rightarrow> m (LTable a))"
proof (induction rs arbitrary: n m)
  case (Cons r rs)
  obtain v md where "r = (v, md)" by force
  with Cons.IH show ?case by (auto split: option.splits simp: map_add_def)
qed simp

lemma result_map_other:
  assumes "\<forall>r \<in> set rs. lval_is_table (fst r)" and "\<not> lval_is_table k" and "\<forall>n. k \<noteq> lua_int n"
  shows "result_map n m rs k = m k"
  using assms by (induction rs arbitrary: n m) (auto split: prod.splits)

section \<open>The code builds the promised table\<close>

text \<open>Every socket's reference is live and refers to a Lua table, as a cosocket is.\<close>

definition refs_live :: "(int \<times> lval) list \<Rightarrow> ngx_lua_select_socket list \<Rightarrow> bool" where
  "refs_live reg ss \<longleftrightarrow> (\<forall>s \<in> set ss. \<exists>a. map_of reg (sk_lua_socket_ref s) = Some (LTable a))"

lemma ready_list_Nil [simp]: "ready_list reg [] = []"
  by (simp add: ready_list_def)

lemma ready_list_append [simp]: "ready_list reg (xs @ ys) = ready_list reg xs @ ready_list reg ys"
  by (simp add: ready_list_def)

lemma ready_list_tables:
  "refs_live reg ss \<Longrightarrow> \<forall>r \<in> set (ready_list reg ss). lval_is_table (fst r)"
  by (fastforce simp: refs_live_def ready_list_def)

lemma ready_list_Nil_iff:
  "ready_list reg ss = [] \<longleftrightarrow> (\<forall>s \<in> set ss. \<not> sk_read_ready s \<and> \<not> sk_write_ready s)"
  by (auto simp: ready_list_def filter_empty_conv)

text \<open>The keys of the result table.\<close>

lemma result_keys:
  assumes tables: "\<forall>r \<in> set rs. lval_is_table (fst r)" and t: "map_of t = result_map 0 Map.empty rs"
  shows "fst ` set t \<subseteq> LTable ` UNIV \<union> lua_int ` {1..int (length rs)}"
proof
  fix k assume "k \<in> fst ` set t"
  then have some: "result_map 0 Map.empty rs k \<noteq> None"
    using t by (metis map_of_None_fst)
  consider b where "k = LTable b" | n where "k = lua_int n" | "\<not> lval_is_table k" "\<forall>n. k \<noteq> lua_int n"
    by (cases k) auto
  then show "k \<in> LTable ` UNIV \<union> lua_int ` {1..int (length rs)}"
  proof cases
    case 2
    with some result_map_number[OF tables, of 0 Map.empty n]
    show ?thesis by (auto split: if_splits)
  next
    case 3
    with some result_map_other[OF tables, of k 0 Map.empty] show ?thesis by simp
  qed simp
qed

text \<open>The mode under a socket that is in the list once.\<close>

lemma map_of_only: "(k, v) \<in> set xs \<Longrightarrow> (\<And>v'. (k, v') \<in> set xs \<Longrightarrow> v' = v) \<Longrightarrow> map_of xs k = Some v"
  by (metis map_of_SomeD weak_map_of_SomeI)

lemma result_mode:
  assumes live: "refs_live reg ss" and s: "s \<in> set ss" "sk_read_ready s \<or> sk_write_ready s"
    and v: "map_of reg (sk_lua_socket_ref s) = Some (LTable b)"
    and once: "\<forall>s' \<in> set ss. map_of reg (sk_lua_socket_ref s') = Some (LTable b) \<longrightarrow> s' = s"
  shows "result_map 0 Map.empty (ready_list reg ss) (LTable b)
    = Some (LStr (mode_string (sk_read_ready s) (sk_write_ready s)))"
proof -
  let ?md = "mode_string (sk_read_ready s) (sk_write_ready s)"
  have "(LTable b, ?md) \<in> set (rev (ready_list reg ss))"
    using s v by (auto simp: ready_list_def image_iff simp del: mode_string.simps intro!: bexI[of _ s])
  moreover have "md = ?md" if "(LTable b, md) \<in> set (rev (ready_list reg ss))" for md
  proof -
    from that obtain s' where "s' \<in> set ss" "the (map_of reg (sk_lua_socket_ref s')) = LTable b"
        "md = mode_string (sk_read_ready s') (sk_write_ready s')"
      by (auto simp: ready_list_def simp del: mode_string.simps)
    with live once show ?thesis by (fastforce simp: refs_live_def simp del: mode_string.simps)
  qed
  ultimately have "map_of (rev (ready_list reg ss)) (LTable b) = Some ?md" by (rule map_of_only)
  then show ?thesis by (simp add: result_map_socket del: mode_string.simps)
qed

context lua_api begin

lemma push_result_round_skip:
  assumes "ctx_at w p = Some c" and "i < length (cx_socket c)"
    and "\<not> sk_read_ready (cx_socket c ! i)" and "\<not> sk_write_ready (cx_socket c ! i)"
  shows "push_result_round E L (Some p) idx i n w = (Val n, w)"
  using assms by (simp add: push_result_round_def run_simps)

lemma push_result_round_ready:
  assumes c: "ctx_at w p = Some c" "i < length (cx_socket c)"
    and s: "s = cx_socket c ! i" "sk_read_ready s \<or> sk_write_ready s"
    and ref: "map_of (w_registry w) (sk_lua_socket_ref s) = Some (LTable b)"
    and stk: "w_stack w L = LTable a # base" "idx = 1 + int (length base)"
    and t: "table_at w a = Some t" "wf_table t" "w_meta w a = None"
  shows "\<exists>t'. wf_table t' \<and>
    map_of t' = (map_of t)(LTable b \<mapsto> LStr (mode_string (sk_read_ready s) (sk_write_ready s)),
                           lua_int (n + 1) \<mapsto> LTable b) \<and>
    push_result_round E L (Some p) idx i n w = (Val (n + 1), put_table a t' w)"
proof -
  define md where "md = mode_string (sk_read_ready s) (sk_write_ready s)"
  let ?w3 = "set_stack L (LStr md # LTable b # LTable b # LTable a # base) w"
  have "\<exists>t1. wf_table t1 \<and> map_of t1 = (map_of t)(LTable b \<mapsto> LStr md) \<and>
      lua_settable E L idx ?w3 = set_stack L (LTable b # LTable a # base) (put_table a t1 ?w3)"
    by (rule settable) (use stk t in simp_all)
  then obtain t1 where t1: "wf_table t1" "map_of t1 = (map_of t)(LTable b \<mapsto> LStr md)"
    and set1: "lua_settable E L idx ?w3
                 = set_stack L (LTable b # LTable a # base) (put_table a t1 w)" by auto
  let ?w4 = "set_stack L (LTable b # LTable a # base) (put_table a t1 w)"
  have "\<exists>t2. wf_table t2 \<and> map_of t2 = (map_of t1)(lua_int (n + 1) \<mapsto> LTable b) \<and>
      lua_rawseti E L idx (n + 1) ?w4 = set_stack L (LTable a # base) (put_table a t2 ?w4)"
    by (rule rawseti) (use stk t t1 in simp_all)
  then obtain t2 where t2: "wf_table t2" "map_of t2 = (map_of t1)(lua_int (n + 1) \<mapsto> LTable b)"
    and set2: "lua_rawseti E L idx (n + 1) ?w4 = put_table a t2 w"
    using stk(1) by auto
  have md_push: "(if sk_read_ready s \<and> sk_write_ready s then act (lua_pushliteral E L ''rw'')
      else if sk_read_ready s then act (lua_pushliteral E L ''r'')
      else act (lua_pushliteral E L ''w'')) = act (lua_pushliteral E L md)"
    by (simp add: md_def)
  have "push_result_round E L (Some p) idx i n w = (Val (n + 1), put_table a t2 w)"
    using c s(2) ref stk(1)
    unfolding push_result_round_def s(1)[symmetric] Let_def
    by (simp add: run_simps s(1)[symmetric] md_push gettop checkstack rawgeti_registry pushvalue
        pushliteral set1 set2 del: mode_string.simps)
  then show ?thesis
    using t1 t2 by (intro exI[of _ t2]) (simp add: md_def del: mode_string.simps)
qed

lemma push_result_step:
  fixes w :: world
  defines "rs \<equiv> \<lambda>ss. ready_list (w_registry w) ss"
  assumes c: "ctx_at w p = Some c" and live: "refs_live (w_registry w) (cx_socket c)"
    and stk: "w_stack w L = LTable a # base" "idx = 1 + int (length base)" and meta: "w_meta w a = None"
    and k: "k < length (cx_socket c)" and t: "wf_table t"
      "map_of t = result_map 0 Map.empty (rs (take k (cx_socket c)))"
  shows "\<exists>t'. wf_table t' \<and> map_of t' = result_map 0 Map.empty (rs (take (Suc k) (cx_socket c))) \<and>
    push_result_round E L (Some p) idx k (int (length (rs (take k (cx_socket c))))) (put_table a t w)
      = (Val (int (length (rs (take (Suc k) (cx_socket c))))), put_table a t' w)"
proof -
  let ?s = "cx_socket c ! k" and ?w = "put_table a t w" and ?n = "int (length (rs (take k (cx_socket c))))"
  have rs: "rs (take (Suc k) (cx_socket c)) = rs (take k (cx_socket c)) @ rs [?s]"
    using k by (simp add: rs_def take_Suc_conv_app_nth)
  have w: "ctx_at ?w p = Some c" "w_stack ?w L = LTable a # base" "table_at ?w a = Some t"
      "w_meta ?w a = None"
    using c stk meta by simp_all
  show ?thesis
  proof (cases "sk_read_ready ?s \<or> sk_write_ready ?s")
    case False
    then have "rs [?s] = []" by (simp add: rs_def ready_list_def)
    with False t show ?thesis
      using w(1) k by (auto simp: rs push_result_round_skip)
  next
    case True
    obtain b where b: "map_of (w_registry w) (sk_lua_socket_ref ?s) = Some (LTable b)"
      using live nth_mem[OF k] by (auto simp: refs_live_def)
    with True have one: "rs [?s] = [(LTable b, mode_string (sk_read_ready ?s) (sk_write_ready ?s))]"
      by (auto simp: rs_def ready_list_def)
    have b': "map_of (w_registry ?w) (sk_lua_socket_ref ?s) = Some (LTable b)" using b by simp
    from push_result_round_ready[OF w(1) k refl True b' w(2) stk(2) w(3) t(1) w(4), of ?n]
    obtain t' where t': "wf_table t'" "map_of t' = (map_of t)(LTable b \<mapsto>
          LStr (mode_string (sk_read_ready ?s) (sk_write_ready ?s)), lua_int (?n + 1) \<mapsto> LTable b)"
      and run: "push_result_round E L (Some p) idx k ?n ?w = (Val (?n + 1), put_table a t' w)"
      by auto
    have "map_of t' = result_map 0 Map.empty (rs (take (Suc k) (cx_socket c)))"
      unfolding rs one result_map_append using t'(2) t(2) by (simp add: add.commute)
    with t'(1) run show ?thesis by (auto simp: rs one)
  qed
qed

lemma push_result_loop:
  fixes w :: world
  assumes c: "ctx_at w p = Some c" "cx_count c = length (cx_socket c)"
    and live: "refs_live (w_registry w) (cx_socket c)"
    and stk: "w_stack w L = LTable a # base" "idx = 1 + int (length base)"
    and t: "table_at w a = Some []" "w_meta w a = None"
  shows "\<exists>t. wf_table t \<and>
    map_of t = result_map 0 Map.empty (ready_list (w_registry w) (cx_socket c)) \<and>
    for_each [0..<cx_count c] (push_result_round E L (Some p) idx) 0 w
      = (Val (int (length (ready_list (w_registry w) (cx_socket c)))), put_table a t w)"
proof -
  let ?rs = "\<lambda>k. ready_list (w_registry w) (take k (cx_socket c))"
  let ?I = "\<lambda>k n w'. n = int (length (?rs k)) \<and>
    (\<exists>t. wf_table t \<and> map_of t = result_map 0 Map.empty (?rs k) \<and> w' = put_table a t w)"
  have "\<exists>n w'. for_each [0..<cx_count c] (push_result_round E L (Some p) idx) 0 w = (Val n, w') \<and>
      ?I (length [0..<cx_count c]) n w'"
  proof (rule for_each_invariant)
    show "?I 0 0 w" using t by (auto intro!: exI[of _ "[]"] simp: wf_table_def tables.put_same)
  next
    fix k n w' assume k: "k < length [0..<cx_count c]" and I: "?I k n w'"
    then have i: "k < length (cx_socket c)" and nth: "[0..<cx_count c] ! k = k" using c by simp_all
    from I push_result_step[OF c(1) live stk t(2) i]
    show "\<exists>n' w''. push_result_round E L (Some p) idx ([0..<cx_count c] ! k) n w' = (Val n', w'') \<and>
        ?I (Suc k) n' w''"
      unfolding nth by blast
  qed
  then show ?thesis using c by auto
qed

text \<open>The state after the call: one value or two more on the stack, one more Lua table.\<close>

theorem push_result_run:
  assumes c: "ctx_at w p = Some c" "cx_count c = length (cx_socket c)"
    and live: "refs_live (w_registry w) (cx_socket c)"
  shows "\<exists>a t. table_at w a = None \<and> wf_table t \<and>
    map_of t = result_map 0 Map.empty (ready_list (w_registry w) (cx_socket c)) \<and>
    ngx_lua_select_push_result E L (Some p) w =
      (let w' = put_table a t (w\<lparr>w_meta := (w_meta w)(a := None)\<rparr>) in
       if ready_list (w_registry w) (cx_socket c) = [] \<and> ev_timedout (cx_timer c)
       then (Val 2, set_stack L (LStr ''timeout'' # LNil # w_stack w L) w')
       else (Val 1, set_stack L (LTable a # w_stack w L) w'))"
proof -
  obtain a where a: "table_at w a = None"
    and new: "lua_createtable E L 1 1 w = set_stack L (LTable a # w_stack w L)
        (put_table a [] (w\<lparr>w_meta := (w_meta w)(a := None)\<rparr>))"
    using createtable by blast
  let ?w1 = "set_stack L (LTable a # w_stack w L)
        (put_table a [] (w\<lparr>w_meta := (w_meta w)(a := None)\<rparr>))"
  let ?idx = "1 + int (length (w_stack w L))"
  have ctx: "ctx_at ?w1 p = Some c" using c by (simp add: ctx_at_def)
  have "\<exists>t. wf_table t \<and>
      map_of t = result_map 0 Map.empty (ready_list (w_registry ?w1) (cx_socket c)) \<and>
      for_each [0..<cx_count c] (push_result_round E L (Some p) ?idx) 0 ?w1
        = (Val (int (length (ready_list (w_registry ?w1) (cx_socket c)))), put_table a t ?w1)"
    by (rule push_result_loop[OF ctx c(2)]) (use live in simp_all)
  then obtain t where t: "wf_table t"
      "map_of t = result_map 0 Map.empty (ready_list (w_registry w) (cx_socket c))"
    and loop: "for_each [0..<cx_count c] (push_result_round E L (Some p) ?idx) 0 ?w1
        = (Val (int (length (ready_list (w_registry w) (cx_socket c)))), put_table a t ?w1)"
    by auto
  have "ngx_lua_select_push_result E L (Some p) w =
      (let w' = put_table a t (w\<lparr>w_meta := (w_meta w)(a := None)\<rparr>) in
       if ready_list (w_registry w) (cx_socket c) = [] \<and> ev_timedout (cx_timer c)
       then (Val 2, set_stack L (LStr ''timeout'' # LNil # w_stack w L) w')
       else (Val 1, set_stack L (LTable a # w_stack w L) w'))"
    using ctx loop
    by (simp add: ngx_lua_select_push_result_def run_simps new gettop pop pushnil pushliteral Let_def
        drop_Cons' del: One_nat_def)
  with a t show ?thesis by blast
qed

end

end
