(* ===== verification/Select_Ready.thy ===== *)
theory Select_Ready
  imports Select_Externals
begin

text \<open>
  \<open>ngx_lua_select_sockets_ready\<close> and \<open>ngx_lua_select_get_socket_type\<close>
  (\<open>src/ngx_lua_select.c\<close>): the poll of the kernel for bytes that already wait on a socket,
  and the classification of a socket by its connection.
\<close>

section \<open>The code\<close>

text \<open>\<open>SOCK_STREAM\<close> and \<open>SOCK_DGRAM\<close> of \<open>sys/socket.h\<close>.\<close>

definition SOCK_STREAM :: int where "SOCK_STREAM = 1"

definition ngx_lua_select_get_socket_type :: "ptr \<Rightarrow> ptr \<Rightarrow> ngx_lua_select_socktype_t" where
  "ngx_lua_select_get_socket_type c request_connection =
     (let type = SOCK_STREAM in
      if c = request_connection then
        (if type = SOCK_STREAM then NGX_LUA_SELECT_TCP_DOWNSTREAM else NGX_LUA_SELECT_UDP_DOWNSTREAM)
      else
        (if type = SOCK_STREAM then NGX_LUA_SELECT_TCP_UPSTREAM else NGX_LUA_SELECT_UDP_UPSTREAM))"

text \<open>The loop with its early return; the pair is \<open>*err\<close> and the return value.\<close>

fun sockets_ready_loop :: "env \<Rightarrow> ptr \<Rightarrow> nat list \<Rightarrow> int \<Rightarrow> (string option \<times> int) cfun" where
  "sockets_ready_loop E ctx [] ready_count = mret (None, ready_count)"
| "sockets_ready_loop E ctx (i # is) ready_count =
     mbind (socket_at ctx i) (\<lambda>s.
     mbind (load w_conns (sk_connection s)) (\<lambda>conn.
     let fd = cn_fd conn in
     mbind (rd (ioctl_FIONREAD E fd)) (\<lambda>(rc, bytesready).
     if rc < 0 then mret (Some ''ioctl error'', 0)
     else if 0 < bytesready then
       mseq (upd_socket ctx i (\<lambda>s. s\<lparr>sk_read_ready := True\<rparr>))
         (sockets_ready_loop E ctx is (ready_count + 1))
     else sockets_ready_loop E ctx is ready_count)))"

definition ngx_lua_select_sockets_ready :: "env \<Rightarrow> ptr \<Rightarrow> (string option \<times> int) cfun" where
  "ngx_lua_select_sockets_ready E ctx =
     mbind (load ctx_at ctx) (\<lambda>c. sockets_ready_loop E ctx [0..<cx_count c] 0)"

section \<open>What the poll finds\<close>

lemma get_socket_type_tcp:
  "ngx_lua_select_get_socket_type c d =
    (if c = d then NGX_LUA_SELECT_TCP_DOWNSTREAM else NGX_LUA_SELECT_TCP_UPSTREAM)"
  by (simp add: ngx_lua_select_get_socket_type_def)

text \<open>The kernel's answer for a socket of the context: the result of the call and the bytes.\<close>

definition socket_poll :: "world \<Rightarrow> ngx_lua_select_socket \<Rightarrow> int \<times> int" where
  "socket_poll w s =
     (case sk_connection s of None \<Rightarrow> (-1, 0)
      | Some a \<Rightarrow> (case w_conns w a of None \<Rightarrow> (-1, 0) | Some conn \<Rightarrow> w_kernel w (cn_fd conn)))"

definition bytes_waiting :: "world \<Rightarrow> ngx_lua_select_socket \<Rightarrow> bool" where
  "bytes_waiting w s \<longleftrightarrow> 0 \<le> fst (socket_poll w s) \<and> 0 < snd (socket_poll w s)"

definition poll_mark :: "world \<Rightarrow> ngx_lua_select_socket \<Rightarrow> ngx_lua_select_socket" where
  "poll_mark w s = (if bytes_waiting w s then s\<lparr>sk_read_ready := True\<rparr> else s)"

text \<open>The connection of every socket exists.\<close>

definition conns_live :: "world \<Rightarrow> ngx_lua_select_socket list \<Rightarrow> bool" where
  "conns_live w ss \<longleftrightarrow> (\<forall>s \<in> set ss. \<exists>a conn. sk_connection s = Some a \<and> w_conns w a = Some conn)"

lemma socket_poll_put_ctx [simp]: "socket_poll (put_ctx a c w) = socket_poll w"
  by (auto simp: socket_poll_def fun_eq_iff split: option.split)

lemma poll_mark_put_ctx [simp]: "poll_mark (put_ctx a c w) = poll_mark w"
  "bytes_waiting (put_ctx a c w) = bytes_waiting w" "conns_live (put_ctx a c w) = conns_live w"
  by (simp_all add: poll_mark_def bytes_waiting_def conns_live_def fun_eq_iff)

text \<open>The slots after a poll that a failing \<open>ioctl\<close> ends.\<close>

definition poll_ok :: "world \<Rightarrow> ngx_lua_select_socket \<Rightarrow> bool" where
  "poll_ok w s \<longleftrightarrow> 0 \<le> fst (socket_poll w s)"

definition polled :: "world \<Rightarrow> ngx_lua_select_socket list \<Rightarrow> ngx_lua_select_socket list" where
  "polled w ss = map (poll_mark w) (takeWhile (poll_ok w) ss) @ dropWhile (poll_ok w) ss"

lemma poll_ok_put_ctx [simp]: "poll_ok (put_ctx a c w) = poll_ok w"
  by (simp add: poll_ok_def fun_eq_iff)

lemma polled_put_ctx [simp]: "polled (put_ctx a c w) = polled w"
  by (simp add: polled_def fun_eq_iff)

lemma upt_length_Cons: "k < n \<Longrightarrow> [k..<n] = k # [Suc k..<n]"
  by (rule upt_conv_Cons)

context nginx_api begin

lemma ready_loop_ok:
  assumes "ctx_at w p = Some c" and "length (cx_socket c) = k + length rest"
    and "drop k (cx_socket c) = rest" and "conns_live w rest"
    and "\<forall>s \<in> set rest. 0 \<le> fst (socket_poll w s)"
  shows "sockets_ready_loop E (Some p) [k..<length (cx_socket c)] n w =
    (Val (None, n + int (length (filter (bytes_waiting w) rest))),
     put_ctx p (c\<lparr>cx_socket := take k (cx_socket c) @ map (poll_mark w) rest\<rparr>) w)"
  using assms
proof (induction rest arbitrary: k n c w)
  case Nil
  then show ?case by (simp add: run_simps ctxs.put_same)
next
  case (Cons s rest)
  let ?ss = "cx_socket c"
  have k: "k < length ?ss" and s: "?ss ! k = s"
    using Cons.prems(2,3) by (simp_all add: nth_via_drop)
  have dr: "drop (Suc k) ?ss = rest" using Cons.prems(3) by (metis drop_Suc list.sel(3) tl_drop)
  obtain a conn where conn: "sk_connection s = Some a" "w_conns w a = Some conn"
    using Cons.prems(4) by (auto simp: conns_live_def)
  obtain rc b where poll: "w_kernel w (cn_fd conn) = (rc, b)" by force
  then have sp: "socket_poll w s = (rc, b)" by (simp add: socket_poll_def conn)
  have rc: "0 \<le> rc" using Cons.prems(5) sp by auto
  show ?case
  proof (cases "0 < b")
    case True
    let ?c = "c\<lparr>cx_socket := ?ss[k := s\<lparr>sk_read_ready := True\<rparr>]\<rparr>"
    let ?w = "put_ctx p ?c w"
    have bw: "bytes_waiting w s" using sp rc True by (simp add: bytes_waiting_def)
    then have pm: "poll_mark w s = s\<lparr>sk_read_ready := True\<rparr>" by (simp add: poll_mark_def)
    have "sockets_ready_loop E (Some p) [Suc k..<length (cx_socket ?c)] (n + 1) ?w =
      (Val (None, n + 1 + int (length (filter (bytes_waiting ?w) rest))),
       put_ctx p (?c\<lparr>cx_socket := take (Suc k) (cx_socket ?c) @ map (poll_mark ?w) rest\<rparr>) ?w)"
      by (rule Cons.IH) (use Cons.prems dr in \<open>simp_all add: conns_live_def\<close>)
    moreover have "take (Suc k) (?ss[k := s\<lparr>sk_read_ready := True\<rparr>])
        = take k ?ss @ [s\<lparr>sk_read_ready := True\<rparr>]"
      using k by (simp add: take_Suc_conv_app_nth)
    ultimately show ?thesis
      using k s conn poll rc True bw Cons.prems(1)
      by (simp add: upt_length_Cons run_simps ioctl pm)
  next
    case False
    have bw: "\<not> bytes_waiting w s" using sp False by (simp add: bytes_waiting_def)
    then have pm: "poll_mark w s = s" by (simp add: poll_mark_def)
    have "sockets_ready_loop E (Some p) [Suc k..<length ?ss] n w =
      (Val (None, n + int (length (filter (bytes_waiting w) rest))),
       put_ctx p (c\<lparr>cx_socket := take (Suc k) ?ss @ map (poll_mark w) rest\<rparr>) w)"
      by (rule Cons.IH) (use Cons.prems dr in \<open>simp_all add: conns_live_def\<close>)
    then show ?thesis
      using k s conn poll rc False bw Cons.prems(1)
      by (simp add: upt_length_Cons run_simps ioctl pm take_Suc_conv_app_nth)
  qed
qed

lemma sockets_ready_ok:
  assumes "ctx_at w p = Some c" and "cx_count c = length (cx_socket c)"
    and "conns_live w (cx_socket c)" and "\<forall>s \<in> set (cx_socket c). 0 \<le> fst (socket_poll w s)"
  shows "ngx_lua_select_sockets_ready E (Some p) w =
    (Val (None, int (length (filter (bytes_waiting w) (cx_socket c)))),
     put_ctx p (c\<lparr>cx_socket := map (poll_mark w) (cx_socket c)\<rparr>) w)"
  using assms ready_loop_ok[of w p c 0 "cx_socket c" 0]
  by (simp add: ngx_lua_select_sockets_ready_def run_simps)

text \<open>
  A socket on which \<open>ioctl\<close> fails ends the poll; only the sockets before it are marked.
\<close>

lemma ready_loop_error:
  assumes "ctx_at w p = Some c" and "length (cx_socket c) = k + length rest"
    and "drop k (cx_socket c) = rest" and "conns_live w rest" and "\<exists>s \<in> set rest. \<not> poll_ok w s"
  shows "sockets_ready_loop E (Some p) [k..<length (cx_socket c)] n w
    = (Val (Some ''ioctl error'', 0),
       put_ctx p (c\<lparr>cx_socket := take k (cx_socket c) @ polled w rest\<rparr>) w)"
  using assms
proof (induction rest arbitrary: k n c w)
  case (Cons s rest)
  let ?ss = "cx_socket c"
  have k: "k < length ?ss" and s: "?ss ! k = s"
    using Cons.prems(2,3) by (simp_all add: nth_via_drop)
  have dr: "drop (Suc k) ?ss = rest" using Cons.prems(3) by (metis drop_Suc list.sel(3) tl_drop)
  obtain a conn where conn: "sk_connection s = Some a" "w_conns w a = Some conn"
    using Cons.prems(4) by (auto simp: conns_live_def)
  obtain rc b where poll: "w_kernel w (cn_fd conn) = (rc, b)" by force
  then have sp: "socket_poll w s = (rc, b)" by (simp add: socket_poll_def conn)
  show ?case
  proof (cases "rc < 0")
    case True
    then have "polled w (s # rest) = s # rest" using sp by (simp add: polled_def poll_ok_def)
    moreover have "take k ?ss @ s # rest = ?ss" using Cons.prems(3) by (metis append_take_drop_id)
    ultimately show ?thesis
      using True k s conn poll Cons.prems(1) by (simp add: upt_length_Cons run_simps ioctl ctxs.put_same)
  next
    case ok: False
    then have pok: "poll_ok w s" using sp by (simp add: poll_ok_def)
    then have bad: "\<exists>s \<in> set rest. \<not> poll_ok w s" using Cons.prems(5) by auto
    have step: "polled w (s # rest) = poll_mark w s # polled w rest" using pok by (simp add: polled_def)
    show ?thesis
    proof (cases "0 < b")
      case True
      let ?c = "c\<lparr>cx_socket := ?ss[k := s\<lparr>sk_read_ready := True\<rparr>]\<rparr>"
      have "poll_mark w s = s\<lparr>sk_read_ready := True\<rparr>"
        using True sp ok by (simp add: poll_mark_def bytes_waiting_def)
      moreover have "sockets_ready_loop E (Some p) [Suc k..<length (cx_socket ?c)] (n + 1) (put_ctx p ?c w)
        = (Val (Some ''ioctl error'', 0), put_ctx p (?c\<lparr>cx_socket := take (Suc k) (cx_socket ?c)
             @ polled (put_ctx p ?c w) rest\<rparr>) (put_ctx p ?c w))"
        by (rule Cons.IH) (use Cons.prems dr bad in \<open>simp_all add: conns_live_def\<close>)
      moreover have "take (Suc k) (?ss[k := s\<lparr>sk_read_ready := True\<rparr>])
          = take k ?ss @ [s\<lparr>sk_read_ready := True\<rparr>]"
        using k by (simp add: take_Suc_conv_app_nth)
      ultimately show ?thesis
        using k s conn poll ok True Cons.prems(1) step by (simp add: upt_length_Cons run_simps ioctl)
    next
      case False
      then have "poll_mark w s = s" using sp by (simp add: poll_mark_def bytes_waiting_def)
      moreover have "sockets_ready_loop E (Some p) [Suc k..<length ?ss] n w
        = (Val (Some ''ioctl error'', 0),
           put_ctx p (c\<lparr>cx_socket := take (Suc k) ?ss @ polled w rest\<rparr>) w)"
        by (rule Cons.IH) (use Cons.prems dr bad in \<open>simp_all add: conns_live_def\<close>)
      ultimately show ?thesis
        using k s conn poll ok False Cons.prems(1) step
        by (simp add: upt_length_Cons run_simps ioctl take_Suc_conv_app_nth)
    qed
  qed
qed simp

lemma sockets_ready_error:
  assumes "ctx_at w p = Some c" and "cx_count c = length (cx_socket c)"
    and "conns_live w (cx_socket c)" and "\<exists>s \<in> set (cx_socket c). \<not> poll_ok w s"
  shows "ngx_lua_select_sockets_ready E (Some p) w =
    (Val (Some ''ioctl error'', 0), put_ctx p (c\<lparr>cx_socket := polled w (cx_socket c)\<rparr>) w)"
  using assms ready_loop_error[of w p c 0 "cx_socket c" 0]
  by (simp add: ngx_lua_select_sockets_ready_def run_simps)

end

end
