(* ===== verification/Select_Cleanup.thy ===== *)
theory Select_Cleanup
  imports Select_Externals
begin

unbundle bit_operations_syntax

text \<open>
  Leaving a select: \<open>select_fail_cleanup\<close> on the error paths of the Lua function, and
  \<open>ngx_stream_lua_select_ctx_cleanup_and_discard\<close> with its caller
  \<open>ngx_stream_lua_select_cleanup\<close> at the end of a select or when its coroutine is killed
  (\<open>src/ngx_stream_lua_select_module.c\<close>).
\<close>

section \<open>The code\<close>

text \<open>The test of a flag of \<open>readwrite\<close>, and the 2-bit field promoted to \<open>int\<close>.\<close>

definition rw_has :: "32 word \<Rightarrow> 32 word \<Rightarrow> bool" where
  "rw_has readwrite flag \<longleftrightarrow> readwrite AND flag \<noteq> 0"

definition sk_rw :: "ngx_lua_select_socket \<Rightarrow> 32 word" where
  "sk_rw s = ucast (sk_readwrite s)"

text \<open>One round of the loop of \<open>select_fail_cleanup\<close>.\<close>

definition fail_cleanup_socket :: "env \<Rightarrow> ptr \<Rightarrow> nat \<Rightarrow> unit cfun" where
  "fail_cleanup_socket E ctx i =
     mbind (socket_at ctx i) (\<lambda>s.
     mbind (case sk_type s of
              NGX_LUA_SELECT_TCP_UPSTREAM \<Rightarrow>
                mbind (load w_ups (sk_up s)) (\<lambda>u. mret (up_peer_connection u))
            | NGX_LUA_SELECT_TCP_DOWNSTREAM \<Rightarrow>
                mbind (load w_ups (sk_up s)) (\<lambda>u. mret (up_peer_connection u))
            | NGX_LUA_SELECT_UDP_UPSTREAM \<Rightarrow>
                mbind (load w_udps (sk_up s)) (\<lambda>u. mret (uu_connection u))
            | NGX_LUA_SELECT_UDP_DOWNSTREAM \<Rightarrow>
                mbind (load w_udps (sk_up s)) (\<lambda>u. mret (uu_connection u))
            | Not_a_socktype _ \<Rightarrow>
                mseq (act (ngx_log_error E ''unexpected socket type on select fail cleanup''))
                  (mret None))
       (\<lambda>c.
     mseq (mwhen (rw_has (sk_rw s) NGX_LUA_SELECT_READ \<and> c \<noteq> None)
             (mbind (load w_conns c) (\<lambda>conn.
              mwhen (ev_active (cn_read conn))
                (mseq (ext (ngx_del_event E (Read_of (the c)))) (mret ()))))) (
     mwhen (rw_has (sk_rw s) NGX_LUA_SELECT_WRITE \<and> c \<noteq> None)
       (mbind (load w_conns c) (\<lambda>conn.
        mwhen (ev_active (cn_write conn))
          (mseq (ext (ngx_del_event E (Write_of (the c)))) (mret ())))))))"

definition select_fail_cleanup :: "env \<Rightarrow> thread \<Rightarrow> ptr \<Rightarrow> nat \<Rightarrow> unit cfun" where
  "select_fail_cleanup E L ctx selected_so_far =
     mseq (if ctx = None then mret () else
             mbind (load ctx_at ctx) (\<lambda>c.
             mwhen (cx_ref c \<noteq> LUA_NOREF)
               (mseq (act (luaL_unref E L (cx_ref c)))
                 (store ctx_at put_ctx ctx (\<lambda>c. c\<lparr>cx_ref := LUA_NOREF\<rparr>))))) (
     for_each [0..<selected_so_far] (\<lambda>i _. fail_cleanup_socket E ctx i) ())"

text \<open>One round of the loop of \<open>ngx_stream_lua_select_ctx_cleanup_and_discard\<close>.\<close>

definition discard_socket :: "env \<Rightarrow> ptr \<Rightarrow> ptr \<Rightarrow> thread \<Rightarrow> nat \<Rightarrow> unit cfun" where
  "discard_socket E r ctx L i =
     mbind (socket_at ctx i) (\<lambda>s.
     mseq (case sk_type s of
             NGX_LUA_SELECT_TCP_UPSTREAM \<Rightarrow>
               mseq (c_assert (sk_prev_upstream_read_handler s \<noteq> Fn_NULL))
                 (store w_ups put_up (sk_up s)
                   (\<lambda>u. u\<lparr>up_read_event_handler := sk_prev_upstream_read_handler s\<rparr>))
           | NGX_LUA_SELECT_TCP_DOWNSTREAM \<Rightarrow>
               mbind (load ctx_at ctx) (\<lambda>c.
               mseq (c_assert (cx_prev_request_read_handler c \<noteq> Fn_NULL))
                 (store w_reqs put_req r
                   (\<lambda>q. q\<lparr>rq_read_event_handler := cx_prev_request_read_handler c\<rparr>)))
           | NGX_LUA_SELECT_UDP_UPSTREAM \<Rightarrow> mfault Sig_abort
           | NGX_LUA_SELECT_UDP_DOWNSTREAM \<Rightarrow> mfault Sig_abort
           | Not_a_socktype _ \<Rightarrow>
               act (ngx_log_error E ''unexpected socket type on select cleanup'')) (
     act (luaL_unref E L (sk_lua_socket_ref s))))"

definition ngx_stream_lua_select_ctx_cleanup_and_discard :: "env \<Rightarrow> ptr \<Rightarrow> unit cfun" where
  "ngx_stream_lua_select_ctx_cleanup_and_discard E r =
     mbind (ngx_stream_lua_get_module_ctx E r Mod_select) (\<lambda>ctx.
     mbind (ngx_stream_lua_get_module_ctx E r Mod_stream_lua) (\<lambda>streamctx.
     mbind (rd (ngx_stream_lua_get_lua_vm E r streamctx)) (\<lambda>L.
     mbind (load ctx_at ctx) (\<lambda>c.
     mseq (mwhen (ev_timer_set (cx_timer c)) (act (ngx_del_timer E (Timer_of (the ctx))))) (
     mseq (for_each [0..<cx_count c] (\<lambda>i _. discard_socket E r ctx L i) ()) (
     mbind (load ctx_at ctx) (\<lambda>c.
     mseq (act (luaL_unref E L (cx_ref c)))
       (ngx_stream_lua_set_ctx E r None Mod_select))))))))"

definition ngx_stream_lua_select_cleanup :: "env \<Rightarrow> ptr \<Rightarrow> unit cfun" where
  "ngx_stream_lua_select_cleanup E data =
     mbind (load w_coctxs data) (\<lambda>coctx.
     ngx_stream_lua_select_ctx_cleanup_and_discard E (co_data coctx))"

section \<open>What discarding a context does\<close>

text \<open>The effect of one round on the state, when its assertion holds.\<close>

definition discard_effect :: "addr \<Rightarrow> ngx_lua_select_ctx \<Rightarrow> ngx_lua_select_socket \<Rightarrow> world \<Rightarrow> world" where
  "discard_effect r c s w =
     (let w = (case sk_type s of
                 NGX_LUA_SELECT_TCP_UPSTREAM \<Rightarrow>
                   (case sk_up s of None \<Rightarrow> w | Some a \<Rightarrow>
                     (case w_ups w a of None \<Rightarrow> w | Some u \<Rightarrow>
                       put_up a (u\<lparr>up_read_event_handler := sk_prev_upstream_read_handler s\<rparr>) w))
               | NGX_LUA_SELECT_TCP_DOWNSTREAM \<Rightarrow>
                   (case w_reqs w r of None \<Rightarrow> w | Some q \<Rightarrow>
                     put_req r (q\<lparr>rq_read_event_handler := cx_prev_request_read_handler c\<rparr>) w)
               | _ \<Rightarrow> w)
      in w\<lparr>w_registry := AList.delete (sk_lua_socket_ref s) (w_registry w)\<rparr>)"

text \<open>When a socket can be discarded: the handler to restore was saved.\<close>

definition discardable :: "world \<Rightarrow> ngx_lua_select_ctx \<Rightarrow> ngx_lua_select_socket \<Rightarrow> bool" where
  "discardable w c s \<longleftrightarrow>
     (sk_type s = NGX_LUA_SELECT_TCP_UPSTREAM \<and> sk_prev_upstream_read_handler s \<noteq> Fn_NULL \<and>
        (\<exists>a u. sk_up s = Some a \<and> w_ups w a = Some u)) \<or>
     (sk_type s = NGX_LUA_SELECT_TCP_DOWNSTREAM \<and> cx_prev_request_read_handler c \<noteq> Fn_NULL)"

lemma discard_effect_frame [simp]:
  "ctx_at (discard_effect r c s w) = ctx_at w"
  "table_at (discard_effect r c s w) = table_at w"
  "w_stack (discard_effect r c s w) = w_stack w"
  "w_conns (discard_effect r c s w) = w_conns w"
  "w_sctxs (discard_effect r c s w) = w_sctxs w"
  "w_coctxs (discard_effect r c s w) = w_coctxs w"
  "w_posted (discard_effect r c s w) = w_posted w"
  "w_log (discard_effect r c s w) = w_log w"
  "w_kernel (discard_effect r c s w) = w_kernel w"
  "w_registry (discard_effect r c s w) = AList.delete (sk_lua_socket_ref s) (w_registry w)"
  by (auto simp: discard_effect_def Let_def
      split: ngx_lua_select_socktype_t.splits option.splits)

lemma discard_effect_dom [simp]:
  "w_ups (discard_effect r c s w) a = None \<longleftrightarrow> w_ups w a = None"
  "w_reqs (discard_effect r c s w) b = None \<longleftrightarrow> w_reqs w b = None"
  by (auto simp: discard_effect_def Let_def
      split: ngx_lua_select_socktype_t.splits option.splits)

lemma discardable_discard_effect [simp]:
  "discardable (discard_effect r c s w) c s' \<longleftrightarrow> discardable w c s'"
proof -
  have "(\<exists>u. w_ups (discard_effect r c s w) a = Some u) \<longleftrightarrow> (\<exists>u. w_ups w a = Some u)" for a
    using discard_effect_dom(1)[of r c s w a] by (metis not_None_eq)
  then show ?thesis by (auto simp: discardable_def)
qed

text \<open>All rounds, in the order of the loop.\<close>

abbreviation discard_all ::
  "addr \<Rightarrow> ngx_lua_select_ctx \<Rightarrow> ngx_lua_select_socket list \<Rightarrow> world \<Rightarrow> world" where
  "discard_all r c ss w \<equiv> fold (discard_effect r c) ss w"

lemma discard_all_frame [simp]:
  "ctx_at (discard_all r c ss w) = ctx_at w"
  "table_at (discard_all r c ss w) = table_at w"
  "w_stack (discard_all r c ss w) = w_stack w"
  "w_conns (discard_all r c ss w) = w_conns w"
  "w_sctxs (discard_all r c ss w) = w_sctxs w"
  "w_coctxs (discard_all r c ss w) = w_coctxs w"
  "w_posted (discard_all r c ss w) = w_posted w"
  "w_log (discard_all r c ss w) = w_log w"
  "w_kernel (discard_all r c ss w) = w_kernel w"
  "discardable (discard_all r c ss w) c s' \<longleftrightarrow> discardable w c s'"
  "w_ups (discard_all r c ss w) a = None \<longleftrightarrow> w_ups w a = None"
  "w_reqs (discard_all r c ss w) b = None \<longleftrightarrow> w_reqs w b = None"
  by (induction ss arbitrary: w) simp_all

lemma discard_all_registry:
  "w_registry (discard_all r c ss w) =
    filter (\<lambda>e. fst e \<notin> sk_lua_socket_ref ` set ss) (w_registry w)"
  by (induction ss arbitrary: w)
    (auto simp: AList.delete_eq filter_filter intro!: filter_cong)

text \<open>
  The read handler of an upstream is in the end the one saved by the last socket of the list
  that holds this upstream; the request's the one saved in the context.
\<close>

definition is_up :: "addr \<Rightarrow> ngx_lua_select_socket \<Rightarrow> bool" where
  "is_up a s \<longleftrightarrow> sk_type s = NGX_LUA_SELECT_TCP_UPSTREAM \<and> sk_up s = Some a"

definition is_down :: "ngx_lua_select_socket \<Rightarrow> bool" where
  "is_down s \<longleftrightarrow> sk_type s = NGX_LUA_SELECT_TCP_DOWNSTREAM"

lemma discard_effect_ups:
  "w_ups (discard_effect r c s w) a =
    (if is_up a s
     then map_option (\<lambda>u. u\<lparr>up_read_event_handler := sk_prev_upstream_read_handler s\<rparr>) (w_ups w a)
     else w_ups w a)"
  by (auto simp: discard_effect_def Let_def is_up_def
      split: ngx_lua_select_socktype_t.splits option.splits)

lemma discard_effect_reqs:
  "w_reqs (discard_effect r c s w) b =
    (if is_down s \<and> b = r
     then map_option (\<lambda>q. q\<lparr>rq_read_event_handler := cx_prev_request_read_handler c\<rparr>) (w_reqs w b)
     else w_reqs w b)"
  by (auto simp: discard_effect_def Let_def is_down_def
      split: ngx_lua_select_socktype_t.splits option.splits)

lemma discard_all_reqs:
  "w_reqs (discard_all r c ss w) b =
    (if (\<exists>s \<in> set ss. is_down s) \<and> b = r
     then map_option (\<lambda>q. q\<lparr>rq_read_event_handler := cx_prev_request_read_handler c\<rparr>) (w_reqs w b)
     else w_reqs w b)"
proof (induction ss arbitrary: w)
  case (Cons s ss)
  then show ?case by (cases "w_reqs w b") (auto simp: discard_effect_reqs)
qed simp

lemma discard_all_ups:
  "w_ups (discard_all r c ss w) a =
    (case filter (is_up a) ss of
       [] \<Rightarrow> w_ups w a
     | _ \<Rightarrow> map_option (\<lambda>u. u\<lparr>up_read_event_handler :=
                sk_prev_upstream_read_handler (last (filter (is_up a) ss))\<rparr>) (w_ups w a))"
proof (induction ss arbitrary: w)
  case (Cons s ss)
  then show ?case
    by (cases "w_ups w a") (auto simp: discard_effect_ups split: list.splits)
qed simp

context lua_api begin

lemma discard_socket_run:
  assumes c: "ctx_at w p = Some c" and i: "i < length (cx_socket c)"
    and ok: "discardable w c (cx_socket c ! i)" and q: "w_reqs w r = Some q"
    and ref: "sk_lua_socket_ref (cx_socket c ! i) \<in> fst ` set (w_registry w)"
  shows "discard_socket E (Some r) (Some p) L i w
    = (Val (), discard_effect r c (cx_socket c ! i) w)"
  using ok unfolding discardable_def
proof (elim disjE conjE exE)
  fix a u
  assume "sk_type (cx_socket c ! i) = NGX_LUA_SELECT_TCP_UPSTREAM"
    "sk_prev_upstream_read_handler (cx_socket c ! i) \<noteq> Fn_NULL"
    "sk_up (cx_socket c ! i) = Some a" "w_ups w a = Some u"
  with c i ref show ?thesis
    by (simp add: discard_socket_def discard_effect_def run_simps unref)
next
  assume "sk_type (cx_socket c ! i) = NGX_LUA_SELECT_TCP_DOWNSTREAM"
    "cx_prev_request_read_handler c \<noteq> Fn_NULL"
  with c i ref q show ?thesis
    by (simp add: discard_socket_def discard_effect_def run_simps unref)
qed

lemma discard_prefix_run:
  assumes c: "ctx_at w p = Some c" and n: "n \<le> length (cx_socket c)"
    and ok: "\<forall>s \<in> set (take n (cx_socket c)). discardable w c s" and q: "w_reqs w r = Some q"
    and refs: "sk_lua_socket_ref ` set (cx_socket c) \<subseteq> fst ` set (w_registry w)"
    and dist: "distinct (map sk_lua_socket_ref (cx_socket c))"
  shows "for_each [0..<n] (\<lambda>i _. discard_socket E (Some r) (Some p) L i) () w
    = (Val (), discard_all r c (take n (cx_socket c)) w)"
proof -
  let ?I = "\<lambda>k (u::unit) w'. w' = discard_all r c (take k (cx_socket c)) w"
  have "\<exists>u w'. for_each [0..<n] (\<lambda>i _. discard_socket E (Some r) (Some p) L i) () w
      = (Val u, w') \<and> ?I (length [0..<n]) u w'"
  proof (rule for_each_invariant)
    fix k u w' assume k: "k < length [0..<n]" and w': "?I k u w'"
    let ?s = "cx_socket c ! k"
    have i: "k < length (cx_socket c)" and nth: "[0..<n] ! k = k" using k n by simp_all
    obtain q' where q': "w_reqs w' r = Some q'"
      using q discard_all_frame(12)[of r c "take k (cx_socket c)" w r] w' by (cases "w_reqs w' r") auto
    have fresh: "sk_lua_socket_ref ?s \<notin> sk_lua_socket_ref ` set (take k (cx_socket c))"
      using dist i by (auto simp: in_set_conv_nth distinct_conv_nth)
    have "sk_lua_socket_ref ?s \<in> fst ` set (w_registry w)"
      using refs nth_mem[OF i] by blast
    with fresh have live: "sk_lua_socket_ref ?s \<in> fst ` set (w_registry w')"
      by (auto simp: w' discard_all_registry image_iff)
    have "?s \<in> set (take n (cx_socket c))" using k n by (auto simp: in_set_conv_nth)
    then have "discard_socket E (Some r) (Some p) L k w' = (Val (), discard_effect r c ?s w')"
      using c i ok q' w' live by (intro discard_socket_run) simp_all
    then show "\<exists>u' w''. discard_socket E (Some r) (Some p) L ([0..<n] ! k) w' = (Val u', w'')
        \<and> ?I (Suc k) u' w''"
      using i nth w' by (simp add: take_Suc_conv_app_nth)
  qed simp
  then show ?thesis by auto
qed

lemma discard_loop_run:
  assumes "ctx_at w p = Some c" and "cx_count c = length (cx_socket c)"
    and "\<forall>s \<in> set (cx_socket c). discardable w c s" and "w_reqs w r = Some q"
    and "sk_lua_socket_ref ` set (cx_socket c) \<subseteq> fst ` set (w_registry w)"
    and "distinct (map sk_lua_socket_ref (cx_socket c))"
  shows "for_each [0..<cx_count c] (\<lambda>i _. discard_socket E (Some r) (Some p) L i) () w
    = (Val (), discard_all r c (cx_socket c) w)"
  using discard_prefix_run[of w p c "cx_count c" r q L] assms by simp

text \<open>The assertion of a round fails when no handler was saved.\<close>

lemma discard_socket_assert:
  assumes c: "ctx_at w p = Some c" and i: "i < length (cx_socket c)" and s: "s = cx_socket c ! i"
    and bad: "sk_type s = NGX_LUA_SELECT_TCP_UPSTREAM \<and> sk_prev_upstream_read_handler s = Fn_NULL \<or>
      sk_type s = NGX_LUA_SELECT_TCP_DOWNSTREAM \<and> cx_prev_request_read_handler c = Fn_NULL"
  shows "discard_socket E (Some r) (Some p) L i w = (Fault Assert_failed, w)"
  using bad c i s[symmetric] by (auto simp: discard_socket_def run_simps)

lemma discard_loop_assert:
  assumes c: "ctx_at w p = Some c" and n: "n = length (cx_socket c)"
    and kinds: "\<forall>s \<in> set (cx_socket c). discardable w c s \<or>
      sk_type s = NGX_LUA_SELECT_TCP_UPSTREAM \<and> sk_prev_upstream_read_handler s = Fn_NULL \<or>
      sk_type s = NGX_LUA_SELECT_TCP_DOWNSTREAM \<and> cx_prev_request_read_handler c = Fn_NULL"
    and bad: "\<not> (\<forall>s \<in> set (cx_socket c). discardable w c s)" and q: "w_reqs w r = Some q"
    and refs: "sk_lua_socket_ref ` set (cx_socket c) \<subseteq> fst ` set (w_registry w)"
    and dist: "distinct (map sk_lua_socket_ref (cx_socket c))"
  shows "\<exists>w'. for_each [0..<n] (\<lambda>i _. discard_socket E (Some r) (Some p) L i) () w
    = (Fault Assert_failed, w')"
proof -
  let ?bad = "\<lambda>i. i < length (cx_socket c) \<and> \<not> discardable w c (cx_socket c ! i)"
  have "\<exists>i. ?bad i" using bad by (auto simp: in_set_conv_nth)
  then obtain k where k: "?bad k" "\<forall>i < k. \<not> ?bad i" by (subst (asm) exists_least_iff) blast
  have ok: "\<forall>s \<in> set (take k (cx_socket c)). discardable w c s"
  proof
    fix s assume "s \<in> set (take k (cx_socket c))"
    then obtain i where "i < k" "i < length (cx_socket c)" "s = cx_socket c ! i"
      by (auto simp: in_set_conv_nth)
    with k(2) show "discardable w c s" by blast
  qed
  let ?w = "discard_all r c (take k (cx_socket c)) w"
  have prefix: "for_each [0..<k] (\<lambda>i _. discard_socket E (Some r) (Some p) L i) () w = (Val (), ?w)"
    using k by (intro discard_prefix_run[OF c _ ok q refs dist]) simp
  have "cx_socket c ! k \<in> set (cx_socket c)" using k by simp
  then have fault: "discard_socket E (Some r) (Some p) L k ?w = (Fault Assert_failed, ?w)"
    using kinds k c by (intro discard_socket_assert) auto
  have "[0..<n] = [0..<k] @ k # [Suc k..<n]"
    using k n upt_add_eq_append[of 0 k "n - k"] by (simp add: upt_conv_Cons)
  then show ?thesis
    using prefix fault by (simp add: for_each_append run_simps)
qed

end

text \<open>The whole of \<open>ngx_stream_lua_select_ctx_cleanup_and_discard\<close>.\<close>

definition timer_off :: "ngx_lua_select_ctx \<Rightarrow> ngx_lua_select_ctx" where
  "timer_off c = c\<lparr>cx_timer := (cx_timer c)\<lparr>ev_timer_set := False\<rparr>\<rparr>"

definition discarded :: "addr \<Rightarrow> lua_request \<Rightarrow> addr \<Rightarrow> ngx_lua_select_ctx \<Rightarrow> world \<Rightarrow> world" where
  "discarded r q p c w =
     (let w = discard_all r c (cx_socket c) (put_ctx p (timer_off c) w) in
      put_req r ((the (w_reqs w r))\<lparr>rq_ctx := (rq_ctx q)(Mod_select := None)\<rparr>)
        (w\<lparr>w_registry := AList.delete (cx_ref c) (w_registry w)\<rparr>))"

text \<open>
  When a context can be discarded: every socket can be, its references are live and distinct.
\<close>

definition ctx_discardable :: "world \<Rightarrow> addr \<Rightarrow> addr \<Rightarrow> ngx_lua_select_ctx \<Rightarrow> bool" where
  "ctx_discardable w r p c \<longleftrightarrow>
     ctx_at w p = Some c \<and> cx_count c = length (cx_socket c) \<and>
     (\<forall>s \<in> set (cx_socket c). discardable w c s) \<and>
     (\<exists>q. w_reqs w r = Some q \<and> rq_ctx q Mod_select = Some p) \<and>
     distinct (cx_ref c # map sk_lua_socket_ref (cx_socket c)) \<and>
     set (cx_ref c # map sk_lua_socket_ref (cx_socket c)) \<subseteq> fst ` set (w_registry w)"

lemma timer_off_simps [simp]:
  "cx_socket (timer_off c) = cx_socket c" "cx_count (timer_off c) = cx_count c"
  "cx_ref (timer_off c) = cx_ref c"
  "cx_prev_request_read_handler (timer_off c) = cx_prev_request_read_handler c"
  "ev_timer_set (cx_timer (timer_off c)) = False"
  "discard_effect r (timer_off c) = discard_effect r c"
  "discardable w (timer_off c) = discardable w c"
  by (auto simp: timer_off_def fun_eq_iff discard_effect_def discardable_def Let_def
      split: ngx_lua_select_socktype_t.split option.split)

lemma timer_off_id: "\<not> ev_timer_set (cx_timer c) \<Longrightarrow> timer_off c = c"
  by (simp add: timer_off_def)

lemma discardable_put_ctx [simp]: "discardable (put_ctx p x w) c s = discardable w c s"
  by (simp add: discardable_def)

context process_api begin

lemma timer_stopped:
  assumes "ctx_at w p = Some c"
  shows "mwhen (ev_timer_set (cx_timer c)) (act (ngx_del_timer E (Timer_of p))) w
    = (Val (), put_ctx p (timer_off c) w)"
  using assms
  by (cases "ev_timer_set (cx_timer c)")
    (simp_all add: run_simps del_timer ctxs.put_same timer_off_id, simp add: timer_off_def)

lemma cleanup_and_discard_run:
  assumes ok: "ctx_discardable w r p c" and q: "w_reqs w r = Some q"
  shows "ngx_stream_lua_select_ctx_cleanup_and_discard E (Some r) w
    = (Val (), discarded r q p c w)"
proof -
  from ok have c: "ctx_at w p = Some c" "cx_count c = length (cx_socket c)"
    and dis: "\<forall>s \<in> set (cx_socket c). discardable w c s" and qs: "rq_ctx q Mod_select = Some p"
    and dist: "distinct (map sk_lua_socket_ref (cx_socket c))"
      "cx_ref c \<notin> sk_lua_socket_ref ` set (cx_socket c)"
    and live: "sk_lua_socket_ref ` set (cx_socket c) \<subseteq> fst ` set (w_registry w)"
      "cx_ref c \<in> fst ` set (w_registry w)"
    using q by (auto simp: ctx_discardable_def)
  let ?w1 = "put_ctx p (timer_off c) w"
  let ?w2 = "discard_all r c (cx_socket c) ?w1"
  let ?L = "ngx_stream_lua_get_lua_vm E (Some r) (rq_ctx q Mod_stream_lua) w"
  have loop: "for_each [0..<cx_count c] (\<lambda>i _. discard_socket E (Some r) (Some p) ?L i) () ?w1
      = (Val (), ?w2)"
    using discard_loop_run[of ?w1 p "timer_off c" r q ?L] c dis q dist live by simp
  have "\<exists>q2. w_reqs ?w2 r = Some q2 \<and> rq_ctx q2 = rq_ctx q"
    using q by (simp add: discard_all_reqs)
  then obtain q2 where q2: "w_reqs ?w2 r = Some q2" "rq_ctx q2 = rq_ctx q" by blast
  have cref: "cx_ref c \<in> fst ` set (w_registry ?w2)"
    using live(2) dist(2) by (auto simp: discard_all_registry image_iff)
  have c2: "ctx_at ?w2 p = Some (timer_off c)" by simp
  show ?thesis
    using c q qs loop q2 cref c2
    by (simp add: ngx_stream_lua_select_ctx_cleanup_and_discard_def get_module_ctx set_ctx
        run_simps timer_stopped discarded_def unref Let_def)
qed

lemma cleanup_and_discard_assert:
  assumes c: "ctx_at w p = Some c" "cx_count c = length (cx_socket c)"
    and q: "w_reqs w r = Some q" "rq_ctx q Mod_select = Some p"
    and kinds: "\<forall>s \<in> set (cx_socket c). discardable w c s \<or>
      sk_type s = NGX_LUA_SELECT_TCP_UPSTREAM \<and> sk_prev_upstream_read_handler s = Fn_NULL \<or>
      sk_type s = NGX_LUA_SELECT_TCP_DOWNSTREAM \<and> cx_prev_request_read_handler c = Fn_NULL"
    and bad: "\<not> (\<forall>s \<in> set (cx_socket c). discardable w c s)"
    and refs: "sk_lua_socket_ref ` set (cx_socket c) \<subseteq> fst ` set (w_registry w)"
    and dist: "distinct (map sk_lua_socket_ref (cx_socket c))"
  shows "\<exists>w'. ngx_stream_lua_select_ctx_cleanup_and_discard E (Some r) w = (Fault Assert_failed, w')"
proof -
  let ?w1 = "put_ctx p (timer_off c) w"
  let ?L = "ngx_stream_lua_get_lua_vm E (Some r) (rq_ctx q Mod_stream_lua) w"
  have "\<exists>w'. for_each [0..<cx_count c] (\<lambda>i _. discard_socket E (Some r) (Some p) ?L i) () ?w1
      = (Fault Assert_failed, w')"
    by (rule discard_loop_assert[of _ _ "timer_off c"])
      (use c q(1) kinds bad refs dist in \<open>simp_all\<close>)
  then show ?thesis
    using c(1) q
    by (auto simp: ngx_stream_lua_select_ctx_cleanup_and_discard_def get_module_ctx run_simps
        timer_stopped)
qed

end

end
