(* ===== verification/Select_Call.thy ===== *)
theory Select_Call
  imports Select_Result Select_Ready Select_Cleanup
begin

text \<open>
  \<open>lua_select_module_select\<close> (\<open>src/ngx_stream_lua_select_module.c\<close>), the function Lua
  calls as \<open>ngx.select\<close>: the checks of the arguments, the count of the sockets, the scan of the
  socket table, the poll for bytes that already wait, the installation of the event handlers,
  the timer, and the yield.  The parts are definitions of their own, composed at the end in the
  order of the function.
\<close>

section \<open>The scan of the socket table\<close>

text \<open>The error exits of the loops: clean up, then raise \<open>luaL_argerror(L, 1, msg)\<close>.\<close>

definition select_fail :: "env \<Rightarrow> thread \<Rightarrow> ptr \<Rightarrow> nat \<Rightarrow> string \<Rightarrow> 'a cfun" where
  "select_fail E L ctx i msg =
     mseq (select_fail_cleanup E L ctx i) (mraise (Arg_error 1 msg))"

definition msg_not_table :: string where
  "msg_not_table = ''expected to have a table of sockets, but there's... something else there. something... wrong''"
definition msg_bad_mode :: string where
  "msg_bad_mode = ''invalid read-write string in socket table, must be one of 'r', 'w', or 'rw'' @ [CHR 0x27]"
definition msg_bad_entry :: string where
  "msg_bad_entry = ''invalid entry in socket table''"
definition msg_amiss :: string where
  "msg_amiss = ''expected to have a table of sockets, but there's something amiss in that table''"
definition msg_closed :: string where
  "msg_closed = ''expected to have a table of active sockets, but at least one of them is closed''"
definition msg_bad_request :: string where
  "msg_bad_request = ''expected to have a table of valid sockets, but at least one has a bad 'request'' @ [CHR 0x27]"
definition msg_connecting :: string where
  "msg_connecting = ''expected to have a table of active sockets, but at least one is busy connective''"
definition msg_read_busy :: string where
  "msg_read_busy = ''expected to have a table of active sockets, but at least one is busy waiting for read event''"
definition msg_write_busy :: string where
  "msg_write_busy = ''expected to have a table of active sockets, but at least one is busy waiting for write event''"
definition msg_udp :: string where
  "msg_udp = ''UDP sockets not yet supported''"

text \<open>\<open>strchr\<close> on a C string, which ends at its first NUL.\<close>

definition c_strchr :: "string \<Rightarrow> char \<Rightarrow> bool" where
  "c_strchr s ch \<longleftrightarrow> ch \<in> set (takeWhile (\<lambda>x. x \<noteq> CHR 0x00) s)"

definition rw_of_string :: "string \<Rightarrow> 32 word" where
  "rw_of_string s =
     (let readwrite = 0;
          readwrite = (if c_strchr s CHR ''r'' then readwrite OR NGX_LUA_SELECT_READ else readwrite);
          readwrite = (if c_strchr s CHR ''w'' then readwrite OR NGX_LUA_SELECT_WRITE else readwrite)
      in readwrite)"

text \<open>From the key and value on the stack to the mode and the upstream of the socket.\<close>

definition select_entry_socket :: "env \<Rightarrow> thread \<Rightarrow> ptr \<Rightarrow> nat \<Rightarrow> (32 word \<times> ptr) cfun" where
  "select_entry_socket E L ctx i =
     mbind (rd (lua_isnumber E L (-2))) (\<lambda>numeric_key.
     if numeric_key then
       mbind (rd (lua_istable E L (-1))) (\<lambda>istable.
       if \<not> istable then select_fail E L ctx i msg_not_table
       else
         mseq (act (lua_rawgeti E L (-1) SOCKET_CTX_INDEX)) (
         mbind (rd (lua_touserdata E L (-1))) (\<lambda>u.
         mseq (act (lua_pop E L 1)) (
         mret (NGX_LUA_SELECT_READ, u)))))
     else
       mbind (rd (lua_isstring E L (-1))) (\<lambda>isstring.
       mbind (rd (lua_istable E L (-2))) (\<lambda>istable.
       if isstring \<and> istable then
         mbind (ext (lua_tostring E L (-1))) (\<lambda>rw_string.
         case rw_string of
           None \<Rightarrow> mfault Null_deref
         | Some rw \<Rightarrow>
             let readwrite = rw_of_string rw in
             if readwrite = 0 then select_fail E L ctx i msg_bad_mode
             else
               mseq (act (lua_rawgeti E L (-2) SOCKET_CTX_INDEX)) (
               mbind (rd (lua_touserdata E L (-1))) (\<lambda>u.
               mseq (act (lua_pop E L 2)) (
               mseq (act (lua_pushvalue E L (-1))) (
               mret (readwrite, u))))))
       else select_fail E L ctx i msg_bad_entry)))"

text \<open>The checks of the upstream; the \<open>buffered\<close> field is only read where C reads it.\<close>

definition select_write_busy :: "ptr \<Rightarrow> tcp_upstream \<Rightarrow> bool cfun" where
  "select_write_busy r u =
     (if up_write_waiting u then mret True
      else if up_raw_downstream u then
        mbind (load w_reqs r) (\<lambda>q.
        mbind (load w_conns (rq_connection q)) (\<lambda>conn.
        mret (cn_buffered conn \<noteq> 0)))
      else mret False)"

definition select_check_upstream ::
  "env \<Rightarrow> thread \<Rightarrow> ptr \<Rightarrow> ptr \<Rightarrow> nat \<Rightarrow> 32 word \<Rightarrow> ptr \<Rightarrow> unit cfun" where
  "select_check_upstream E L ctx r i readwrite u =
     (if u = None then select_fail E L ctx i msg_amiss
      else
        mbind (load w_ups u) (\<lambda>up.
        if up_peer_connection up = None \<or> up_read_closed up then select_fail E L ctx i msg_closed
        else if up_request up \<noteq> r then select_fail E L ctx i msg_bad_request
        else if up_conn_waiting up then select_fail E L ctx i msg_connecting
        else if rw_has readwrite NGX_LUA_SELECT_READ \<and> up_read_waiting up then
          select_fail E L ctx i msg_read_busy
        else
          mbind (if rw_has readwrite NGX_LUA_SELECT_WRITE then select_write_busy r up else mret False)
            (\<lambda>busy. if busy then select_fail E L ctx i msg_write_busy else mret ())))"

text \<open>The socket is entered into the context; \<open>luaL_ref\<close> pops it from the stack.\<close>

definition select_record_socket ::
  "env \<Rightarrow> thread \<Rightarrow> ptr \<Rightarrow> ptr \<Rightarrow> nat \<Rightarrow> 32 word \<Rightarrow> ptr \<Rightarrow> unit cfun" where
  "select_record_socket E L ctx r i readwrite u =
     mseq (upd_socket ctx i (\<lambda>s. s\<lparr>sk_readwrite := ucast readwrite\<rparr>)) (
     mseq (upd_socket ctx i (\<lambda>s. s\<lparr>sk_up := u\<rparr>)) (
     mbind (ext (luaL_ref E L)) (\<lambda>ref.
     mseq (upd_socket ctx i (\<lambda>s. s\<lparr>sk_lua_socket_ref := ref\<rparr>)) (
     mbind (load w_ups u) (\<lambda>up.
     let c = up_peer_connection up in
     mseq (upd_socket ctx i (\<lambda>s. s\<lparr>sk_connection := c\<rparr>)) (
     mbind (load w_reqs r) (\<lambda>q.
     upd_socket ctx i (\<lambda>s. s\<lparr>sk_type := ngx_lua_select_get_socket_type c (rq_connection q)\<rparr>))))))))"

definition select_read_entry :: "env \<Rightarrow> thread \<Rightarrow> ptr \<Rightarrow> ptr \<Rightarrow> nat \<Rightarrow> unit cfun" where
  "select_read_entry E L ctx r i =
     mbind (select_entry_socket E L ctx i) (\<lambda>(readwrite, u).
     mseq (select_check_upstream E L ctx r i readwrite u)
       (select_record_socket E L ctx r i readwrite u))"

text \<open>The two loops over \<open>lua_next(L, 1)\<close>, with fuel; the second returns its final \<open>i\<close>.\<close>

fun select_count :: "env \<Rightarrow> nat \<Rightarrow> thread \<Rightarrow> nat \<Rightarrow> nat cfun" where
  "select_count E 0 L socketcount = mfault Out_of_fuel"
| "select_count E (Suc fuel) L socketcount =
     mbind (ext (lua_next E L 1)) (\<lambda>more.
     if more then
       let socketcount = socketcount + 1 in
       mseq (act (lua_pop E L 1)) (select_count E fuel L socketcount)
     else mret socketcount)"

fun select_scan :: "env \<Rightarrow> nat \<Rightarrow> thread \<Rightarrow> ptr \<Rightarrow> ptr \<Rightarrow> nat \<Rightarrow> nat cfun" where
  "select_scan E 0 L ctx r i = mfault Out_of_fuel"
| "select_scan E (Suc fuel) L ctx r i =
     mbind (ext (lua_next E L 1)) (\<lambda>more.
     if more then
       mseq (select_read_entry E L ctx r i) (select_scan E fuel L ctx r (i + 1))
     else mret i)"

section \<open>The installation of the handlers\<close>

definition select_install_socket :: "env \<Rightarrow> thread \<Rightarrow> ptr \<Rightarrow> ptr \<Rightarrow> nat \<Rightarrow> unit cfun" where
  "select_install_socket E L ctx r i =
     mbind (socket_at ctx i) (\<lambda>s.
     let rw = sk_rw s in
     mseq (case sk_type s of
             NGX_LUA_SELECT_TCP_DOWNSTREAM \<Rightarrow>
               mseq (mwhen (rw_has rw NGX_LUA_SELECT_READ)
                      (mbind (load w_reqs r) (\<lambda>q.
                       mseq (store ctx_at put_ctx ctx
                              (\<lambda>c. c\<lparr>cx_prev_request_read_handler := rq_read_event_handler q\<rparr>)) (
                       mseq (store w_reqs put_req r
                              (\<lambda>q. q\<lparr>rq_read_event_handler := Fn_read_request_handler\<rparr>))
                         (upd_socket ctx i
                              (\<lambda>s. s\<lparr>sk_prev_upstream_read_handler := Fn_NULL\<rparr>)))))) (
               mwhen (rw_has rw NGX_LUA_SELECT_WRITE)
                 (mbind (load w_reqs r) (\<lambda>q.
                  mseq (store ctx_at put_ctx ctx
                         (\<lambda>c. c\<lparr>cx_prev_request_write_handler := rq_write_event_handler q\<rparr>)) (
                  mseq (store w_reqs put_req r
                         (\<lambda>q. q\<lparr>rq_write_event_handler := Fn_write_request_handler\<rparr>))
                    (upd_socket ctx i
                         (\<lambda>s. s\<lparr>sk_prev_upstream_write_handler := Fn_NULL\<rparr>))))))
           | NGX_LUA_SELECT_TCP_UPSTREAM \<Rightarrow>
               mseq (if rw_has rw NGX_LUA_SELECT_READ then
                       mbind (load w_ups (sk_up s)) (\<lambda>u.
                       mseq (upd_socket ctx i
                              (\<lambda>s. s\<lparr>sk_prev_upstream_read_handler := up_read_event_handler u\<rparr>))
                         (store w_ups put_up (sk_up s)
                              (\<lambda>u. u\<lparr>up_read_event_handler := Fn_read_upstream_handler\<rparr>)))
                     else upd_socket ctx i
                            (\<lambda>s. s\<lparr>sk_prev_upstream_read_handler := Fn_NULL\<rparr>)) (
               if rw_has rw NGX_LUA_SELECT_WRITE then
                 mbind (load w_ups (sk_up s)) (\<lambda>u.
                 mseq (upd_socket ctx i
                        (\<lambda>s. s\<lparr>sk_prev_upstream_write_handler := up_write_event_handler u\<rparr>))
                   (store w_ups put_up (sk_up s)
                        (\<lambda>u. u\<lparr>up_write_event_handler := Fn_write_upstream_handler\<rparr>)))
               else upd_socket ctx i
                      (\<lambda>s. s\<lparr>sk_prev_upstream_write_handler := Fn_NULL\<rparr>))
           | NGX_LUA_SELECT_UDP_UPSTREAM \<Rightarrow> select_fail E L ctx i msg_udp
           | NGX_LUA_SELECT_UDP_DOWNSTREAM \<Rightarrow> select_fail E L ctx i msg_udp
           | Not_a_socktype _ \<Rightarrow> mret ()) (
     mseq (upd_socket ctx i (\<lambda>s. s\<lparr>sk_read_ready := False\<rparr>))
       (upd_socket ctx i (\<lambda>s. s\<lparr>sk_write_ready := False\<rparr>))))"

section \<open>The function\<close>

definition select_check_args :: "env \<Rightarrow> thread \<Rightarrow> lua_number cfun" where
  "select_check_args E L =
     mbind (rd (lua_gettop E L)) (\<lambda>n.
     if n = 0 then mraise (Lua_error ''expected more than 0 arguments'')
     else if 2 < n then mraise (Lua_error ''expected no more than 3 arguments'')
     else
       mbind (rd (lua_istable E L 1)) (\<lambda>istable.
       if \<not> istable then mraise (Arg_error 1 ''expected a table of sockets'')
       else
         mbind (rd (lua_isnumber E L 2)) (\<lambda>isnumber.
         mbind (rd (lua_isnil E L 2)) (\<lambda>isnil.
         if n = 2 \<and> \<not> isnumber \<and> \<not> isnil then
           mraise (Arg_error 2 ''expected a timeout value or nil'')
         else if 2 \<le> n \<and> isnumber then
           mbind (rd (lua_tonumber E L (int n))) (\<lambda>timeout.
           if lua_number_neg timeout then mraise (Arg_error 2 ''timeout cannot be <0'')
           else mret timeout)
         else mret (LFin 0)))))"

definition select_find_request :: "env \<Rightarrow> thread \<Rightarrow> (ptr \<times> ptr) cfun" where
  "select_find_request E L =
     mbind (rd (ngx_stream_lua_get_req E L)) (\<lambda>r.
     if r = None then mraise (Lua_error ''no request found'')
     else
       mbind (ngx_stream_lua_get_module_ctx E r Mod_stream_lua) (\<lambda>streamctx.
       if streamctx = None then mraise (Lua_error ''no request ctx found'')
       else
         mbind (load w_sctxs streamctx) (\<lambda>sc.
         if sc_cur_co_ctx sc = None then mraise (Lua_error ''no co ctx found'')
         else mret (r, sc_cur_co_ctx sc))))"

definition select_alloc_ctx :: "env \<Rightarrow> thread \<Rightarrow> nat \<Rightarrow> ptr cfun" where
  "select_alloc_ctx E L socketcount =
     mbind (ext (lua_newuserdata E L socketcount)) (\<lambda>ctx.
     if ctx = None then mraise (Lua_error ''unable to allocate ctx'')
     else
       mseq (store ctx_at put_ctx ctx (\<lambda>c. c\<lparr>cx_count := socketcount\<rparr>)) (
       mbind (ext (luaL_ref E L)) (\<lambda>ref.
       mseq (store ctx_at put_ctx ctx (\<lambda>c. c\<lparr>cx_ref := ref\<rparr>)) (
       mseq (store ctx_at put_ctx ctx (\<lambda>c. c\<lparr>cx_timer := zero_event\<rparr>)) (
       mseq (store ctx_at put_ctx ctx (\<lambda>c. c\<lparr>cx_prev_request_write_handler := Fn_NULL\<rparr>)) (
       mseq (store ctx_at put_ctx ctx (\<lambda>c. c\<lparr>cx_prev_request_read_handler := Fn_NULL\<rparr>))
         (mret ctx)))))))"

text \<open>The timer, the completion event, the module context and the coroutine's cleanup.\<close>

definition select_start_timer :: "env \<Rightarrow> ptr \<Rightarrow> ptr \<Rightarrow> lua_number \<Rightarrow> unit cfun" where
  "select_start_timer E ctx r timeout =
     mbind (load w_reqs r) (\<lambda>q.
     mbind (load w_conns (rq_connection q)) (\<lambda>conn.
     mseq (store ctx_at put_ctx ctx (\<lambda>c. c\<lparr>cx_timer := (cx_timer c)
            \<lparr>ev_cancelable := True, ev_handler := Fn_timeout_handler, ev_data := r,
             ev_log := cn_log conn\<rparr>\<rparr>))
       (case lua_number_to_msec timeout of
          None \<Rightarrow> mfault Undefined_conversion
        | Some ms \<Rightarrow> act (ngx_add_timer E (Timer_of (the ctx)) ms))))"

definition select_arm :: "env \<Rightarrow> ptr \<Rightarrow> ptr \<Rightarrow> ptr \<Rightarrow> lua_number \<Rightarrow> unit cfun" where
  "select_arm E ctx r coctx timeout =
     mseq (mwhen (lua_number_pos timeout) (select_start_timer E ctx r timeout)) (
     mseq (store ctx_at put_ctx ctx (\<lambda>c. c\<lparr>cx_post_completion_ev := (cx_post_completion_ev c)
            \<lparr>ev_posted := False, ev_data := r, ev_handler := Fn_post_completion_handler\<rparr>\<rparr>)) (
     mseq (store ctx_at put_ctx ctx (\<lambda>c. c\<lparr>cx_r := r\<rparr>)) (
     mseq (store ctx_at put_ctx ctx (\<lambda>c. c\<lparr>cx_coctx := coctx\<rparr>)) (
     mseq (ngx_stream_lua_set_ctx E r ctx Mod_select) (
     mseq (ngx_stream_lua_cleanup_pending_operation E coctx) (
     store w_coctxs put_coctx coctx (\<lambda>x. x\<lparr>co_cleanup := Fn_cleanup, co_data := r\<rparr>)))))))"

definition msg_already_waiting :: string where
  "msg_already_waiting =
     ''Detected bytes already waiting to be read on socket when using the select module''"

text \<open>The early return when the poll found bytes.\<close>

definition select_return_ready :: "env \<Rightarrow> thread \<Rightarrow> ptr \<Rightarrow> ptr \<Rightarrow> int cfun" where
  "select_return_ready E L ctx r =
     mbind (load w_reqs r) (\<lambda>q.
     mbind (load w_conns (rq_connection q)) (\<lambda>conn.
     mseq (act (ngx_log_error E msg_already_waiting)) (
     mbind (ngx_lua_select_push_result E L ctx) (\<lambda>retcount.
     mseq (ngx_stream_lua_select_ctx_cleanup_and_discard E r) (mret retcount)))))"

text \<open>
  What follows the scan, \<open>i\<close> being the number of sockets entered: the poll and its error, the
  early return, or the installation and the yield.
\<close>

definition select_after_scan ::
  "env \<Rightarrow> thread \<Rightarrow> ptr \<Rightarrow> ptr \<Rightarrow> ptr \<Rightarrow> lua_number \<Rightarrow> nat \<Rightarrow> nat \<Rightarrow> int cfun" where
  "select_after_scan E L ctx r coctx timeout socketcount i =
     mbind (ngx_lua_select_sockets_ready E ctx) (\<lambda>(err, sockets_already_ready).
     case err of
       Some msg \<Rightarrow> mseq (select_fail_cleanup E L ctx i) (mraise (Lua_error msg))
     | None \<Rightarrow>
         if sockets_already_ready \<noteq> 0 then select_return_ready E L ctx r
         else
           mseq (for_each [0..<socketcount] (\<lambda>i _. select_install_socket E L ctx r i) ()) (
           mseq (select_arm E ctx r coctx timeout) (
           myield 0)))"

text \<open>\<open>Val n\<close>: the function returns \<open>n\<close> values; \<open>Yield 0\<close>: it has yielded.\<close>

definition lua_select_module_select :: "env \<Rightarrow> nat \<Rightarrow> thread \<Rightarrow> int cfun" where
  "lua_select_module_select E fuel L =
     mbind (select_check_args E L) (\<lambda>timeout.
     mbind (select_find_request E L) (\<lambda>(r, coctx).
     mseq (act (lua_pushnil E L)) (
     mbind (select_count E fuel L 0) (\<lambda>socketcount.
     mbind (select_alloc_ctx E L socketcount) (\<lambda>ctx.
     mseq (act (lua_pushnil E L)) (
     mbind (select_scan E fuel L ctx r 0) (\<lambda>i.
     select_after_scan E L ctx r coctx timeout socketcount i)))))))"

section \<open>What an entry of the socket table means\<close>

text \<open>
  The classification of an entry as the README describes the argument: \<open>[n] = socket\<close> for
  reading, \<open>[socket] = mode\<close>.  It is a mode, a pointer and the socket's Lua table, or the
  message of the error.
\<close>

definition entry_socket :: "env \<Rightarrow> world \<Rightarrow> lval \<times> lval \<Rightarrow> string + (32 word \<times> ptr \<times> lval)" where
  "entry_socket E w e =
     (let socket_ptr = (\<lambda>a. lval_userdata (table_get (the_entries w a) (lua_int 1))) in
      if lval_number (lua_str2number E) (fst e) \<noteq> None then
        (case snd e of
           LTable a \<Rightarrow> Inr (NGX_LUA_SELECT_READ, socket_ptr a, LTable a)
         | _ \<Rightarrow> Inl msg_not_table)
      else
        (case (lval_string (lua_number2str E) (snd e), fst e) of
           (Some rw, LTable a) \<Rightarrow>
             (if rw_of_string rw = 0 then Inl msg_bad_mode
              else Inr (rw_of_string rw, socket_ptr a, LTable a))
         | _ \<Rightarrow> Inl msg_bad_entry))"

text \<open>Whether the request's connection has buffered output.\<close>

definition request_buffered :: "world \<Rightarrow> addr \<Rightarrow> bool" where
  "request_buffered w r =
     (case w_reqs w r of None \<Rightarrow> False
      | Some q \<Rightarrow> (case rq_connection q of None \<Rightarrow> False
         | Some a \<Rightarrow> (case w_conns w a of None \<Rightarrow> False | Some conn \<Rightarrow> cn_buffered conn \<noteq> 0)))"

definition upstream_error :: "world \<Rightarrow> addr \<Rightarrow> 32 word \<Rightarrow> tcp_upstream \<Rightarrow> string option" where
  "upstream_error w r rw up =
     (if up_peer_connection up = None \<or> up_read_closed up then Some msg_closed
      else if up_request up \<noteq> Some r then Some msg_bad_request
      else if up_conn_waiting up then Some msg_connecting
      else if rw_has rw NGX_LUA_SELECT_READ \<and> up_read_waiting up then Some msg_read_busy
      else if rw_has rw NGX_LUA_SELECT_WRITE \<and>
          (up_write_waiting up \<or> up_raw_downstream up \<and> request_buffered w r)
        then Some msg_write_busy
      else None)"

definition check_entry ::
  "env \<Rightarrow> world \<Rightarrow> addr \<Rightarrow> lval \<times> lval \<Rightarrow> string + (32 word \<times> addr \<times> lval)" where
  "check_entry E w r e =
     (case entry_socket E w e of
        Inl msg \<Rightarrow> Inl msg
      | Inr (rw, None, v) \<Rightarrow> Inl msg_amiss
      | Inr (rw, Some a, v) \<Rightarrow>
          (case w_ups w a of
             None \<Rightarrow> Inl msg_amiss
           | Some up \<Rightarrow>
               (case upstream_error w r rw up of Some msg \<Rightarrow> Inl msg | None \<Rightarrow> Inr (rw, a, v))))"

text \<open>The whole table: the first error in traversal order, or what every entry asks for.\<close>

fun check_entries ::
  "env \<Rightarrow> world \<Rightarrow> addr \<Rightarrow> lua_table \<Rightarrow> string + (32 word \<times> addr \<times> lval) list" where
  "check_entries E w r [] = Inr []"
| "check_entries E w r (e # es) =
     (case check_entry E w r e of
        Inl msg \<Rightarrow> Inl msg
      | Inr x \<Rightarrow> (case check_entries E w r es of Inl msg \<Rightarrow> Inl msg | Inr xs \<Rightarrow> Inr (x # xs)))"

text \<open>An accepted table, entry by entry.\<close>

lemma check_entryE:
  assumes "check_entry E w r e = Inr x"
  obtains rw a v u where "x = (rw, a, v)" and "entry_socket E w e = Inr (rw, Some a, v)"
    and "w_ups w a = Some u" and "upstream_error w r rw u = None"
  using assms by (auto simp: check_entry_def split: sum.splits option.splits)

lemma upstream_error_None:
  "upstream_error w r rw u = None \<Longrightarrow> up_request u = Some r \<and> (\<exists>b. up_peer_connection u = Some b)"
  by (auto simp: upstream_error_def split: if_splits)

lemma check_entries_ConsE:
  assumes "check_entries E w r (e # es) = Inr xs"
  obtains y ys where "check_entry E w r e = Inr y" and "check_entries E w r es = Inr ys" and "xs = y # ys"
  using assms by (auto split: sum.splits)

lemma check_entries_all:
  "check_entries E w r es = Inr xs \<Longrightarrow> list_all2 (\<lambda>e x. check_entry E w r e = Inr x) es xs"
proof (induction es arbitrary: xs)
  case (Cons e es)
  from Cons.prems show ?case by (rule check_entries_ConsE) (simp add: Cons.IH)
qed simp

lemma check_entries_length: "check_entries E w r es = Inr xs \<Longrightarrow> length xs = length es"
  by (simp add: check_entries_all[THEN list_all2_lengthD])

lemma check_entries_mem:
  assumes "check_entries E w r es = Inr xs" and "x \<in> set xs"
  obtains e where "e \<in> set es" and "check_entry E w r e = Inr x"
proof -
  obtain i where i: "i < length xs" "x = xs ! i" using assms(2) by (auto simp: in_set_conv_nth)
  note all = check_entries_all[OF assms(1)]
  with i have "es ! i \<in> set es" and "check_entry E w r (es ! i) = Inr x"
    by (auto simp: list_all2_lengthD[OF all] dest: list_all2_nthD2)
  with that show ?thesis by blast
qed

section \<open>One entry\<close>

text \<open>
  The pointers the scan follows are valid: the Lua tables exist, what a table has at index 1 is
  an OpenResty upstream if it is a userdata at all, and the request has a connection.
\<close>

definition entry_ok :: "world \<Rightarrow> lval \<times> lval \<Rightarrow> bool" where
  "entry_ok w e \<longleftrightarrow>
     (\<forall>a. fst e = LTable a \<or> snd e = LTable a \<longrightarrow>
        table_at w a \<noteq> None \<and>
        (\<forall>b. lval_userdata (table_get (the_entries w a) (lua_int 1)) = Some b \<longrightarrow> w_ups w b \<noteq> None))"

definition request_ok :: "world \<Rightarrow> addr \<Rightarrow> bool" where
  "request_ok w r \<longleftrightarrow>
     (\<exists>q a conn. w_reqs w r = Some q \<and> rq_connection q = Some a \<and> w_conns w a = Some conn)"

text \<open>The classification reads nothing that the scan itself writes.\<close>

lemma scan_frame [simp]:
  "the_entries (set_stack L st w) = the_entries w"
  "the_entries (put_ctx p c w) = the_entries w"
  "the_entries (w\<lparr>w_registry := reg\<rparr>) = the_entries w"
  "request_buffered (set_stack L st w) = request_buffered w"
  "request_buffered (put_ctx p c w) = request_buffered w"
  "request_buffered (w\<lparr>w_registry := reg\<rparr>) = request_buffered w"
  "request_ok (set_stack L st w) = request_ok w"
  "request_ok (put_ctx p c w) = request_ok w"
  "request_ok (w\<lparr>w_registry := reg\<rparr>) = request_ok w"
  by (simp_all add: fun_eq_iff the_entries_def request_buffered_def request_ok_def
      cong: option.case_cong)

lemma check_frame [simp]:
  "upstream_error (set_stack L st w) = upstream_error w"
  "upstream_error (put_ctx p c w) = upstream_error w"
  "upstream_error (w\<lparr>w_registry := reg\<rparr>) = upstream_error w"
  "entry_socket E (set_stack L st w) = entry_socket E w"
  "entry_socket E (put_ctx p c w) = entry_socket E w"
  "entry_socket E (w\<lparr>w_registry := reg\<rparr>) = entry_socket E w"
  "entry_ok (set_stack L st w) = entry_ok w"
  "entry_ok (put_ctx p c w) = entry_ok w"
  "entry_ok (w\<lparr>w_registry := reg\<rparr>) = entry_ok w"
  by (auto simp: fun_eq_iff upstream_error_def entry_socket_def entry_ok_def)

lemma check_entry_frame [simp]:
  "check_entry E (set_stack L st w) = check_entry E w"
  "check_entry E (put_ctx p c w) = check_entry E w"
  "check_entry E (w\<lparr>w_registry := reg\<rparr>) = check_entry E w"
  by (simp_all add: fun_eq_iff check_entry_def cong: sum.case_cong option.case_cong)

lemma check_entries_frame [simp]:
  "check_entries E (set_stack L st w) r es = check_entries E w r es"
  "check_entries E (put_ctx p c w) r es = check_entries E w r es"
  "check_entries E (w\<lparr>w_registry := reg\<rparr>) r es = check_entries E w r es"
  by (induction es) (simp_all cong: sum.case_cong)

lemma entry_ok_tables: "entry_ok w (k, v) \<Longrightarrow> \<forall>a. k = LTable a \<or> v = LTable a \<longrightarrow> table_at w a \<noteq> None"
  by (simp add: entry_ok_def)

lemma entry_socket_table:
  assumes "entry_socket E w (k, v) = Inr (rw, u, sock)"
  obtains a where "sock = LTable a" and "k = LTable a \<or> v = LTable a"
    and "u = lval_userdata (table_get (the_entries w a) (lua_int 1))"
  using assms
  by (auto simp: entry_socket_def Let_def split: if_splits lval.splits option.splits)

context lua_api begin

lemma select_entry_socket_ok:
  assumes stk: "w_stack w L = v # k # args"
    and ok: "\<forall>a. k = LTable a \<or> v = LTable a \<longrightarrow> table_at w a \<noteq> None"
    and e: "entry_socket E w (k, v) = Inr (rw, u, sock)"
  shows "select_entry_socket E L ctx i w = (Val (rw, u), set_stack L (sock # k # args) w)"
proof (cases "lval_number (lua_str2number E) k = None")
  case False
  with e obtain a where v: "v = LTable a" and r: "rw = NGX_LUA_SELECT_READ" "sock = v"
      "u = lval_userdata (table_get (the_entries w a) (lua_int 1))"
    by (auto simp: entry_socket_def split: lval.splits)
  obtain t where t: "table_at w a = Some t" using ok v by blast
  with False stk v r show ?thesis
    by (simp add: select_entry_socket_def run_simps isnumber istable rawgeti touserdata pop
        SOCKET_CTX_INDEX_def LUA_REGISTRYINDEX_def the_entries_def)
next
  case True
  with e obtain a str where k: "k = LTable a" and str: "lval_string (lua_number2str E) v = Some str"
    and r: "rw = rw_of_string str" "rw \<noteq> 0" "sock = k"
      "u = lval_userdata (table_get (the_entries w a) (lua_int 1))"
    by (auto simp: entry_socket_def split: lval.splits option.splits if_splits)
  obtain t where t: "table_at w a = Some t" using ok k by blast
  have "drop 2 (x # y # s) = s" for x y :: lval and s by simp
  with True stk k str r t show ?thesis
    by (simp add: select_entry_socket_def run_simps isnumber istable isstring tostring rawgeti
        touserdata pop pushvalue Let_def SOCKET_CTX_INDEX_def LUA_REGISTRYINDEX_def the_entries_def)
qed

lemma select_entry_socket_fail:
  assumes stk: "w_stack w L = v # k # args"
    and e: "entry_socket E w (k, v) = Inl msg"
  shows "\<exists>st. select_entry_socket E L ctx i w
    = (select_fail E L ctx i msg :: (32 word \<times> ptr) cfun) (set_stack L st w)"
proof (cases "lval_number (lua_str2number E) k = None")
  case False
  with e stk show ?thesis
    by (intro exI[of _ "v # k # args"])
      (simp add: select_entry_socket_def run_simps isnumber istable entry_socket_def
        split: lval.splits)
next
  case True
  show ?thesis
  proof (cases "lval_string (lua_number2str E) v")
    case None
    with True e stk show ?thesis
      by (auto intro!: exI[of _ "v # k # args"]
          simp: select_entry_socket_def run_simps isnumber istable isstring entry_socket_def)
  next
    case (Some str)
    show ?thesis
    proof (cases k)
      case (LTable a)
      with True Some e stk show ?thesis
        by (intro exI[of _ "LStr str # k # args"])
          (auto simp: select_entry_socket_def run_simps isnumber istable isstring tostring
            entry_socket_def Let_def split: if_splits)
    qed (use True Some e stk in
        \<open>auto intro!: exI[of _ "v # k # args"]
           simp: select_entry_socket_def run_simps isnumber istable isstring entry_socket_def\<close>)
  qed
qed

end

lemma select_write_busy_run:
  assumes "request_ok w r"
  shows "select_write_busy (Some r) up w
    = (Val (up_write_waiting up \<or> up_raw_downstream up \<and> request_buffered w r), w)"
  using assms by (auto simp: select_write_busy_def request_ok_def request_buffered_def run_simps)

lemma select_check_upstream_run:
  assumes "w_ups w a = Some up" and "request_ok w r"
  shows "select_check_upstream E L ctx (Some r) i rw (Some a) w =
    (case upstream_error w r rw up of
       None \<Rightarrow> (Val (), w)
     | Some msg \<Rightarrow> select_fail E L ctx i msg w)"
  using assms
  by (auto simp: select_check_upstream_def upstream_error_def run_simps select_write_busy_run)

text \<open>The slot of the context that the scan fills for an entry.\<close>

definition entry_slot ::
  "world \<Rightarrow> addr \<Rightarrow> 32 word \<times> addr \<times> lval \<Rightarrow> int \<Rightarrow> ngx_lua_select_socket \<Rightarrow> ngx_lua_select_socket" where
  "entry_slot w r x ref s =
     (let conn = up_peer_connection (the (w_ups w (fst (snd x)))) in
      s\<lparr>sk_readwrite := ucast (fst x), sk_up := Some (fst (snd x)), sk_lua_socket_ref := ref,
        sk_connection := conn,
        sk_type := ngx_lua_select_get_socket_type conn (rq_connection (the (w_reqs w r)))\<rparr>)"

context lua_api begin

lemma select_record_socket_run:
  assumes stk: "w_stack w L = LTable b # s" and c: "ctx_at w p = Some c" "i < length (cx_socket c)"
    and u: "w_ups w a = Some up" and q: "w_reqs w r = Some q"
  shows "\<exists>ref. 1 \<le> ref \<and> ref \<notin> fst ` set (w_registry w) \<and>
    select_record_socket E L (Some p) (Some r) i rw (Some a) w = (Val (),
      set_stack L s (put_ctx p (c\<lparr>cx_socket := (cx_socket c)
          [i := entry_slot w r (rw, a, LTable b) ref (cx_socket c ! i)]\<rparr>)
        (w\<lparr>w_registry := (ref, LTable b) # w_registry w\<rparr>)))"
proof -
  let ?c1 = "c\<lparr>cx_socket := (cx_socket c)[i := (cx_socket c ! i)
      \<lparr>sk_readwrite := ucast rw, sk_up := Some a\<rparr>]\<rparr>"
  let ?w1 = "put_ctx p ?c1 w"
  obtain ref where ref: "1 \<le> ref" "ref \<notin> fst ` set (w_registry w)"
    and run: "luaL_ref E L ?w1
      = (ref, set_stack L s (?w1\<lparr>w_registry := (ref, LTable b) # w_registry w\<rparr>))"
    using ref[of ?w1 L "LTable b" s] stk by auto
  show ?thesis
    by (rule exI[of _ ref])
      (use c u q ref run in \<open>simp add: select_record_socket_def run_simps entry_slot_def Let_def\<close>)
qed

end

section \<open>The loops over the table\<close>

context lua_api begin

text \<open>One call of \<open>lua_next\<close>, in a traversal of the table at the index 1.\<close>

lemma next_run:
  assumes stk: "w_stack w L = key_after pre # args" and "args \<noteq> []" and arg: "lua_at args 1 = LTable T"
    and t: "table_at w T = Some (pre @ post)" "wf_table (pre @ post)"
  shows "lua_next E L 1 w =
    (case post of
       [] \<Rightarrow> (False, set_stack L args w)
     | (k, v) # _ \<Rightarrow> (True, set_stack L (v # k # args) w))"
proof -
  have at: "lua_at (key_after pre # args) 1 = LTable T" using assms by (cases args) simp_all
  show ?thesis
  proof (cases post)
    case Nil
    then show ?thesis
      using next_done[OF stk at t] next_entry_after[OF t(2)] key_after_known[of pre "[]"] by simp
  next
    case (Cons e post')
    then show ?thesis
      using next_more[OF stk at t] next_entry_after[OF t(2)] by (cases e) simp
  qed
qed

lemma select_count_run:
  assumes "w_stack w L = key_after pre # args" and "args \<noteq> []" and "lua_at args 1 = LTable T"
    and "table_at w T = Some (pre @ post)" and "wf_table (pre @ post)" and "length post < fuel"
  shows "select_count E fuel L n w = (Val (n + length post), set_stack L args w)"
  using assms
proof (induction post arbitrary: pre w n fuel)
  case Nil
  then obtain fuel' where "fuel = Suc fuel'" by (cases fuel) auto
  with Nil next_run[OF Nil.prems(1-5)] show ?case by (simp add: run_simps)
next
  case (Cons e post)
  obtain k v where e: "e = (k, v)" by force
  obtain fuel' where f: "fuel = Suc fuel'" using Cons.prems(6) by (cases fuel) auto
  have "select_count E fuel' L (n + 1) (set_stack L (k # args) w)
    = (Val (n + 1 + length post), set_stack L args (set_stack L (k # args) w))"
    using Cons.prems e f by (intro Cons.IH[of _ "pre @ [e]"]) simp_all
  with Cons.prems next_run[OF Cons.prems(1-5)] e f show ?case by (simp add: run_simps pop Let_def)
qed

lemma select_read_entry_ok:
  assumes stk: "w_stack w L = v # k # args" and ok: "entry_ok w (k, v)" and r: "request_ok w r"
    and c: "ctx_at w p = Some c" "i < length (cx_socket c)"
    and e: "check_entry E w r (k, v) = Inr x"
  shows "\<exists>ref. 1 \<le> ref \<and> ref \<notin> fst ` set (w_registry w) \<and>
    select_read_entry E L (Some p) (Some r) i w = (Val (),
      set_stack L (k # args) (put_ctx p (c\<lparr>cx_socket := (cx_socket c)
          [i := entry_slot w r x ref (cx_socket c ! i)]\<rparr>)
        (w\<lparr>w_registry := (ref, snd (snd x)) # w_registry w\<rparr>)))"
proof -
  from e obtain rw a sock up where x: "x = (rw, a, sock)"
    and es: "entry_socket E w (k, v) = Inr (rw, Some a, sock)"
    and up: "w_ups w a = Some up" "upstream_error w r rw up = None"
    by (rule check_entryE)
  obtain b where b: "sock = LTable b" by (rule entry_socket_table[OF es])
  obtain q where q: "w_reqs w r = Some q" using r by (auto simp: request_ok_def)
  let ?w1 = "set_stack L (sock # k # args) w"
  obtain ref where "1 \<le> ref" "ref \<notin> fst ` set (w_registry w)" and
    "select_record_socket E L (Some p) (Some r) i rw (Some a) ?w1 = (Val (),
      set_stack L (k # args) (put_ctx p (c\<lparr>cx_socket := (cx_socket c)
          [i := entry_slot ?w1 r (rw, a, LTable b) ref (cx_socket c ! i)]\<rparr>)
        (?w1\<lparr>w_registry := (ref, LTable b) # w_registry w\<rparr>)))"
    using select_record_socket_run[of ?w1 L b "k # args" p c i a up r q rw] b c up q by auto
  moreover have "entry_slot ?w1 = entry_slot w" by (simp add: entry_slot_def fun_eq_iff)
  ultimately show ?thesis
    using select_entry_socket_ok[OF stk entry_ok_tables[OF ok] es] up r b x
    by (intro exI[of _ ref])
      (simp add: select_read_entry_def run_simps select_check_upstream_run)
qed

end

text \<open>The slots and the registry after a scan that met no error.\<close>

definition scan_slots ::
  "world \<Rightarrow> addr \<Rightarrow> (32 word \<times> addr \<times> lval) list \<Rightarrow> int list \<Rightarrow> ngx_lua_select_socket list \<Rightarrow>
    ngx_lua_select_socket list" where
  "scan_slots w r xs refs ss = map2 (\<lambda>(x, ref) s. entry_slot w r x ref s) (zip xs refs) ss"

definition scan_refs ::
  "(32 word \<times> addr \<times> lval) list \<Rightarrow> int list \<Rightarrow> (int \<times> lval) list \<Rightarrow> (int \<times> lval) list" where
  "scan_refs xs refs reg = rev (zip refs (map (snd \<circ> snd) xs)) @ reg"

definition fresh_refs :: "int list \<Rightarrow> (int \<times> lval) list \<Rightarrow> bool" where
  "fresh_refs refs reg \<longleftrightarrow>
     distinct refs \<and> (\<forall>n \<in> set refs. 1 \<le> n) \<and> set refs \<inter> fst ` set reg = {}"

lemma entry_slot_frame [simp]:
  "entry_slot (set_stack L st w) = entry_slot w" "entry_slot (put_ctx p c w) = entry_slot w"
  "entry_slot (w\<lparr>w_registry := reg\<rparr>) = entry_slot w"
  by (simp_all add: entry_slot_def fun_eq_iff)

lemma scan_slots_frame [simp]:
  "scan_slots (set_stack L st w) = scan_slots w" "scan_slots (put_ctx p c w) = scan_slots w"
  "scan_slots (w\<lparr>w_registry := reg\<rparr>) = scan_slots w"
  by (simp_all add: scan_slots_def fun_eq_iff)

lemma scan_slots_Cons [simp]:
  "scan_slots w r (x # xs) (n # refs) (s # ss) = entry_slot w r x n s # scan_slots w r xs refs ss"
  by (simp add: scan_slots_def)

lemma length_scan_slots [simp]:
  "length refs = length xs \<Longrightarrow> length (scan_slots w r xs refs ss) = min (length xs) (length ss)"
  by (simp add: scan_slots_def)

context lua_api begin

text \<open>
  The scan of the first entries of a table, all of them good: it fills a slot and takes a
  reference for each, and goes on with the rest.
\<close>

lemma select_scan_Suc:
  assumes "w_stack w L = key_after pre # args" and "args \<noteq> []" and "lua_at args 1 = LTable T"
    and "table_at w T = Some (pre @ e # rest)" and "wf_table (pre @ e # rest)"
  shows "select_scan E (Suc fuel) L ctx r i w =
    mseq (select_read_entry E L ctx r i) (select_scan E fuel L ctx r (i + 1))
      (set_stack L (snd e # fst e # args) w)"
  using next_run[OF assms] by (simp add: run_simps split: prod.split)

lemma select_scan_prefix:
  assumes "w_stack w L = key_after pre # args" and "args \<noteq> []" and "lua_at args 1 = LTable T"
    and "table_at w T = Some (pre @ good @ rest)" and "wf_table (pre @ good @ rest)"
    and "length good < fuel" and "\<forall>e \<in> set good. entry_ok w e" and "request_ok w r"
    and "ctx_at w p = Some c" and "i + length good \<le> length (cx_socket c)"
    and "check_entries E w r good = Inr xs"
  shows "\<exists>refs. length refs = length xs \<and> fresh_refs refs (w_registry w) \<and>
    select_scan E fuel L (Some p) (Some r) i w =
      select_scan E (fuel - length good) L (Some p) (Some r) (i + length good)
        (set_stack L (key_after (pre @ good) # args)
          (put_ctx p (c\<lparr>cx_socket := take i (cx_socket c)
              @ scan_slots w r xs refs (drop i (cx_socket c)) @ drop (i + length good) (cx_socket c)\<rparr>)
            (w\<lparr>w_registry := scan_refs xs refs (w_registry w)\<rparr>)))"
  using assms
proof (induction good arbitrary: pre w i c xs fuel)
  case Nil
  then show ?case by (simp add: fresh_refs_def scan_refs_def scan_slots_def ctxs.put_same)
next
  case (Cons e good)
  obtain k v where e: "e = (k, v)" by force
  obtain fuel' where f: "fuel = Suc fuel'" using Cons.prems(6) by (cases fuel) auto
  from Cons.prems(11) obtain x xs' where x: "check_entry E w r (k, v) = Inr x"
      "check_entries E w r good = Inr xs'" "xs = x # xs'"
    unfolding e by (rule check_entries_ConsE)
  let ?ss = "cx_socket c"
  let ?w1 = "set_stack L (v # k # args) w"
  have i: "i < length ?ss" using Cons.prems(10) by simp
  obtain ref where ref: "1 \<le> ref" "ref \<notin> fst ` set (w_registry w)"
    and entry: "select_read_entry E L (Some p) (Some r) i ?w1 = (Val (),
      set_stack L (k # args) (put_ctx p (c\<lparr>cx_socket := ?ss[i := entry_slot w r x ref (?ss ! i)]\<rparr>)
        (w\<lparr>w_registry := (ref, snd (snd x)) # w_registry w\<rparr>)))"
    using select_read_entry_ok[of ?w1 L v k args r p c i x] Cons.prems e x i by auto
  let ?c2 = "c\<lparr>cx_socket := ?ss[i := entry_slot w r x ref (?ss ! i)]\<rparr>"
  let ?w2 = "set_stack L (k # args) (put_ctx p ?c2
      (w\<lparr>w_registry := (ref, snd (snd x)) # w_registry w\<rparr>))"
  have "\<exists>refs. length refs = length xs' \<and> fresh_refs refs (w_registry ?w2) \<and>
    select_scan E fuel' L (Some p) (Some r) (i + 1) ?w2 =
      select_scan E (fuel' - length good) L (Some p) (Some r) (i + 1 + length good)
      (set_stack L (key_after ((pre @ [e]) @ good) # args)
        (put_ctx p (?c2\<lparr>cx_socket := take (i + 1) (cx_socket ?c2)
            @ scan_slots ?w2 r xs' refs (drop (i + 1) (cx_socket ?c2))
            @ drop (i + 1 + length good) (cx_socket ?c2)\<rparr>)
          (?w2\<lparr>w_registry := scan_refs xs' refs (w_registry ?w2)\<rparr>)))"
    by (rule Cons.IH[of _ "pre @ [e]"]) (use Cons.prems e f x in simp_all)
  then obtain refs where refs: "length refs = length xs'"
      "fresh_refs refs ((ref, snd (snd x)) # w_registry w)"
    and scan: "select_scan E fuel' L (Some p) (Some r) (i + 1) ?w2 =
      select_scan E (fuel' - length good) L (Some p) (Some r) (Suc (i + length good))
      (set_stack L (key_after (pre @ e # good) # args)
        (put_ctx p (c\<lparr>cx_socket := take i ?ss @ entry_slot w r x ref (?ss ! i)
                        # scan_slots w r xs' refs (drop (Suc i) ?ss)
                        @ drop (Suc (i + length good)) ?ss\<rparr>)
          (w\<lparr>w_registry := scan_refs xs' refs ((ref, snd (snd x)) # w_registry w)\<rparr>)))"
    using i by (auto simp: take_Suc_conv_app_nth)
  have run: "select_scan E fuel L (Some p) (Some r) i w
      = select_scan E fuel' L (Some p) (Some r) (i + 1) ?w2"
    using select_scan_Suc[OF Cons.prems(1-4)[simplified] Cons.prems(5)[simplified], of fuel'] f entry
    by (simp add: e run_simps)
  have dr: "drop i ?ss = ?ss ! i # drop (Suc i) ?ss" using i by (simp add: Cons_nth_drop_Suc)
  have regs: "scan_refs xs (ref # refs) (w_registry w)
      = scan_refs xs' refs ((ref, snd (snd x)) # w_registry w)"
    using x(3) by (simp add: scan_refs_def)
  have fresh: "fresh_refs (ref # refs) (w_registry w)"
    using refs(2) ref by (auto simp: fresh_refs_def)
  show ?case
    by (rule exI[of _ "ref # refs"])
      (use run scan fresh refs(1) x(3) dr regs f in simp)
qed

lemma select_scan_ok:
  assumes "w_stack w L = key_after pre # args" and "args \<noteq> []" and "lua_at args 1 = LTable T"
    and "table_at w T = Some (pre @ post)" and "wf_table (pre @ post)" and "length post < fuel"
    and "\<forall>e \<in> set post. entry_ok w e" and "request_ok w r"
    and "ctx_at w p = Some c" and "length (cx_socket c) = i + length post"
    and "check_entries E w r post = Inr xs"
  shows "\<exists>refs. length refs = length xs \<and> fresh_refs refs (w_registry w) \<and>
    select_scan E fuel L (Some p) (Some r) i w = (Val (i + length post),
      set_stack L args
        (put_ctx p (c\<lparr>cx_socket := take i (cx_socket c)
                        @ scan_slots w r xs refs (drop i (cx_socket c))\<rparr>)
          (w\<lparr>w_registry := scan_refs xs refs (w_registry w)\<rparr>)))"
proof -
  let ?w2 = "\<lambda>refs. set_stack L (key_after (pre @ post) # args)
      (put_ctx p (c\<lparr>cx_socket := take i (cx_socket c) @ scan_slots w r xs refs (drop i (cx_socket c))\<rparr>)
        (w\<lparr>w_registry := scan_refs xs refs (w_registry w)\<rparr>))"
  from select_scan_prefix[of w L pre args T post "[]" fuel r p c i xs] assms
  obtain refs where refs: "length refs = length xs" "fresh_refs refs (w_registry w)"
    and run: "select_scan E fuel L (Some p) (Some r) i w
      = select_scan E (fuel - length post) L (Some p) (Some r) (i + length post) (?w2 refs)"
    by auto
  obtain fuel' where f: "fuel - length post = Suc fuel'"
    using assms(6) by (metis Suc_diff_Suc)
  have "lua_next E L 1 (?w2 refs) = (False, set_stack L args (?w2 refs))"
    using next_run[of "?w2 refs" L "pre @ post" args T "[]"] assms(2-5) by simp
  with run refs f show ?thesis by (intro exI[of _ refs]) (simp add: run_simps)
qed

text \<open>The first entry that is not good.\<close>

lemma mbind_select_fail:
  assumes "m w = (select_fail E L ctx i msg :: 'a cfun) w'"
  shows "mbind m k w = (select_fail E L ctx i msg :: 'b cfun) w'"
  using assms
  by (simp add: mbind_def select_fail_def mseq_def mraise_def split: prod.split outcome.split)

lemma select_read_entry_fail:
  assumes stk: "w_stack w L = v # k # args" and ok: "entry_ok w (k, v)" and r: "request_ok w r"
    and e: "check_entry E w r (k, v) = Inl msg"
  shows "\<exists>st. select_read_entry E L ctx (Some r) i w
    = (select_fail E L ctx i msg :: unit cfun) (set_stack L st w)"
proof (cases "entry_socket E w (k, v)")
  case (Inl msg')
  with e have msg: "msg' = msg" by (simp add: check_entry_def)
  from select_entry_socket_fail[OF stk Inl] obtain st where
    "select_entry_socket E L ctx i w
      = (select_fail E L ctx i msg :: (32 word \<times> ptr) cfun) (set_stack L st w)"
    unfolding msg by blast
  then show ?thesis
    unfolding select_read_entry_def by (intro exI[of _ st]) (rule mbind_select_fail)
next
  case (Inr y)
  obtain rw u sock where y: "y = (rw, u, sock)" by (cases y) auto
  with Inr have es: "entry_socket E w (k, v) = Inr (rw, u, sock)" by simp
  let ?w1 = "set_stack L (sock # k # args) w"
  have run: "select_entry_socket E L ctx i w = (Val (rw, u), ?w1)"
    by (rule select_entry_socket_ok[OF stk entry_ok_tables[OF ok] es])
  have chk: "select_check_upstream E L ctx (Some r) i rw u ?w1 = select_fail E L ctx i msg ?w1"
  proof (cases u)
    case None
    with e es show ?thesis by (simp add: check_entry_def select_check_upstream_def)
  next
    case (Some a)
    obtain b where b: "k = LTable b \<or> v = LTable b"
        "u = lval_userdata (table_get (the_entries w b) (lua_int 1))"
      by (rule entry_socket_table[OF es])
    then have "w_ups w a \<noteq> None" using ok Some by (auto simp: entry_ok_def)
    then obtain up where up: "w_ups w a = Some up" by blast
    with e es Some have "upstream_error w r rw up = Some msg"
      by (auto simp: check_entry_def split: option.splits)
    with up Some r show ?thesis by (simp add: select_check_upstream_run)
  qed
  have "select_read_entry E L ctx (Some r) i w = mseq (select_check_upstream E L ctx (Some r) i rw u)
      (select_record_socket E L ctx (Some r) i rw u) ?w1"
    using run by (simp add: select_read_entry_def run_simps)
  also have "\<dots> = (select_fail E L ctx i msg :: unit cfun) ?w1"
    unfolding mseq_def using chk by (rule mbind_select_fail)
  finally show ?thesis by blast
qed

end

section \<open>The fuel\<close>

text \<open>More fuel changes nothing where there was enough.\<close>

lemma select_count_fuel: "fuel \<le> fuel' \<Longrightarrow> fuel_le (select_count E fuel L n) (select_count E fuel' L n)"
proof (induction fuel arbitrary: fuel' n)
  case 0
  show ?case by (simp add: fuel_intros)
next
  case (Suc fuel)
  then obtain f where "fuel' = Suc f" "fuel \<le> f" by (cases fuel') auto
  with Suc.IH show ?case by (auto simp: Let_def intro!: fuel_intros)
qed

lemma select_scan_fuel: "fuel \<le> fuel' \<Longrightarrow> fuel_le (select_scan E fuel L c r i) (select_scan E fuel' L c r i)"
proof (induction fuel arbitrary: fuel' i)
  case 0
  show ?case by (simp add: fuel_intros)
next
  case (Suc fuel)
  then obtain f where "fuel' = Suc f" "fuel \<le> f" by (cases fuel') auto
  with Suc.IH show ?case by (auto intro!: fuel_intros)
qed

lemma select_fuel:
  "fuel \<le> fuel' \<Longrightarrow>
    fuel_le (lua_select_module_select E fuel L) (lua_select_module_select E fuel' L)"
  unfolding lua_select_module_select_def
  by (intro fuel_intros select_count_fuel select_scan_fuel)
    (auto intro!: fuel_intros select_count_fuel select_scan_fuel split: prod.split)

end
