(* ===== verification/Select_Install.thy ===== *)
theory Select_Install
  imports Select_Call
begin

unbundle bit_operations_syntax

text \<open>
  What the installation loop of \<open>lua_select_module_select\<close> does, in closed form: which handlers
  it saves in which slot and which it hooks, for any list of sockets, a socket that occurs twice
  included.
\<close>

section \<open>The closed form\<close>

definition wants_read :: "ngx_lua_select_socket \<Rightarrow> bool" where
  "wants_read s \<longleftrightarrow> rw_has (sk_rw s) NGX_LUA_SELECT_READ"
definition wants_write :: "ngx_lua_select_socket \<Rightarrow> bool" where
  "wants_write s \<longleftrightarrow> rw_has (sk_rw s) NGX_LUA_SELECT_WRITE"

text \<open>
  A handler field after the sockets \<open>ss\<close> have been installed, of which those that satisfy
  \<open>P\<close> set the field to \<open>fn\<close>; and what the last of them saved of it.
\<close>

definition hooked ::
  "(ngx_lua_select_socket \<Rightarrow> bool) \<Rightarrow> ngx_lua_select_socket list \<Rightarrow> fnptr \<Rightarrow> fnptr \<Rightarrow> fnptr" where
  "hooked P ss fn h = (if \<exists>s \<in> set ss. P s then fn else h)"

definition saved ::
  "(ngx_lua_select_socket \<Rightarrow> bool) \<Rightarrow> ngx_lua_select_socket list \<Rightarrow> fnptr \<Rightarrow> fnptr \<Rightarrow> fnptr \<Rightarrow> fnptr"
where
  "saved P ss fn h old = (case filter P ss of [] \<Rightarrow> old | [s] \<Rightarrow> h | _ \<Rightarrow> fn)"

lemma hooked_Nil [simp]: "hooked P [] fn h = h"
  by (simp add: hooked_def)

lemma hooked_snoc: "hooked P (ss @ [s]) fn h = (if P s then fn else hooked P ss fn h)"
  by (auto simp: hooked_def)

lemma saved_Nil [simp]: "saved P [] fn h old = old"
  by (simp add: saved_def)

lemma saved_snoc:
  "saved P (ss @ [s]) fn h old = (if P s then hooked P ss fn h else saved P ss fn h old)"
proof (cases "filter P ss")
  case Nil
  then show ?thesis by (auto simp: saved_def hooked_def filter_empty_conv)
next
  case (Cons x xs)
  then have "x \<in> set ss" and "P x" by (auto dest: filter_eq_ConsD)
  with Cons show ?thesis by (auto simp: saved_def hooked_def split: list.split)
qed

text \<open>An upstream and a request whose handlers the sockets \<open>ss\<close> have hooked.\<close>

definition hook_up :: "ngx_lua_select_socket list \<Rightarrow> addr \<Rightarrow> tcp_upstream \<Rightarrow> tcp_upstream" where
  "hook_up ss a u =
     u\<lparr>up_read_event_handler :=
         hooked (\<lambda>s. is_up a s \<and> wants_read s) ss Fn_read_upstream_handler (up_read_event_handler u),
       up_write_event_handler :=
         hooked (\<lambda>s. is_up a s \<and> wants_write s) ss Fn_write_upstream_handler
           (up_write_event_handler u)\<rparr>"

definition hook_req :: "ngx_lua_select_socket list \<Rightarrow> lua_request \<Rightarrow> lua_request" where
  "hook_req ss q =
     q\<lparr>rq_read_event_handler :=
         hooked (\<lambda>s. is_down s \<and> wants_read s) ss Fn_read_request_handler (rq_read_event_handler q),
       rq_write_event_handler :=
         hooked (\<lambda>s. is_down s \<and> wants_write s) ss Fn_write_request_handler
           (rq_write_event_handler q)\<rparr>"

text \<open>The slot of a socket that comes after the sockets \<open>pre\<close>.\<close>

definition installed_slot ::
  "world \<Rightarrow> ngx_lua_select_socket list \<Rightarrow> ngx_lua_select_socket \<Rightarrow> ngx_lua_select_socket" where
  "installed_slot w pre s =
     (let s = (if is_down s then
                 s\<lparr>sk_prev_upstream_read_handler :=
                     (if wants_read s then Fn_NULL else sk_prev_upstream_read_handler s),
                   sk_prev_upstream_write_handler :=
                     (if wants_write s then Fn_NULL else sk_prev_upstream_write_handler s)\<rparr>
               else
                 (let a = the (sk_up s); u = hook_up pre a (the (w_ups w a)) in
                  s\<lparr>sk_prev_upstream_read_handler :=
                      (if wants_read s then up_read_event_handler u else Fn_NULL),
                    sk_prev_upstream_write_handler :=
                      (if wants_write s then up_write_event_handler u else Fn_NULL)\<rparr>))
      in s\<lparr>sk_read_ready := False, sk_write_ready := False\<rparr>)"

fun installed_slots ::
  "world \<Rightarrow> ngx_lua_select_socket list \<Rightarrow> ngx_lua_select_socket list \<Rightarrow> ngx_lua_select_socket list"
where
  "installed_slots w pre [] = []"
| "installed_slots w pre (s # ss) = installed_slot w pre s # installed_slots w (pre @ [s]) ss"

text \<open>
  The context saves the request's handlers: a second downstream socket overwrites what the
  first one saved, with the module's own handler.
\<close>

definition installed_ctx ::
  "world \<Rightarrow> lua_request \<Rightarrow> nat \<Rightarrow> ngx_lua_select_ctx \<Rightarrow> ngx_lua_select_ctx" where
  "installed_ctx w q k c =
     (let pre = take k (cx_socket c) in
      c\<lparr>cx_prev_request_read_handler :=
          saved (\<lambda>s. is_down s \<and> wants_read s) pre Fn_read_request_handler
            (rq_read_event_handler q) (cx_prev_request_read_handler c),
        cx_prev_request_write_handler :=
          saved (\<lambda>s. is_down s \<and> wants_write s) pre Fn_write_request_handler
            (rq_write_event_handler q) (cx_prev_request_write_handler c),
        cx_socket := installed_slots w [] pre @ drop k (cx_socket c)\<rparr>)"

definition installed ::
  "addr \<Rightarrow> addr \<Rightarrow> nat \<Rightarrow> ngx_lua_select_ctx \<Rightarrow> lua_request \<Rightarrow> world \<Rightarrow> world" where
  "installed p r k c q w =
     (let pre = take k (cx_socket c) in
      put_ctx p (installed_ctx w q k c)
        (w\<lparr>w_ups := (\<lambda>a. map_option (hook_up pre a) (w_ups w a)),
           w_reqs := (w_reqs w)(r \<mapsto> hook_req pre q)\<rparr>))"

lemma hook_up_Nil [simp]: "hook_up [] a u = u"
  by (simp add: hook_up_def)

lemma hook_req_Nil [simp]: "hook_req [] q = q"
  by (simp add: hook_req_def)

lemma installed_slots_snoc:
  "installed_slots w pre (ss @ [s]) = installed_slots w pre ss @ [installed_slot w (pre @ ss) s]"
  by (induction ss arbitrary: pre) simp_all

lemma length_installed_slots [simp]: "length (installed_slots w pre ss) = length ss"
  by (induction ss arbitrary: pre) simp_all

section \<open>The loop computes the closed form\<close>

text \<open>A slot as the scan leaves it: a TCP socket, and an upstream's structure exists.\<close>

definition tcp_slot :: "world \<Rightarrow> ngx_lua_select_socket \<Rightarrow> bool" where
  "tcp_slot w s \<longleftrightarrow>
     is_down s \<or> (\<exists>a u. is_up a s \<and> w_ups w a = Some u)"

lemma tcp_slot_cases:
  assumes "tcp_slot w s"
  obtains (down) "sk_type s = NGX_LUA_SELECT_TCP_DOWNSTREAM" "is_down s" "\<And>a. \<not> is_up a s"
  | (up) a u where "sk_type s = NGX_LUA_SELECT_TCP_UPSTREAM" "\<not> is_down s" "sk_up s = Some a"
      "w_ups w a = Some u" "\<And>b. is_up b s \<longleftrightarrow> b = a"
  using assms by (auto simp: tcp_slot_def is_down_def is_up_def)

lemma installed_simps:
  "ctx_at (installed p r k c q w) p = Some (installed_ctx w q k c)"
  "w_ups (installed p r k c q w) a = map_option (hook_up (take k (cx_socket c)) a) (w_ups w a)"
  "w_reqs (installed p r k c q w) r = Some (hook_req (take k (cx_socket c)) q)"
  by (simp_all add: installed_def Let_def)

lemma installed_ctx_nth:
  assumes "k < length (cx_socket c)"
  shows "cx_socket (installed_ctx w q k c) ! k = cx_socket c ! k"
    and "k < length (cx_socket (installed_ctx w q k c))"
  using assms by (simp_all add: installed_ctx_def Let_def nth_append)

lemma installed_ctx_Suc:
  assumes i: "k < length (cx_socket c)"
  shows "installed_ctx w q (Suc k) c =
    (let pre = take k (cx_socket c); s = cx_socket c ! k; c' = installed_ctx w q k c in
     c'\<lparr>cx_prev_request_read_handler :=
          (if is_down s \<and> wants_read s then rq_read_event_handler (hook_req pre q)
           else cx_prev_request_read_handler c'),
        cx_prev_request_write_handler :=
          (if is_down s \<and> wants_write s then rq_write_event_handler (hook_req pre q)
           else cx_prev_request_write_handler c'),
        cx_socket := (cx_socket c')[k := installed_slot w pre s]\<rparr>)"
proof -
  have "(xs @ drop k (cx_socket c))[k := y] = xs @ y # drop (Suc k) (cx_socket c)"
    if "length xs = k" for xs y
    using i that by (simp add: list_update_append upd_conv_take_nth_drop Cons_nth_drop_Suc[symmetric])
  then show ?thesis
    using i by (simp add: installed_ctx_def Let_def take_Suc_conv_app_nth installed_slots_snoc
        saved_snoc hook_req_def)
qed


lemma install_down:
  assumes C: "ctx_at W p = Some C" "k < length (cx_socket C)" "cx_socket C ! k = s"
    and Q: "w_reqs W r = Some Q" and down: "sk_type s = NGX_LUA_SELECT_TCP_DOWNSTREAM"
  shows "select_install_socket E L (Some p) (Some r) k W = (Val (),
    put_ctx p (C\<lparr>cx_prev_request_read_handler :=
          (if wants_read s then rq_read_event_handler Q else cx_prev_request_read_handler C),
        cx_prev_request_write_handler :=
          (if wants_write s then rq_write_event_handler Q else cx_prev_request_write_handler C),
        cx_socket := (cx_socket C)[k := installed_slot W [] s]\<rparr>)
      (put_req r (Q\<lparr>rq_read_event_handler :=
          (if wants_read s then Fn_read_request_handler else rq_read_event_handler Q),
        rq_write_event_handler :=
          (if wants_write s then Fn_write_request_handler else rq_write_event_handler Q)\<rparr>) W))"
proof -
  note run = select_install_socket_def run_simps wants_read_def wants_write_def Let_def
  note slot = installed_slot_def is_down_def wants_read_def wants_write_def reqs.put_same[OF Q]
  show ?thesis
  proof (cases "wants_read s"; cases "wants_write s")
    assume "wants_read s" "wants_write s"
    then show ?thesis using assms by (simp add: run, simp add: slot)
  next
    assume "wants_read s" "\<not> wants_write s"
    then show ?thesis using assms by (simp add: run, simp add: slot)
  next
    assume "\<not> wants_read s" "wants_write s"
    then show ?thesis using assms by (simp add: run, simp add: slot)
  next
    assume "\<not> wants_read s" "\<not> wants_write s"
    then show ?thesis using assms by (simp add: run, simp add: slot)
  qed
qed

lemma install_up:
  assumes C: "ctx_at W p = Some C" "k < length (cx_socket C)" "cx_socket C ! k = s"
    and up: "sk_type s = NGX_LUA_SELECT_TCP_UPSTREAM" "sk_up s = Some a" "w_ups W a = Some u"
  shows "select_install_socket E L (Some p) (Some r) k W = (Val (),
    put_ctx p (C\<lparr>cx_socket := (cx_socket C)[k := installed_slot W [] s]\<rparr>)
      (put_up a (u\<lparr>up_read_event_handler :=
          (if wants_read s then Fn_read_upstream_handler else up_read_event_handler u),
        up_write_event_handler :=
          (if wants_write s then Fn_write_upstream_handler else up_write_event_handler u)\<rparr>) W))"
proof -
  note run = select_install_socket_def run_simps wants_read_def wants_write_def Let_def
  note slot = installed_slot_def is_down_def wants_read_def wants_write_def ups.put_same[OF up(3)]
  show ?thesis
  proof (cases "wants_read s"; cases "wants_write s")
    assume "wants_read s" "wants_write s"
    then show ?thesis using assms by (simp add: run, simp add: slot)
  next
    assume "wants_read s" "\<not> wants_write s"
    then show ?thesis using assms by (simp add: run, simp add: slot)
  next
    assume "\<not> wants_read s" "wants_write s"
    then show ?thesis using assms by (simp add: run, simp add: slot)
  next
    assume "\<not> wants_read s" "\<not> wants_write s"
    then show ?thesis using assms by (simp add: run, simp add: slot)
  qed
qed
lemma ups_reqs_swap: "(w::world)\<lparr>w_reqs := y, w_ups := x\<rparr> = w\<lparr>w_ups := x, w_reqs := y\<rparr>"
  by simp

text \<open>One round, for the connection of the request and for an upstream.\<close>

lemma install_step_down:
  assumes i: "k < length (cx_socket c)"
    and down: "sk_type (cx_socket c ! k) = NGX_LUA_SELECT_TCP_DOWNSTREAM"
  shows "select_install_socket E L (Some p) (Some r) k (installed p r k c q w)
    = (Val (), installed p r (Suc k) c q w)"
proof -
  let ?s = "cx_socket c ! k" and ?pre = "take k (cx_socket c)" and ?W = "installed p r k c q w"
  note nth = installed_ctx_nth[OF i, of w q]
  note Suc = take_Suc_conv_app_nth[OF i] installed_ctx_Suc[OF i]
  have kind: "is_down ?s" "\<And>a. \<not> is_up a ?s" using down by (simp_all add: is_down_def is_up_def)
  have slot: "installed_slot ?W [] ?s = installed_slot w ?pre ?s"
    using kind by (simp add: installed_slot_def)
  have ups: "hook_up (?pre @ [?s]) = hook_up ?pre"
    using kind by (simp add: hook_up_def hooked_snoc fun_eq_iff)
  have req: "hook_req (?pre @ [?s]) q = (hook_req ?pre q)
      \<lparr>rq_read_event_handler := (if wants_read ?s then Fn_read_request_handler
          else rq_read_event_handler (hook_req ?pre q)),
       rq_write_event_handler := (if wants_write ?s then Fn_write_request_handler
          else rq_write_event_handler (hook_req ?pre q))\<rparr>"
    using kind by (simp add: hook_req_def hooked_snoc)
  show ?thesis
    unfolding install_down[OF installed_simps(1) nth(2,1) installed_simps(3) down] slot
    using kind by (simp add: installed_def Let_def Suc ups req, simp add: put_req_def)
qed

text \<open>What the slot of an upstream adds to the upstreams.\<close>

lemma hook_up_snoc:
  assumes "is_up a s" and "w_ups w a = Some u"
  shows "(\<lambda>b. map_option (hook_up (pre @ [s]) b) (w_ups w b))
    = (\<lambda>b. map_option (hook_up pre b) (w_ups w b))(a \<mapsto> (hook_up pre a u)
        \<lparr>up_read_event_handler := (if wants_read s then Fn_read_upstream_handler
            else up_read_event_handler (hook_up pre a u)),
         up_write_event_handler := (if wants_write s then Fn_write_upstream_handler
            else up_write_event_handler (hook_up pre a u))\<rparr>)"
proof (rule ext)
  fix b
  have same: "hook_up (pre @ [s]) b = hook_up pre b" if "b \<noteq> a"
    using assms(1) that by (auto simp: hook_up_def hooked_snoc fun_eq_iff is_up_def)
  show "map_option (hook_up (pre @ [s]) b) (w_ups w b) = ((\<lambda>b. map_option (hook_up pre b)
    (w_ups w b))(a \<mapsto> (hook_up pre a u)
      \<lparr>up_read_event_handler := (if wants_read s then Fn_read_upstream_handler
          else up_read_event_handler (hook_up pre a u)),
       up_write_event_handler := (if wants_write s then Fn_write_upstream_handler
          else up_write_event_handler (hook_up pre a u))\<rparr>)) b"
    using assms by (cases "b = a") (simp_all add: same, simp add: hook_up_def hooked_snoc)
qed

lemma install_step_up:
  assumes i: "k < length (cx_socket c)"
    and up: "sk_type (cx_socket c ! k) = NGX_LUA_SELECT_TCP_UPSTREAM"
      "sk_up (cx_socket c ! k) = Some a" "w_ups w a = Some u"
  shows "select_install_socket E L (Some p) (Some r) k (installed p r k c q w)
    = (Val (), installed p r (Suc k) c q w)"
proof -
  let ?s = "cx_socket c ! k" and ?pre = "take k (cx_socket c)" and ?W = "installed p r k c q w"
  note nth = installed_ctx_nth[OF i, of w q]
  note Suc = take_Suc_conv_app_nth[OF i] installed_ctx_Suc[OF i]
  have kind: "\<not> is_down ?s" "\<And>b. is_up b ?s \<longleftrightarrow> b = a"
    using up by (auto simp: is_down_def is_up_def)
  have W: "w_ups ?W a = Some (hook_up ?pre a u)" using up by (simp add: installed_simps)
  have slot: "installed_slot ?W [] ?s = installed_slot w ?pre ?s"
    using up kind W by (simp add: installed_slot_def)
  have req: "hook_req (?pre @ [?s]) = hook_req ?pre"
    using kind by (simp add: hook_req_def hooked_snoc fun_eq_iff)
  have upd: "put_up a u' ?W = put_ctx p (installed_ctx w q k c)
      (w\<lparr>w_ups := (\<lambda>b. map_option (hook_up ?pre b) (w_ups w b))(a \<mapsto> u'),
          w_reqs := (w_reqs w)(r \<mapsto> hook_req ?pre q)\<rparr>)" for u'
    by (simp add: installed_def Let_def) (simp add: put_up_def ups_reqs_swap)
  have new: "installed p r (Suc k) c q w = put_ctx p (installed_ctx w q (Suc k) c)
      (w\<lparr>w_ups := (\<lambda>b. map_option (hook_up (?pre @ [?s]) b) (w_ups w b)),
          w_reqs := (w_reqs w)(r \<mapsto> hook_req (?pre @ [?s]) q)\<rparr>)"
    by (simp add: installed_def Let_def Suc(1))
  have ups: "is_up a ?s" using kind by simp
  show ?thesis
    unfolding install_up[OF installed_simps(1) nth(2,1) up(1,2) W] slot upd new
      hook_up_snoc[OF ups up(3)] req Suc(2)
    using kind by (simp add: Let_def)
qed

lemma install_step:
  assumes i: "k < length (cx_socket c)" and slot: "tcp_slot w (cx_socket c ! k)"
  shows "select_install_socket E L (Some p) (Some r) k (installed p r k c q w)
    = (Val (), installed p r (Suc k) c q w)"
  using slot by (cases rule: tcp_slot_cases)
    (simp_all add: install_step_down[OF i] install_step_up[OF i])

text \<open>The loop.\<close>

lemma hook_up_none: "hook_up [] a = (\<lambda>u. u)"
  by (simp add: hook_up_def fun_eq_iff)

lemma installed_0: "ctx_at w p = Some c \<Longrightarrow> w_reqs w r = Some q \<Longrightarrow> installed p r 0 c q w = w"
  by (simp add: installed_def installed_ctx_def hook_up_none option.map_ident Let_def ctxs.put_same map_upd_triv)

lemma install_loop:
  assumes c: "ctx_at w p = Some c" and q: "w_reqs w r = Some q"
    and slots: "\<forall>s \<in> set (cx_socket c). tcp_slot w s" and n: "n = length (cx_socket c)"
  shows "for_each [0..<n] (\<lambda>i _. select_install_socket E L (Some p) (Some r) i) () w
    = (Val (), installed p r n c q w)"
proof -
  have "\<exists>u w'. for_each [0..<n] (\<lambda>i _. select_install_socket E L (Some p) (Some r) i) () w
      = (Val u, w') \<and> w' = installed p r (length [0..<n]) c q w"
  proof (rule for_each_invariant)
    show "w = installed p r 0 c q w" using c q by (simp add: installed_0)
  next
    fix k and u :: unit and w' assume k: "k < length [0..<n]" and w': "w' = installed p r k c q w"
    then have i: "k < length (cx_socket c)" and nth: "[0..<n] ! k = k" using n by simp_all
    have "tcp_slot w (cx_socket c ! k)" using slots nth_mem[OF i] by blast
    with install_step[OF i] nth w'
    show "\<exists>u' w''. select_install_socket E L (Some p) (Some r) ([0..<n] ! k) w' = (Val u', w'')
        \<and> w'' = installed p r (Suc k) c q w" by auto
  qed
  then show ?thesis by auto
qed

end
