(* ===== verification/Select_Start.thy ===== *)
theory Select_Start
  imports Select_Install
begin

text \<open>
  The whole of \<open>lua_select_module_select\<close>: what it takes its arguments for, the states it goes
  through, and its three ends: the error of the first bad entry, the early return when bytes
  already wait, and the yield of a coroutine that will be resumed by an event.
\<close>

section \<open>The arguments and the request\<close>

text \<open>The arguments, the last one first as on the Lua stack: an error or the timeout.\<close>

fun parse_args :: "(string \<Rightarrow> lua_number option) \<Rightarrow> lval list \<Rightarrow> lua_error + lua_number" where
  "parse_args f [] = Inl (Lua_error ''expected more than 0 arguments'')"
| "parse_args f [t] =
     (if lval_is_table t then Inr (LFin 0) else Inl (Arg_error 1 ''expected a table of sockets''))"
| "parse_args f [x, t] =
     (if \<not> lval_is_table t then Inl (Arg_error 1 ''expected a table of sockets'')
      else if x = LNil then Inr (LFin 0)
      else (case lval_number f x of
              None \<Rightarrow> Inl (Arg_error 2 ''expected a timeout value or nil'')
            | Some num \<Rightarrow>
                if lua_number_neg num then Inl (Arg_error 2 ''timeout cannot be <0'') else Inr num))"
| "parse_args f _ = Inl (Lua_error ''expected no more than 3 arguments'')"

lemma lua_at_args [simp]:
  "lua_at [t] 1 = t" "lua_at [x, t] 1 = t" "lua_at [x, t] 2 = x"
  by (simp_all add: lua_at_def)

text \<open>A request whose handler runs Lua: the structures the call looks up.\<close>

definition in_request :: "env \<Rightarrow> thread \<Rightarrow> world \<Rightarrow> addr \<Rightarrow> addr \<Rightarrow> bool" where
  "in_request E L w r co \<longleftrightarrow>
     ngx_stream_lua_get_req E L w = Some r \<and>
     (\<exists>q a sc. w_reqs w r = Some q \<and> rq_ctx q Mod_stream_lua = Some a \<and> w_sctxs w a = Some sc \<and>
        sc_cur_co_ctx sc = Some co) \<and>
     request_ok w r"

context process_api begin

lemma select_check_args_run:
  "select_check_args E L w =
    (case parse_args (lua_str2number E) (w_stack w L) of
       Inl e \<Rightarrow> (Raise e, w) | Inr timeout \<Rightarrow> (Val timeout, w))"
proof (cases "(lua_str2number E, w_stack w L)" rule: parse_args.cases)
  case (3 f x t)
  then have f: "f = lua_str2number E" and s: "w_stack w L = [x, t]" by simp_all
  show ?thesis
  proof (cases "lval_number f x")
    case None
    with s f show ?thesis
      by (simp add: select_check_args_def run_simps gettop istable isnumber isnil numeral_2_eq_2)
  next
    case (Some num)
    then have "x \<noteq> LNil" by auto
    moreover from Some s f have "lua_tonumber E L 2 w = num" by (intro tonumber) simp
    ultimately show ?thesis
      using s f Some
      by (simp add: select_check_args_def run_simps gettop istable isnumber isnil)
  qed
qed (simp_all add: select_check_args_def run_simps gettop istable)

lemma select_find_request_run:
  assumes "in_request E L w r co"
  shows "select_find_request E L w = (Val (Some r, Some co), w)"
  using assms by (auto simp: in_request_def select_find_request_def run_simps get_module_ctx)

end

section \<open>From the call to the poll\<close>

text \<open>
  A call the code accepts as far as the poll: well-formed arguments, the entries of the table
  in traversal order, and what each of them asks for.
\<close>

definition accepted_call ::
  "env \<Rightarrow> nat \<Rightarrow> thread \<Rightarrow> world \<Rightarrow> addr \<Rightarrow> addr \<Rightarrow> lua_table \<Rightarrow> lua_number \<Rightarrow>
    (32 word \<times> addr \<times> lval) list \<Rightarrow> bool" where
  "accepted_call E fuel L w r co es timeout xs \<longleftrightarrow>
     parse_args (lua_str2number E) (w_stack w L) = Inr timeout \<and> in_request E L w r co \<and>
     (\<exists>T. lua_at (w_stack w L) 1 = LTable T \<and> table_at w T = Some es) \<and> wf_table es \<and>
     length es < fuel \<and> (\<forall>e \<in> set es. entry_ok w e) \<and> check_entries E w r es = Inr xs"

text \<open>The upstreams of the sockets have connections, and the kernel answers for them.\<close>

definition connected :: "world \<Rightarrow> (32 word \<times> addr \<times> lval) list \<Rightarrow> bool" where
  "connected w xs \<longleftrightarrow>
     (\<forall>x \<in> set xs. \<exists>u a conn. w_ups w (fst (snd x)) = Some u \<and> up_peer_connection u = Some a \<and>
        w_conns w a = Some conn \<and> 0 \<le> fst (w_kernel w (cn_fd conn)))"

text \<open>The upstreams have connections, whatever the kernel answers for them.\<close>

definition open_sockets :: "world \<Rightarrow> (32 word \<times> addr \<times> lval) list \<Rightarrow> bool" where
  "open_sockets w xs \<longleftrightarrow>
     (\<forall>x \<in> set xs. \<exists>u a conn. w_ups w (fst (snd x)) = Some u \<and> up_peer_connection u = Some a \<and>
        w_conns w a = Some conn)"

lemma connected_open: "connected w xs \<Longrightarrow> open_sockets w xs"
  by (fastforce simp: connected_def open_sockets_def)

text \<open>Whether the kernel has bytes for the upstream \<open>a\<close>.\<close>

definition readable :: "world \<Rightarrow> addr \<Rightarrow> bool" where
  "readable w a =
     (case w_ups w a of None \<Rightarrow> False
      | Some u \<Rightarrow> (case up_peer_connection u of None \<Rightarrow> False
         | Some b \<Rightarrow> (case w_conns w b of None \<Rightarrow> False
            | Some conn \<Rightarrow> 0 < snd (w_kernel w (cn_fd conn)))))"

definition scanned_ctx ::
  "world \<Rightarrow> addr \<Rightarrow> (32 word \<times> addr \<times> lval) list \<Rightarrow> int list \<Rightarrow> int \<Rightarrow> ngx_lua_select_ctx \<Rightarrow>
    ngx_lua_select_ctx" where
  "scanned_ctx w r xs refs cref c0 =
     c0\<lparr>cx_count := length xs, cx_ref := cref, cx_timer := zero_event,
        cx_prev_request_write_handler := Fn_NULL, cx_prev_request_read_handler := Fn_NULL,
        cx_socket := scan_slots w r xs refs (cx_socket c0)\<rparr>"

definition scanned ::
  "addr \<Rightarrow> ngx_lua_select_ctx \<Rightarrow> (32 word \<times> addr \<times> lval) list \<Rightarrow> int list \<Rightarrow> int \<Rightarrow> world \<Rightarrow> world"
where
  "scanned p c xs refs cref w =
     put_ctx p c (w\<lparr>w_registry := scan_refs xs refs ((cref, LUserdata p) # w_registry w)\<rparr>)"

text \<open>The state after the allocation of the context.\<close>

definition allocated :: "addr \<Rightarrow> ngx_lua_select_ctx \<Rightarrow> nat \<Rightarrow> int \<Rightarrow> world \<Rightarrow> world" where
  "allocated p c0 n cref w =
     put_ctx p (c0\<lparr>cx_count := n, cx_ref := cref, cx_timer := zero_event,
                   cx_prev_request_write_handler := Fn_NULL,
                   cx_prev_request_read_handler := Fn_NULL\<rparr>)
       (w\<lparr>w_registry := (cref, LUserdata p) # w_registry w\<rparr>)"

lemma scanned_frame [simp]:
  "socket_poll (scanned p c xs refs cref w) = socket_poll w"
  "poll_mark (scanned p c xs refs cref w) = poll_mark w"
  "bytes_waiting (scanned p c xs refs cref w) = bytes_waiting w"
  "conns_live (scanned p c xs refs cref w) = conns_live w"
  "poll_ok (scanned p c xs refs cref w) = poll_ok w"
  "ctx_at (scanned p c xs refs cref w) = (ctx_at w)(p \<mapsto> c)"
  "put_ctx p c' (scanned p c xs refs cref w) = scanned p c' xs refs cref w"
  "w_reqs (scanned p c xs refs cref w) = w_reqs w"
  "w_ups (scanned p c xs refs cref w) = w_ups w"
  "w_stack (scanned p c xs refs cref w) = w_stack w"
  "w_registry (scanned p c xs refs cref w) = scan_refs xs refs ((cref, LUserdata p) # w_registry w)"
  by (simp_all add: scanned_def fun_eq_iff poll_mark_def bytes_waiting_def socket_poll_def
      conns_live_def poll_ok_def cong: option.case_cong)

lemma scanned_polled [simp]: "polled (scanned p c xs refs cref w) = polled w"
  by (simp add: polled_def fun_eq_iff)

lemma parse_args_stack: "parse_args f s = Inr t \<Longrightarrow> s \<noteq> []"
  by auto

lemma scan_slots_connected:
  assumes "connected w xs" and "length refs = length xs" and "length ss = length xs"
  shows "\<forall>s \<in> set (scan_slots w r xs refs ss). 0 \<le> fst (socket_poll w s)"
    and "map (bytes_waiting w) (scan_slots w r xs refs ss) = map (\<lambda>x. readable w (fst (snd x))) xs"
  using assms(2,1,3)
proof (induction refs xs arbitrary: ss rule: list_induct2)
  case Nil
  { case 1 show ?case by (simp add: scan_slots_def) }
  { case 2 show ?case by (simp add: scan_slots_def) }
next
  case (Cons n refs x xs)
  { case 1
    then obtain s ss' where "ss = s # ss'" by (cases ss) auto
    with 1 Cons.IH(1)[of ss'] show ?case
      by (auto simp: connected_def entry_slot_def socket_poll_def Let_def) }
  { case 2
    then obtain s ss' where "ss = s # ss'" by (cases ss) auto
    with 2 Cons.IH(2)[of ss'] show ?case
      by (auto simp: connected_def entry_slot_def socket_poll_def bytes_waiting_def
          readable_def Let_def) }
qed

lemma scan_slots_live:
  assumes "open_sockets w xs" and "length refs = length xs" and "length ss = length xs"
  shows "conns_live w (scan_slots w r xs refs ss)"
  using assms(2,1,3)
proof (induction refs xs arbitrary: ss rule: list_induct2)
  case Nil
  show ?case by (simp add: scan_slots_def conns_live_def)
next
  case (Cons n refs x xs)
  then obtain s ss' where "ss = s # ss'" by (cases ss) auto
  with Cons.prems Cons.IH[of ss'] show ?case
    by (auto simp: conns_live_def open_sockets_def entry_slot_def Let_def)
qed

lemma filter_map_length: "length (filter P xs) = length (filter (\<lambda>b. b) (map P xs))"
  by (simp add: filter_map comp_def)

context process_api begin

lemma select_alloc_ctx_run:
  "\<exists>p c0 cref. ctx_at w p = None \<and> length (cx_socket c0) = n \<and> 1 \<le> cref \<and>
    cref \<notin> fst ` set (w_registry w) \<and>
    select_alloc_ctx E L n w = (Val (Some p),
      put_ctx p (c0\<lparr>cx_count := n, cx_ref := cref, cx_timer := zero_event,
                    cx_prev_request_write_handler := Fn_NULL,
                    cx_prev_request_read_handler := Fn_NULL\<rparr>)
        (w\<lparr>w_registry := (cref, LUserdata p) # w_registry w\<rparr>))"
proof -
  obtain p c0 where p: "ctx_at w p = None" "length (cx_socket c0) = n"
    and new: "lua_newuserdata E L n w
      = (Some p, set_stack L (LUserdata p # w_stack w L) (put_ctx p c0 w))"
    using newuserdata by blast
  let ?w1 = "set_stack L (LUserdata p # w_stack w L) (put_ctx p (c0\<lparr>cx_count := n\<rparr>) w)"
  obtain cref where "1 \<le> cref" "cref \<notin> fst ` set (w_registry w)" and
    "luaL_ref E L ?w1 = (cref, set_stack L (w_stack w L)
        (?w1\<lparr>w_registry := (cref, LUserdata p) # w_registry w\<rparr>))"
    using ref[of ?w1 L "LUserdata p" "w_stack w L"] by auto
  with p new show ?thesis
    by (intro exI[of _ p] exI[of _ c0] exI[of _ cref]) (simp add: select_alloc_ctx_def run_simps)
qed

lemma poll_run:
  assumes con: "connected w xs" and len: "length refs = length xs" "length (cx_socket c0) = length xs"
    and c: "c = scanned_ctx w r xs refs cref c0"
  shows "ngx_lua_select_sockets_ready E (Some p) (scanned p c xs refs cref w) =
    (Val (None, int (length (filter (\<lambda>x. readable w (fst (snd x))) xs))),
     scanned p (c\<lparr>cx_socket := map (poll_mark w) (cx_socket c)\<rparr>) xs refs cref w)"
proof -
  let ?ss = "scan_slots w r xs refs (cx_socket c0)" and ?w2 = "scanned p c xs refs cref w"
  have cnt: "length (filter (bytes_waiting w) ?ss)
      = length (filter (\<lambda>x. readable w (fst (snd x))) xs)"
    unfolding filter_map_length[of "bytes_waiting w"] scan_slots_connected(2)[OF con len]
    by (simp add: filter_map comp_def)
  have "ngx_lua_select_sockets_ready E (Some p) ?w2 =
    (Val (None, int (length (filter (bytes_waiting ?w2) (cx_socket c)))),
     put_ctx p (c\<lparr>cx_socket := map (poll_mark ?w2) (cx_socket c)\<rparr>) ?w2)"
    by (rule sockets_ready_ok)
      (use scan_slots_live[OF connected_open[OF con] len, of r]
          scan_slots_connected(1)[OF con len, of r] len in
        \<open>simp_all add: c scanned_ctx_def\<close>)
  then show ?thesis
    using cnt by (simp add: c scanned_ctx_def)
qed

lemma poll_mark_none:
  assumes "connected w xs" and "length refs = length xs" and "length ss = length xs"
    and "\<not> (\<exists>x \<in> set xs. readable w (fst (snd x)))"
  shows "map (poll_mark w) (scan_slots w r xs refs ss) = scan_slots w r xs refs ss"
proof (rule map_idI)
  fix s assume "s \<in> set (scan_slots w r xs refs ss)"
  then have "bytes_waiting w s \<in> set (map (bytes_waiting w) (scan_slots w r xs refs ss))" by simp
  with scan_slots_connected(2)[OF assms(1-3), of r] assms(4) show "poll_mark w s = s"
    by (auto simp: poll_mark_def)
qed

text \<open>Everything up to the scan.\<close>

lemma select_to_scan:
  assumes args: "parse_args (lua_str2number E) (w_stack w L) = Inr timeout"
    and req: "in_request E L w r co" and T: "lua_at (w_stack w L) 1 = LTable T" "table_at w T = Some es"
    and es: "wf_table es" "length es < fuel"
  shows "\<exists>p c0 cref. ctx_at w p = None \<and> length (cx_socket c0) = length es \<and> 1 \<le> cref \<and>
    cref \<notin> fst ` set (w_registry w) \<and>
    lua_select_module_select E fuel L w =
      mbind (select_scan E fuel L (Some p) (Some r) 0)
        (select_after_scan E L (Some p) (Some r) (Some co) timeout (length es))
        (set_stack L (LNil # w_stack w L) (allocated p c0 (length es) cref w))"
proof -
  let ?args = "w_stack w L"
  have ne: "?args \<noteq> []" by (rule parse_args_stack[OF args])
  have count: "select_count E fuel L 0 (set_stack L (LNil # ?args) w) = (Val (length es), w)"
    using select_count_run[of "set_stack L (LNil # ?args) w" L "[]" ?args T es fuel 0] ne T es
    by simp
  obtain p c0 cref where p: "ctx_at w p = None" "length (cx_socket c0) = length es" "1 \<le> cref"
      "cref \<notin> fst ` set (w_registry w)"
    and alloc: "select_alloc_ctx E L (length es) w = (Val (Some p), allocated p c0 (length es) cref w)"
    using select_alloc_ctx_run unfolding allocated_def by blast
  have "w_stack (allocated p c0 (length es) cref w) = w_stack w" by (simp add: allocated_def)
  with p show ?thesis
    using count alloc
    by (intro exI[of _ p] exI[of _ c0] exI[of _ cref])
      (simp add: lua_select_module_select_def run_simps select_check_args_run args
        select_find_request_run[OF req] pushnil)
qed

text \<open>Everything up to the end of the scan.\<close>

lemma select_scanned:
  assumes call: "accepted_call E fuel L w r co es timeout xs"
  shows "\<exists>p c0 cref refs. ctx_at w p = None \<and> length (cx_socket c0) = length xs \<and>
    length refs = length xs \<and> fresh_refs (cref # refs) (w_registry w) \<and>
    lua_select_module_select E fuel L w =
      select_after_scan E L (Some p) (Some r) (Some co) timeout (length xs) (length xs)
        (scanned p (scanned_ctx w r xs refs cref c0) xs refs cref w)"
proof -
  let ?args = "w_stack w L" and ?n = "length es"
  from call obtain T where args: "parse_args (lua_str2number E) ?args = Inr timeout"
    and req: "in_request E L w r co" and T: "lua_at ?args 1 = LTable T" "table_at w T = Some es"
    and es: "wf_table es" "?n < fuel" "\<forall>e \<in> set es. entry_ok w e" "check_entries E w r es = Inr xs"
    by (auto simp: accepted_call_def)
  have ne: "?args \<noteq> []" by (rule parse_args_stack[OF args])
  have len: "length xs = ?n" by (rule check_entries_length[OF es(4)])
  have rok: "request_ok w r" using req by (simp add: in_request_def)
  obtain p c0 cref where p: "ctx_at w p = None" "length (cx_socket c0) = ?n" "1 \<le> cref"
      "cref \<notin> fst ` set (w_registry w)"
    and run: "lua_select_module_select E fuel L w =
      mbind (select_scan E fuel L (Some p) (Some r) 0)
        (select_after_scan E L (Some p) (Some r) (Some co) timeout ?n)
        (set_stack L (LNil # ?args) (allocated p c0 ?n cref w))"
    using select_to_scan[OF args req T es(1,2)] by blast
  obtain refs where refs: "length refs = length xs"
      "fresh_refs refs ((cref, LUserdata p) # w_registry w)"
    and scan: "select_scan E fuel L (Some p) (Some r) 0
        (set_stack L (LNil # ?args) (allocated p c0 ?n cref w))
      = (Val ?n, scanned p (scanned_ctx w r xs refs cref c0) xs refs cref w)"
    using select_scan_ok[of "set_stack L (LNil # ?args) (allocated p c0 ?n cref w)" L "[]" ?args T es
        fuel r p _ 0 xs] ne T es rok p
    by (auto simp: scanned_def scanned_ctx_def len allocated_def)
  have "fresh_refs (cref # refs) (w_registry w)"
    using refs(2) p(3,4) by (auto simp: fresh_refs_def)
  with p refs len show ?thesis
    unfolding run
    by (intro exI[of _ p] exI[of _ c0] exI[of _ cref] exI[of _ refs]) (simp add: run_simps scan)
qed

text \<open>Everything up to the decision after the poll.\<close>

lemma select_to_poll:
  assumes call: "accepted_call E fuel L w r co es timeout xs" and con: "connected w xs"
  shows "\<exists>p c0 cref refs. ctx_at w p = None \<and> length (cx_socket c0) = length xs \<and>
    length refs = length xs \<and> fresh_refs (cref # refs) (w_registry w) \<and>
    (let c = scanned_ctx w r xs refs cref c0 in
     lua_select_module_select E fuel L w =
       (if \<exists>x \<in> set xs. readable w (fst (snd x))
        then select_return_ready E L (Some p) (Some r)
               (scanned p (c\<lparr>cx_socket := map (poll_mark w) (cx_socket c)\<rparr>) xs refs cref w)
        else mseq (for_each [0..<length xs] (\<lambda>i _. select_install_socket E L (Some p) (Some r) i) ())
               (mseq (select_arm E (Some p) (Some r) (Some co) timeout) (myield 0))
               (scanned p c xs refs cref w)))"
proof -
  obtain p c0 cref refs where p: "ctx_at w p = None" and len: "length (cx_socket c0) = length xs"
      "length refs = length xs" and fresh: "fresh_refs (cref # refs) (w_registry w)"
    and run: "lua_select_module_select E fuel L w =
      select_after_scan E L (Some p) (Some r) (Some co) timeout (length xs) (length xs)
        (scanned p (scanned_ctx w r xs refs cref c0) xs refs cref w)"
    using select_scanned[OF call] by blast
  let ?c = "scanned_ctx w r xs refs cref c0"
  note poll = poll_run[OF con len(2,1) refl, of p r cref]
  have none: "?c\<lparr>cx_socket := map (poll_mark w) (cx_socket ?c)\<rparr> = ?c"
    if "\<not> (\<exists>x \<in> set xs. readable w (fst (snd x)))"
    using poll_mark_none[OF con len(2,1) that, of r] by (simp add: scanned_ctx_def)
  have cnt: "int (length (filter (\<lambda>x. readable w (fst (snd x))) xs)) = 0
      \<longleftrightarrow> \<not> (\<exists>x \<in> set xs. readable w (fst (snd x)))"
    by (auto simp: filter_empty_conv)
  have "select_after_scan E L (Some p) (Some r) (Some co) timeout (length xs) (length xs)
        (scanned p ?c xs refs cref w) =
       (if \<exists>x \<in> set xs. readable w (fst (snd x))
        then select_return_ready E L (Some p) (Some r)
               (scanned p (?c\<lparr>cx_socket := map (poll_mark w) (cx_socket ?c)\<rparr>) xs refs cref w)
        else mseq (for_each [0..<length xs] (\<lambda>i _. select_install_socket E L (Some p) (Some r) i) ())
               (mseq (select_arm E (Some p) (Some r) (Some co) timeout) (myield 0))
               (scanned p ?c xs refs cref w))"
    using poll none
    by (cases "\<exists>x \<in> set xs. readable w (fst (snd x))")
      (simp_all add: select_after_scan_def run_simps cnt del: of_nat_eq_0_iff length_0_conv)
  with p len fresh run show ?thesis
    by (intro exI[of _ p] exI[of _ c0] exI[of _ cref] exI[of _ refs]) (simp add: Let_def)
qed

end

section \<open>The early return\<close>

lemma scan_refs_map_of:
  assumes "length refs = length xs" and "fresh_refs refs reg" and "i < length xs"
  shows "map_of (scan_refs xs refs reg) (refs ! i) = Some (snd (snd (xs ! i)))"
proof -
  have "distinct (map fst (rev (zip refs (map (snd \<circ> snd) xs))))"
    using assms by (simp add: rev_map[symmetric] fresh_refs_def)
  moreover have "(refs ! i, snd (snd (xs ! i))) \<in> set (rev (zip refs (map (snd \<circ> snd) xs)))"
    using assms(1,3) by (auto simp: set_zip intro!: exI[of _ i])
  ultimately have "map_of (rev (zip refs (map (snd \<circ> snd) xs))) (refs ! i)
      = Some (snd (snd (xs ! i)))"
    by (rule map_of_is_SomeI)
  then show ?thesis by (simp add: scan_refs_def)
qed

lemma nth_scan_slots:
  assumes "length refs = length xs" and "length ss = length xs" and "i < length xs"
  shows "scan_slots w r xs refs ss ! i = entry_slot w r (xs ! i) (refs ! i) (ss ! i)"
  using assms by (simp add: scan_slots_def)

lemma entry_socket_is_table: "entry_socket E w (k, v) = Inr (rw, u, sock) \<Longrightarrow> \<exists>a. sock = LTable a"
  by (erule entry_socket_table) blast

lemma check_entries_tables:
  assumes "check_entries E w r es = Inr xs" and "x \<in> set xs"
  shows "(\<exists>b. snd (snd x) = LTable b) \<and> w_ups w (fst (snd x)) \<noteq> None"
proof -
  from check_entries_mem[OF assms] obtain e where "check_entry E w r e = Inr x" .
  then show ?thesis by (cases e) (auto elim!: check_entryE dest: entry_socket_is_table)
qed

lemma scan_refs_live:
  assumes "check_entries E w r es = Inr xs" and "length refs = length xs"
    and "fresh_refs refs reg" and "length ss = length xs"
    and "map sk_lua_socket_ref ss = refs"
  shows "refs_live (scan_refs xs refs reg) ss"
  unfolding refs_live_def
proof
  fix s assume "s \<in> set ss"
  then obtain i where i: "i < length ss" "s = ss ! i" by (auto simp: in_set_conv_nth)
  then have ref: "sk_lua_socket_ref s = refs ! i" using assms(5) by auto
  show "\<exists>a. map_of (scan_refs xs refs reg) (sk_lua_socket_ref s) = Some (LTable a)"
    using scan_refs_map_of[OF assms(2,3), of i] check_entries_tables[OF assms(1), of "xs ! i"]
      i assms(4) ref by auto
qed

lemma map_scan_slots_ref:
  assumes "length refs = length xs" and "length ss = length xs"
  shows "map sk_lua_socket_ref (scan_slots w r xs refs ss) = refs"
  by (rule nth_equalityI) (use assms in \<open>simp_all add: nth_scan_slots entry_slot_def Let_def\<close>)

lemma poll_mark_ref [simp]: "sk_lua_socket_ref (poll_mark w s) = sk_lua_socket_ref s"
  by (simp add: poll_mark_def)

context process_api begin

text \<open>
  The early return discards the context of the request before there is one: the module context
  is still what it was before the call.
\<close>

lemma select_readable_null:
  assumes call: "accepted_call E fuel L w r co es timeout xs" and con: "connected w xs"
    and rdb: "x \<in> set xs" "readable w (fst (snd x))"
    and q: "w_reqs w r = Some q" "rq_ctx q Mod_select = None"
  shows "\<exists>w'. lua_select_module_select E fuel L w = (Fault Null_deref, w')"
proof -
  from rdb have ex: "\<exists>x \<in> set xs. readable w (fst (snd x))" by blast
  from select_to_poll[OF call con] obtain p c0 cref refs
    where len: "length (cx_socket c0) = length xs" "length refs = length xs"
      and fresh: "fresh_refs (cref # refs) (w_registry w)"
      and run: "lua_select_module_select E fuel L w = select_return_ready E L (Some p) (Some r)
        (scanned p ((scanned_ctx w r xs refs cref c0)\<lparr>cx_socket := map (poll_mark w)
            (cx_socket (scanned_ctx w r xs refs cref c0))\<rparr>) xs refs cref w)"
    unfolding Let_def if_P[OF ex] by blast
  let ?c = "(scanned_ctx w r xs refs cref c0)\<lparr>cx_socket := map (poll_mark w)
            (cx_socket (scanned_ctx w r xs refs cref c0))\<rparr>"
  let ?w2 = "scanned p ?c xs refs cref w"
  let ?w3 = "?w2\<lparr>w_log := w_log ?w2 @ [msg_already_waiting]\<rparr>"
  obtain a conn where conn: "rq_connection q = Some a" "w_conns w a = Some conn"
    using call q(1) by (auto simp: accepted_call_def in_request_def request_ok_def)
  from call have es: "check_entries E w r es = Inr xs" by (simp add: accepted_call_def)
  have "fresh_refs refs ((cref, LUserdata p) # w_registry w)"
    using fresh by (auto simp: fresh_refs_def)
  then have live: "refs_live (w_registry ?w3) (cx_socket ?c)"
    using len by (auto simp: scanned_ctx_def map_scan_slots_ref comp_def intro!: scan_refs_live[OF es])
  have ctx: "ctx_at ?w3 p = Some ?c" "cx_count ?c = length (cx_socket ?c)"
    using len by (simp_all add: scanned_ctx_def)
  obtain b t where push: "ngx_lua_select_push_result E L (Some p) ?w3 =
      (let w' = put_table b t (?w3\<lparr>w_meta := (w_meta ?w3)(b := None)\<rparr>) in
       if ready_list (w_registry ?w3) (cx_socket ?c) = [] \<and> ev_timedout (cx_timer ?c)
       then (Val 2, set_stack L (LStr ''timeout'' # LNil # w_stack ?w3 L) w')
       else (Val 1, set_stack L (LTable b # w_stack ?w3 L) w'))"
    using push_result_run[OF ctx live, of L] by blast
  have "\<exists>rc w4. ngx_lua_select_push_result E L (Some p) ?w3 = (Val rc, w4) \<and> w_reqs w4 = w_reqs w"
    unfolding push by (simp add: Let_def)
  then obtain rc w4 where w4: "ngx_lua_select_push_result E L (Some p) ?w3 = (Val rc, w4)"
    "w_reqs w4 = w_reqs w" by blast
  have conns: "w_conns ?w2 = w_conns w" by (simp add: scanned_def)
  show ?thesis
    unfolding run using q conn w4 conns
    by (simp add: select_return_ready_def run_simps log_error
        ngx_stream_lua_select_ctx_cleanup_and_discard_def get_module_ctx)
qed

end

section \<open>The yield\<close>

text \<open>The context as the call leaves it, and the state of the process.\<close>

definition armed_ctx ::
  "addr \<Rightarrow> addr \<Rightarrow> ptr \<Rightarrow> lua_number \<Rightarrow> ngx_lua_select_ctx \<Rightarrow> ngx_lua_select_ctx" where
  "armed_ctx r co logp timeout c =
     (let c = (if lua_number_pos timeout
               then c\<lparr>cx_timer := (cx_timer c)
                       \<lparr>ev_cancelable := True, ev_handler := Fn_timeout_handler,
                        ev_data := Some r, ev_log := logp, ev_timer_set := True,
                        ev_delay := the (lua_number_to_msec timeout)\<rparr>\<rparr>
               else c)
      in c\<lparr>cx_post_completion_ev := (cx_post_completion_ev c)
             \<lparr>ev_posted := False, ev_data := Some r, ev_handler := Fn_post_completion_handler\<rparr>,
           cx_r := Some r, cx_coctx := Some co\<rparr>)"

definition armed :: "addr \<Rightarrow> addr \<Rightarrow> addr \<Rightarrow> lua_number \<Rightarrow> world \<Rightarrow> world" where
  "armed p r co timeout w =
     (let c = the (ctx_at w p); q = the (w_reqs w r); x = the (w_coctxs w co);
          conn = the (w_conns w (the (rq_connection q))) in
      put_ctx p (armed_ctx r co (cn_log conn) timeout c)
        (put_coctx co (x\<lparr>co_cleanup := Fn_cleanup, co_data := Some r\<rparr>)
          (put_req r (q\<lparr>rq_ctx := (rq_ctx q)(Mod_select := Some p)\<rparr>) w)))"

text \<open>Nothing is pending for the coroutine, and the timeout is one that fits its C type.\<close>

definition can_wait :: "world \<Rightarrow> addr \<Rightarrow> lua_number \<Rightarrow> bool" where
  "can_wait w co timeout \<longleftrightarrow>
     (\<exists>x. w_coctxs w co = Some x \<and> co_cleanup x = Fn_NULL) \<and>
     (lua_number_pos timeout \<longrightarrow> lua_number_to_msec timeout \<noteq> None)"

context process_api begin

lemma select_arm_run:
  assumes c: "ctx_at w p = Some c" and r: "request_ok w r" and wait: "can_wait w co timeout"
  shows "select_arm E (Some p) (Some r) (Some co) timeout w = (Val (), armed p r co timeout w)"
proof -
  obtain q a conn where q: "w_reqs w r = Some q" "rq_connection q = Some a" "w_conns w a = Some conn"
    using r by (auto simp: request_ok_def)
  obtain x where x: "w_coctxs w co = Some x" "co_cleanup x = Fn_NULL"
    using wait by (auto simp: can_wait_def)
  show ?thesis
  proof (cases "lua_number_pos timeout")
    case False
    with c q x show ?thesis
      by (simp add: select_arm_def run_simps set_ctx cleanup_nothing_pending armed_def armed_ctx_def
          Let_def)
  next
    case True
    then obtain ms where ms: "lua_number_to_msec timeout = Some ms"
      using wait by (auto simp: can_wait_def)
    with True c q x show ?thesis
      by (simp add: select_arm_def select_start_timer_def run_simps add_timer set_ctx
          cleanup_nothing_pending armed_def armed_ctx_def Let_def)
  qed
qed

end

text \<open>
  The state in which the coroutine waits: \<open>p\<close> is the new context, \<open>c0\<close> what its memory
  held, \<open>cref\<close> and \<open>refs\<close> the references that keep it and the sockets alive.
\<close>

definition waiting ::
  "addr \<Rightarrow> addr \<Rightarrow> lua_number \<Rightarrow> (32 word \<times> addr \<times> lval) list \<Rightarrow> addr \<Rightarrow> ngx_lua_select_ctx \<Rightarrow> int \<Rightarrow>
    int list \<Rightarrow> world \<Rightarrow> world" where
  "waiting r co timeout xs p c0 cref refs w =
     (let c = scanned_ctx w r xs refs cref c0 in
      armed p r co timeout
        (installed p r (length xs) c (the (w_reqs w r)) (scanned p c xs refs cref w)))"

lemma tcp_slot_scanned:
  assumes "check_entries E w r es = Inr xs" and "length refs = length xs"
    and "length ss = length xs" and "s \<in> set (scan_slots w r xs refs ss)"
  shows "tcp_slot w s"
proof -
  from assms(2-4) obtain i where i: "i < length xs" "s = scan_slots w r xs refs ss ! i"
    by (auto simp: in_set_conv_nth)
  then have s: "s = entry_slot w r (xs ! i) (refs ! i) (ss ! i)"
    using assms(2,3) by (simp add: nth_scan_slots)
  have "w_ups w (fst (snd (xs ! i))) \<noteq> None"
    using check_entries_tables[OF assms(1), of "xs ! i"] i(1) by simp
  with s show ?thesis
    by (auto simp: tcp_slot_def is_down_def is_up_def entry_slot_def get_socket_type_tcp Let_def)
qed

context process_api begin

text \<open>Everything up to the timer.\<close>

lemma select_installed:
  assumes call: "accepted_call E fuel L w r co es timeout xs" and con: "connected w xs"
    and idle: "\<not> (\<exists>x \<in> set xs. readable w (fst (snd x)))"
  shows "\<exists>p c0 cref refs. ctx_at w p = None \<and> length (cx_socket c0) = length xs \<and>
    length refs = length xs \<and> fresh_refs (cref # refs) (w_registry w) \<and>
    (let c = scanned_ctx w r xs refs cref c0;
         w3 = installed p r (length xs) c (the (w_reqs w r)) (scanned p c xs refs cref w) in
     lua_select_module_select E fuel L w =
       mseq (select_arm E (Some p) (Some r) (Some co) timeout) (myield 0) w3 \<and>
     ctx_at w3 p \<noteq> None \<and> request_ok w3 r \<and> w_coctxs w3 = w_coctxs w)"
proof -
  from select_to_poll[OF call con] obtain p c0 cref refs
    where p: "ctx_at w p = None"
      and len: "length (cx_socket c0) = length xs" "length refs = length xs"
      and fresh: "fresh_refs (cref # refs) (w_registry w)"
      and run: "lua_select_module_select E fuel L w =
        mseq (for_each [0..<length xs] (\<lambda>i _. select_install_socket E L (Some p) (Some r) i) ())
               (mseq (select_arm E (Some p) (Some r) (Some co) timeout) (myield 0))
               (scanned p (scanned_ctx w r xs refs cref c0) xs refs cref w)"
    unfolding Let_def if_not_P[OF idle] by blast
  let ?c = "scanned_ctx w r xs refs cref c0"
  let ?w2 = "scanned p ?c xs refs cref w"
  obtain q a conn where q: "w_reqs w r = Some q" "rq_connection q = Some a" "w_conns w a = Some conn"
    using call by (auto simp: accepted_call_def in_request_def request_ok_def)
  from call have es: "check_entries E w r es = Inr xs" by (simp add: accepted_call_def)
  have slots: "\<forall>s \<in> set (cx_socket ?c). tcp_slot ?w2 s"
    using tcp_slot_scanned[OF es len(2,1)] by (simp add: scanned_ctx_def tcp_slot_def)
  let ?w3 = "installed p r (length xs) ?c q ?w2"
  have loop: "for_each [0..<length xs] (\<lambda>i _. select_install_socket E L (Some p) (Some r) i) () ?w2
      = (Val (), ?w3)"
    by (rule install_loop) (use q len slots in \<open>simp_all add: scanned_ctx_def\<close>)
  have "ctx_at ?w3 p = Some (installed_ctx ?w2 q (length xs) ?c)" by (rule installed_simps)
  moreover have "request_ok ?w3 r"
    using q by (simp add: request_ok_def installed_simps hook_req_def)
      (simp add: installed_def scanned_def Let_def)
  moreover have "w_coctxs ?w3 = w_coctxs w" by (simp add: installed_def scanned_def Let_def)
  ultimately show ?thesis
    using p len fresh run loop q(1)
    by (intro exI[of _ p] exI[of _ c0] exI[of _ cref] exI[of _ refs]) (simp add: run_simps Let_def)
qed

theorem select_idle_yields:
  assumes call: "accepted_call E fuel L w r co es timeout xs" and con: "connected w xs"
    and idle: "\<not> (\<exists>x \<in> set xs. readable w (fst (snd x)))" and wait: "can_wait w co timeout"
  shows "\<exists>p c0 cref refs. ctx_at w p = None \<and> length (cx_socket c0) = length xs \<and>
    length refs = length xs \<and> fresh_refs (cref # refs) (w_registry w) \<and>
    lua_select_module_select E fuel L w = (Yield 0, waiting r co timeout xs p c0 cref refs w)"
proof -
  obtain p c0 cref refs where p: "ctx_at w p = None" and len: "length (cx_socket c0) = length xs"
      "length refs = length xs" and fresh: "fresh_refs (cref # refs) (w_registry w)"
    and run: "let c = scanned_ctx w r xs refs cref c0;
         w3 = installed p r (length xs) c (the (w_reqs w r)) (scanned p c xs refs cref w) in
     lua_select_module_select E fuel L w =
       mseq (select_arm E (Some p) (Some r) (Some co) timeout) (myield 0) w3 \<and>
     ctx_at w3 p \<noteq> None \<and> request_ok w3 r \<and> w_coctxs w3 = w_coctxs w"
    using select_installed[OF call con idle] by blast
  let ?w3 = "installed p r (length xs) (scanned_ctx w r xs refs cref c0) (the (w_reqs w r))
      (scanned p (scanned_ctx w r xs refs cref c0) xs refs cref w)"
  from run obtain c where c: "ctx_at ?w3 p = Some c" by (auto simp: Let_def)
  have "can_wait ?w3 co timeout" using wait run by (simp add: can_wait_def Let_def)
  with run c have "select_arm E (Some p) (Some r) (Some co) timeout ?w3
      = (Val (), armed p r co timeout ?w3)"
    by (intro select_arm_run) (simp_all add: Let_def)
  with p len fresh run show ?thesis
    by (intro exI[of _ p] exI[of _ c0] exI[of _ cref] exI[of _ refs])
      (simp add: run_simps waiting_def Let_def)
qed

text \<open>A timeout that the C type cannot hold: the conversion of the double is undefined.\<close>

lemma select_timeout_undefined:
  assumes call: "accepted_call E fuel L w r co es timeout xs" and con: "connected w xs"
    and idle: "\<not> (\<exists>x \<in> set xs. readable w (fst (snd x)))"
    and big: "lua_number_pos timeout" "lua_number_to_msec timeout = None"
  shows "fst (lua_select_module_select E fuel L w) = Fault Undefined_conversion"
proof -
  obtain w3 p where run: "lua_select_module_select E fuel L w =
       mseq (select_arm E (Some p) (Some r) (Some co) timeout) (myield 0) w3"
    and ok: "ctx_at w3 p \<noteq> None" "request_ok w3 r"
    using select_installed[OF call con idle] unfolding Let_def by blast
  from ok obtain c q a conn where "ctx_at w3 p = Some c" "w_reqs w3 r = Some q"
    "rq_connection q = Some a" "w_conns w3 a = Some conn"
    by (auto simp: request_ok_def)
  with big show ?thesis
    unfolding run by (simp add: select_arm_def select_start_timer_def run_simps)
qed

end

section \<open>The state in which the coroutine waits\<close>

definition waiting_slots ::
  "world \<Rightarrow> addr \<Rightarrow> (32 word \<times> addr \<times> lval) list \<Rightarrow> int list \<Rightarrow> ngx_lua_select_ctx \<Rightarrow>
    ngx_lua_select_socket list" where
  "waiting_slots w r xs refs c0 = scan_slots w r xs refs (cx_socket c0)"

definition waiting_ctx ::
  "addr \<Rightarrow> addr \<Rightarrow> lua_number \<Rightarrow> (32 word \<times> addr \<times> lval) list \<Rightarrow> ngx_lua_select_ctx \<Rightarrow> int \<Rightarrow>
    int list \<Rightarrow> world \<Rightarrow> ngx_lua_select_ctx" where
  "waiting_ctx r co timeout xs c0 cref refs w =
     (let q = the (w_reqs w r); conn = the (w_conns w (the (rq_connection q))) in
      armed_ctx r co (cn_log conn) timeout
        (installed_ctx w q (length xs) (scanned_ctx w r xs refs cref c0)))"

lemma installed_slots_ups: "w_ups w' = w_ups w \<Longrightarrow> installed_slots w' pre ss = installed_slots w pre ss"
  by (induction ss arbitrary: pre) (simp_all add: installed_slot_def)

lemma installed_ctx_ups: "w_ups w' = w_ups w \<Longrightarrow> installed_ctx w' = installed_ctx w"
  by (simp add: installed_ctx_def fun_eq_iff installed_slots_ups[of w' w])

lemma waiting_frame [simp]:
  "w_stack (waiting r co timeout xs p c0 cref refs w) = w_stack w"
  "w_tables (waiting r co timeout xs p c0 cref refs w) = w_tables w"
  "table_at (waiting r co timeout xs p c0 cref refs w) = table_at w"
  "w_meta (waiting r co timeout xs p c0 cref refs w) = w_meta w"
  "w_conns (waiting r co timeout xs p c0 cref refs w) = w_conns w"
  "w_udps (waiting r co timeout xs p c0 cref refs w) = w_udps w"
  "w_sctxs (waiting r co timeout xs p c0 cref refs w) = w_sctxs w"
  "w_posted (waiting r co timeout xs p c0 cref refs w) = w_posted w"
  "w_kernel (waiting r co timeout xs p c0 cref refs w) = w_kernel w"
  "w_log (waiting r co timeout xs p c0 cref refs w) = w_log w"
  "w_registry (waiting r co timeout xs p c0 cref refs w)
    = scan_refs xs refs ((cref, LUserdata p) # w_registry w)"
  by (simp_all add: waiting_def armed_def installed_def scanned_def Let_def)

lemma waiting_heaps:
  assumes "w_reqs w r = Some q" and "length refs = length xs" and "length (cx_socket c0) = length xs"
  shows "ctx_at (waiting r co timeout xs p c0 cref refs w)
      = (ctx_at w)(p \<mapsto> waiting_ctx r co timeout xs c0 cref refs w)"
    and "w_ups (waiting r co timeout xs p c0 cref refs w) a
      = map_option (hook_up (waiting_slots w r xs refs c0) a) (w_ups w a)"
    and "w_reqs (waiting r co timeout xs p c0 cref refs w)
      = (w_reqs w)(r \<mapsto> (hook_req (waiting_slots w r xs refs c0) q)
          \<lparr>rq_ctx := (rq_ctx q)(Mod_select := Some p)\<rparr>)"
    and "w_coctxs (waiting r co timeout xs p c0 cref refs w)
      = (w_coctxs w)(co \<mapsto> (the (w_coctxs w co))\<lparr>co_cleanup := Fn_cleanup, co_data := Some r\<rparr>)"
proof -
  let ?c = "scanned_ctx w r xs refs cref c0"
  have conn: "w_conns (installed p r k c q' (scanned p c' xs refs cref w)) = w_conns w" for k c q' c'
    by (simp add: installed_def scanned_def Let_def)
  have tk: "take (length xs) (cx_socket ?c) = waiting_slots w r xs refs c0"
    using assms(2,3) by (simp add: scanned_ctx_def waiting_slots_def)
  have iw: "installed_ctx (scanned p c' xs refs cref w) = installed_ctx w" for c'
    by (rule installed_ctx_ups) simp
  show "ctx_at (waiting r co timeout xs p c0 cref refs w)
      = (ctx_at w)(p \<mapsto> waiting_ctx r co timeout xs c0 cref refs w)"
    using assms(1)
    by (simp add: waiting_def waiting_ctx_def armed_def Let_def installed_simps conn iw hook_req_def)
      (simp add: installed_def Let_def)
  show "w_ups (waiting r co timeout xs p c0 cref refs w) a
      = map_option (hook_up (waiting_slots w r xs refs c0) a) (w_ups w a)"
    by (simp add: waiting_def armed_def Let_def installed_simps tk)
  show "w_reqs (waiting r co timeout xs p c0 cref refs w)
      = (w_reqs w)(r \<mapsto> (hook_req (waiting_slots w r xs refs c0) q)
          \<lparr>rq_ctx := (rq_ctx q)(Mod_select := Some p)\<rparr>)"
    using assms(1)
    by (simp add: waiting_def armed_def Let_def installed_simps tk hook_req_def)
      (simp add: installed_def scanned_def Let_def)
  show "w_coctxs (waiting r co timeout xs p c0 cref refs w)
      = (w_coctxs w)(co \<mapsto> (the (w_coctxs w co))\<lparr>co_cleanup := Fn_cleanup, co_data := Some r\<rparr>)"
    by (simp add: waiting_def armed_def Let_def) (simp add: installed_def scanned_def Let_def)
qed

end
