(* ===== verification/Select_Events.thy ===== *)
theory Select_Events
  imports Select_Start
begin

unbundle bit_operations_syntax

text \<open>
  What happens after the yield (\<open>src/ngx_stream_lua_select_module.c\<close>): the five event
  handlers, which only queue the completion event, the handler of that event, and the function
  that collects the ready sockets, gives the sockets' handlers back and resumes the coroutine.
\<close>

section \<open>The code\<close>

text \<open>An event that a handler gets a pointer to.\<close>

definition load_event :: "event_ref \<Rightarrow> ngx_event cfun" where
  "load_event e =
     mbind (rd (\<lambda>w. event_at w e)) (\<lambda>v.
     case v of None \<Rightarrow> mfault Dangling_deref | Some ev \<Rightarrow> mret ev)"

definition ngx_stream_lua_select_socket_event_activated :: "env \<Rightarrow> ptr \<Rightarrow> unit cfun" where
  "ngx_stream_lua_select_socket_event_activated E r =
     mbind (ngx_stream_lua_get_module_ctx E r Mod_select) (\<lambda>ctx.
     mbind (load ctx_at ctx) (\<lambda>c.
     mwhen (\<not> ev_posted (cx_post_completion_ev c))
       (act (ngx_post_event E (Completion_of (the ctx))))))"

definition ngx_stream_lua_select_timeout_handler :: "env \<Rightarrow> event_ref \<Rightarrow> unit cfun" where
  "ngx_stream_lua_select_timeout_handler E ev =
     mbind (load_event ev) (\<lambda>v. ngx_stream_lua_select_socket_event_activated E (ev_data v))"

definition ngx_stream_lua_select_socket_write_upstream_handler ::
  "env \<Rightarrow> ptr \<Rightarrow> ptr \<Rightarrow> unit cfun" where
  "ngx_stream_lua_select_socket_write_upstream_handler E r up =
     ngx_stream_lua_select_socket_event_activated E r"

definition ngx_stream_lua_select_socket_read_upstream_handler ::
  "env \<Rightarrow> ptr \<Rightarrow> ptr \<Rightarrow> unit cfun" where
  "ngx_stream_lua_select_socket_read_upstream_handler E r up =
     ngx_stream_lua_select_socket_event_activated E r"

definition ngx_stream_lua_select_socket_write_request_handler :: "env \<Rightarrow> ptr \<Rightarrow> unit cfun" where
  "ngx_stream_lua_select_socket_write_request_handler E r =
     ngx_stream_lua_select_socket_event_activated E r"

definition ngx_stream_lua_select_socket_read_request_handler :: "env \<Rightarrow> ptr \<Rightarrow> unit cfun" where
  "ngx_stream_lua_select_socket_read_request_handler E r =
     ngx_stream_lua_select_socket_event_activated E r"

text \<open>One round of the loop of \<open>ngx_stream_lua_select_resume\<close>: what is ready.\<close>

definition resume_mark_socket :: "ptr \<Rightarrow> nat \<Rightarrow> unit cfun" where
  "resume_mark_socket ctx i =
     mbind (socket_at ctx i) (\<lambda>s.
     let c = sk_connection s in
     mbind (if rw_has (sk_rw s) NGX_LUA_SELECT_READ
            then mbind (load w_conns c) (\<lambda>conn. mret (ev_ready (cn_read conn)))
            else mret False) (\<lambda>ready.
     mseq (mwhen ready (upd_socket ctx i (\<lambda>s. s\<lparr>sk_read_ready := True\<rparr>))) (
     mbind (if rw_has (sk_rw s) NGX_LUA_SELECT_WRITE
            then mbind (load w_conns c) (\<lambda>conn. mret (ev_ready (cn_write conn)))
            else mret False) (\<lambda>ready.
     mwhen ready (upd_socket ctx i (\<lambda>s. s\<lparr>sk_write_ready := True\<rparr>))))))"

text \<open>The end of \<open>ngx_stream_lua_select_resume\<close>: the coroutine runs, then its result is handled.\<close>

definition resume_thread :: "env \<Rightarrow> thread \<Rightarrow> ptr \<Rightarrow> ptr \<Rightarrow> int \<Rightarrow> int cfun" where
  "resume_thread E L r streamctx retcount =
     mbind (load w_reqs r) (\<lambda>q.
     let c = rq_connection q in
     mbind (load w_conns c) (\<lambda>conn.
     let nreqs = cn_requests conn in
     mbind (ngx_stream_lua_run_thread E L r streamctx retcount) (\<lambda>rc.
     if rc = NGX_AGAIN then ngx_stream_lua_run_posted_threads E c L r streamctx nreqs
     else if rc = NGX_DONE then
       mseq (ngx_stream_lua_finalize_request E r NGX_DONE)
         (ngx_stream_lua_run_posted_threads E c L r streamctx nreqs)
     else
       mbind (load w_sctxs streamctx) (\<lambda>sc.
       if sc_entered_content_phase sc then
         mseq (ngx_stream_lua_finalize_request E r rc) (mret NGX_DONE)
       else mret rc))))"

definition ngx_stream_lua_select_resume :: "env \<Rightarrow> ptr \<Rightarrow> int cfun" where
  "ngx_stream_lua_select_resume E r =
     mbind (ngx_stream_lua_get_module_ctx E r Mod_select) (\<lambda>ctx.
     mbind (ngx_stream_lua_get_module_ctx E r Mod_stream_lua) (\<lambda>streamctx.
     mbind (rd (ngx_stream_lua_get_lua_vm E r streamctx)) (\<lambda>L.
     mbind (load w_sctxs streamctx) (\<lambda>sc.
     mbind (load w_coctxs (sc_cur_co_ctx sc)) (\<lambda>co.
     let coroL = co_co co in
     mseq (store w_sctxs put_sctx streamctx (\<lambda>sc. sc\<lparr>sc_resume_handler := Fn_wev_handler\<rparr>)) (
     mseq (act (lua_createtable E coroL 1 1)) (
     mbind (load ctx_at ctx) (\<lambda>c.
     mseq (for_each [0..<cx_count c] (\<lambda>i _. resume_mark_socket ctx i) ()) (
     mbind (ngx_lua_select_push_result E coroL ctx) (\<lambda>retcount.
     mseq (ngx_stream_lua_select_ctx_cleanup_and_discard E r)
       (resume_thread E L r streamctx retcount)))))))))))"

definition ngx_stream_lua_select_post_completion_handler :: "env \<Rightarrow> event_ref \<Rightarrow> unit cfun" where
  "ngx_stream_lua_select_post_completion_handler E ev =
     mbind (load_event ev) (\<lambda>v.
     let r = ev_data v in
     mbind (ngx_stream_lua_get_module_ctx E r Mod_select) (\<lambda>ctx.
     mbind (load ctx_at ctx) (\<lambda>c.
     mseq (c_assert (r = cx_r c)) (
     let coctx = cx_coctx c in
     mbind (ngx_stream_lua_get_module_ctx E r Mod_stream_lua) (\<lambda>streamctx.
     if streamctx = None then mret ()
     else
       mseq (store w_coctxs put_coctx coctx (\<lambda>x. x\<lparr>co_cleanup := Fn_NULL\<rparr>)) (
       mseq (store w_sctxs put_sctx streamctx (\<lambda>sc. sc\<lparr>sc_cur_co_ctx := coctx\<rparr>)) (
       mbind (load w_sctxs streamctx) (\<lambda>sc.
       if sc_entered_content_phase sc then
         mseq (ngx_stream_lua_select_resume E r) (mret ())
       else
         mseq (store w_sctxs put_sctx streamctx (\<lambda>sc. sc\<lparr>sc_resume_handler := Fn_resume\<rparr>))
           (ngx_stream_lua_core_run_phases E r)))))))))"

section \<open>The handlers\<close>

text \<open>What an activation does: the completion event is queued unless it already is.\<close>

definition activate :: "addr \<Rightarrow> ngx_lua_select_ctx \<Rightarrow> world \<Rightarrow> world" where
  "activate p c w =
     (if ev_posted (cx_post_completion_ev c) then w
      else put_ctx p (c\<lparr>cx_post_completion_ev := (cx_post_completion_ev c)\<lparr>ev_posted := True\<rparr>\<rparr>)
             (w\<lparr>w_posted := w_posted w @ [Completion_of p]\<rparr>))"

text \<open>The request has the context \<open>c\<close> at \<open>p\<close> as its select in progress.\<close>

definition selecting :: "world \<Rightarrow> addr \<Rightarrow> addr \<Rightarrow> ngx_lua_select_ctx \<Rightarrow> bool" where
  "selecting w r p c \<longleftrightarrow>
     (\<exists>q. w_reqs w r = Some q \<and> rq_ctx q Mod_select = Some p) \<and> ctx_at w p = Some c"

definition not_selecting :: "world \<Rightarrow> addr \<Rightarrow> bool" where
  "not_selecting w r \<longleftrightarrow> (\<exists>q. w_reqs w r = Some q \<and> rq_ctx q Mod_select = None)"

context process_api begin

lemma event_activated_run:
  assumes "selecting w r p c"
  shows "ngx_stream_lua_select_socket_event_activated E (Some r) w = (Val (), activate p c w)"
  using assms
  by (auto simp: selecting_def ngx_stream_lua_select_socket_event_activated_def get_module_ctx
      activate_def run_simps post_event)

lemma event_activated_null:
  assumes "not_selecting w r"
  shows "ngx_stream_lua_select_socket_event_activated E (Some r) w = (Fault Null_deref, w)"
  using assms
  by (auto simp: not_selecting_def ngx_stream_lua_select_socket_event_activated_def get_module_ctx
      run_simps)

lemmas handler_defs = ngx_stream_lua_select_timeout_handler_def
  ngx_stream_lua_select_socket_write_upstream_handler_def
  ngx_stream_lua_select_socket_read_upstream_handler_def
  ngx_stream_lua_select_socket_write_request_handler_def
  ngx_stream_lua_select_socket_read_request_handler_def

lemma activate_again:
  assumes "selecting w r p c"
  shows "\<exists>c'. selecting (activate p c w) r p c' \<and> ev_posted (cx_post_completion_ev c') \<and>
    activate p c' (activate p c w) = activate p c w"
  using assms by (auto simp: selecting_def activate_def)

end

section \<open>What is ready\<close>

text \<open>The ready flags of the connection of a socket, and the slot after the loop.\<close>

definition conn_ready :: "(ngx_connection \<Rightarrow> ngx_event) \<Rightarrow> world \<Rightarrow> ngx_lua_select_socket \<Rightarrow> bool" where
  "conn_ready f w s =
     (case sk_connection s of None \<Rightarrow> False
      | Some a \<Rightarrow> (case w_conns w a of None \<Rightarrow> False | Some conn \<Rightarrow> ev_ready (f conn)))"

definition marked :: "world \<Rightarrow> ngx_lua_select_socket \<Rightarrow> ngx_lua_select_socket" where
  "marked w s =
     s\<lparr>sk_read_ready := sk_read_ready s \<or> wants_read s \<and> conn_ready cn_read w s,
       sk_write_ready := sk_write_ready s \<or> wants_write s \<and> conn_ready cn_write w s\<rparr>"

lemma conn_ready_put_ctx [simp]: "conn_ready f (put_ctx p c w) = conn_ready f w"
  by (simp add: conn_ready_def fun_eq_iff cong: option.case_cong)

lemma marked_frame [simp]:
  "marked (put_ctx p c w) = marked w"
  "sk_lua_socket_ref (marked w s) = sk_lua_socket_ref s" "sk_type (marked w s) = sk_type s"
  "sk_up (marked w s) = sk_up s" "sk_connection (marked w s) = sk_connection s"
  "sk_prev_upstream_read_handler (marked w s) = sk_prev_upstream_read_handler s"
  "sk_prev_upstream_write_handler (marked w s) = sk_prev_upstream_write_handler s"
  "is_up a (marked w s) = is_up a s" "is_down (marked w s) = is_down s"
  by (simp_all add: marked_def fun_eq_iff is_up_def is_down_def)

lemma discard_effect_marked [simp]: "discard_effect r c (marked w s) = discard_effect r c s"
  by (auto simp: fun_eq_iff discard_effect_def Let_def
      split: ngx_lua_select_socktype_t.split option.split)

lemma discardable_marked [simp]: "discardable v c (marked w s) = discardable v c s"
  by (simp add: discardable_def)

lemma resume_mark_socket_run:
  assumes c: "ctx_at w p = Some c" "i < length (cx_socket c)" "s = cx_socket c ! i"
    and conn: "sk_connection s = Some a" "w_conns w a = Some conn"
  shows "resume_mark_socket (Some p) i w =
    (Val (), put_ctx p (c\<lparr>cx_socket := (cx_socket c)[i := marked w s]\<rparr>) w)"
proof -
  define rr where "rr = (rw_has (sk_rw s) NGX_LUA_SELECT_READ \<and> ev_ready (cn_read conn))"
  define wr where "wr = (rw_has (sk_rw s) NGX_LUA_SELECT_WRITE \<and> ev_ready (cn_write conn))"
  have r: "(if rw_has (sk_rw s) NGX_LUA_SELECT_READ
            then mbind (load w_conns (sk_connection s)) (\<lambda>conn. mret (ev_ready (cn_read conn)))
            else mret False) v = (Val rr, v)" if "w_conns v a = Some conn" for v
    using that by (simp add: rr_def run_simps conn)
  have w: "(if rw_has (sk_rw s) NGX_LUA_SELECT_WRITE
            then mbind (load w_conns (sk_connection s)) (\<lambda>conn. mret (ev_ready (cn_write conn)))
            else mret False) v = (Val wr, v)" if "w_conns v a = Some conn" for v
    using that by (simp add: wr_def run_simps conn)
  have m: "marked w s = s\<lparr>sk_read_ready := sk_read_ready s \<or> rr,
                          sk_write_ready := sk_write_ready s \<or> wr\<rparr>"
    by (simp add: marked_def wants_read_def wants_write_def conn_ready_def conn rr_def wr_def)
  have id: "cx_socket c ! i = s" using c by simp
  have sock: "socket_at (Some p) i w = (Val s, w)" using c by (simp add: run_simps)
  have same: "(cx_socket c)[i := s] = cx_socket c" using c by simp
  let ?s1 = "s\<lparr>sk_read_ready := sk_read_ready s \<or> rr\<rparr>"
  let ?w1 = "put_ctx p (c\<lparr>cx_socket := (cx_socket c)[i := ?s1]\<rparr>) w"
  let ?rest = "mbind (if rw_has (sk_rw s) NGX_LUA_SELECT_WRITE
      then mbind (load w_conns (sk_connection s)) (\<lambda>conn. mret (ev_ready (cn_write conn)))
      else mret False)
    (\<lambda>ready. mwhen ready (upd_socket (Some p) i (\<lambda>s. s\<lparr>sk_write_ready := True\<rparr>)))"
  have "resume_mark_socket (Some p) i w
    = mseq (mwhen rr (upd_socket (Some p) i (\<lambda>s. s\<lparr>sk_read_ready := True\<rparr>))) ?rest w"
    by (simp only: resume_mark_socket_def Let_def mbind_run(1) sock r[OF conn(2)])
  also have "\<dots> = ?rest ?w1"
    using c(1,2) by (cases rr) (simp_all add: run_simps id same ctxs.put_same[OF c(1)])
  also have "\<dots> = mwhen wr (upd_socket (Some p) i (\<lambda>s. s\<lparr>sk_write_ready := True\<rparr>)) ?w1"
    by (simp only: mbind_run(1) w put_ctx_frame conn(2))
  also have "\<dots> = (Val (), put_ctx p (c\<lparr>cx_socket := (cx_socket c)[i := marked w s]\<rparr>) w)"
    using c(1,2) by (cases wr) (simp_all add: run_simps m)
  finally show ?thesis .
qed

lemma resume_mark_loop:
  assumes c: "ctx_at w p = Some c" and live: "conns_live w (cx_socket c)"
    and n: "n = length (cx_socket c)"
  shows "for_each [0..<n] (\<lambda>i _. resume_mark_socket (Some p) i) () w =
    (Val (), put_ctx p (c\<lparr>cx_socket := map (marked w) (cx_socket c)\<rparr>) w)"
proof -
  let ?ss = "cx_socket c"
  let ?W = "\<lambda>k. put_ctx p (c\<lparr>cx_socket := map (marked w) (take k ?ss) @ drop k ?ss\<rparr>) w"
  have "\<exists>u w'. for_each [0..<n] (\<lambda>i _. resume_mark_socket (Some p) i) () w = (Val u, w')
      \<and> w' = ?W (length [0..<n])"
  proof (rule for_each_invariant)
    show "w = ?W 0" using c by (simp add: ctxs.put_same)
  next
    fix k and u :: unit and w' assume k: "k < length [0..<n]" and w': "w' = ?W k"
    then have i: "k < length ?ss" and nth: "[0..<n] ! k = k" using n by simp_all
    let ?c = "c\<lparr>cx_socket := map (marked w) (take k ?ss) @ drop k ?ss\<rparr>"
    obtain a conn where conn: "sk_connection (?ss ! k) = Some a" "w_conns w a = Some conn"
      using live nth_mem[OF i] by (auto simp: conns_live_def)
    have "resume_mark_socket (Some p) k w' =
      (Val (), put_ctx p (?c\<lparr>cx_socket := (cx_socket ?c)[k := marked w' (?ss ! k)]\<rparr>) w')"
      by (rule resume_mark_socket_run[OF _ _ _ conn(1)])
        (use w' i conn in \<open>simp_all add: nth_append\<close>)
    moreover have "(map (marked w) (take k ?ss) @ drop k ?ss)[k := marked w (?ss ! k)]
        = map (marked w) (take (Suc k) ?ss) @ drop (Suc k) ?ss"
      using i by (simp add: list_update_append take_Suc_conv_app_nth Cons_nth_drop_Suc[symmetric])
    ultimately show "\<exists>u' w''. resume_mark_socket (Some p) ([0..<n] ! k) w' = (Val u', w'')
        \<and> w'' = ?W (Suc k)"
      using w' nth by simp
  qed
  then show ?thesis using n by auto
qed

section \<open>The resumption\<close>

text \<open>The context after the loop, and the values the coroutine is given.\<close>

definition marked_ctx :: "world \<Rightarrow> ngx_lua_select_ctx \<Rightarrow> ngx_lua_select_ctx" where
  "marked_ctx w c = c\<lparr>cx_socket := map (marked w) (cx_socket c)\<rparr>"

definition result_values :: "addr \<Rightarrow> bool \<Rightarrow> (lval \<times> string) list \<Rightarrow> lval list" where
  "result_values a timedout rs =
     (if rs = [] \<and> timedout then [LStr ''timeout'', LNil] else [LTable a])"

text \<open>A request that can be resumed: its contexts and its coroutine exist.\<close>

definition resumable ::
  "world \<Rightarrow> addr \<Rightarrow> addr \<Rightarrow> ngx_lua_select_ctx \<Rightarrow> addr \<Rightarrow> addr \<Rightarrow> co_ctx \<Rightarrow> bool" where
  "resumable w r p c sa ca co \<longleftrightarrow>
     ctx_at w p = Some c \<and> cx_count c = length (cx_socket c) \<and> conns_live w (cx_socket c) \<and>
     refs_live (w_registry w) (cx_socket c) \<and>
     (\<exists>q. w_reqs w r = Some q \<and> rq_ctx q Mod_select = Some p \<and> rq_ctx q Mod_stream_lua = Some sa) \<and>
     (\<exists>sc. w_sctxs w sa = Some sc \<and> sc_cur_co_ctx sc = Some ca) \<and> w_coctxs w ca = Some co"

lemma marked_ctx_simps [simp]:
  "cx_count (marked_ctx w c) = cx_count c" "cx_ref (marked_ctx w c) = cx_ref c"
  "cx_socket (marked_ctx w c) = map (marked w) (cx_socket c)"
  "cx_timer (marked_ctx w c) = cx_timer c"
  "cx_prev_request_read_handler (marked_ctx w c) = cx_prev_request_read_handler c"
  by (simp_all add: marked_ctx_def)

lemma refs_live_marked: "refs_live reg (map (marked w) ss) \<longleftrightarrow> refs_live reg ss"
  by (simp add: refs_live_def)

lemma discardable_marked_ctx [simp]: "discardable v (marked_ctx w c) s = discardable v c s"
  by (simp add: discardable_def)

text \<open>The content phase begins: nginx sets the flag in the Lua module's context \<open>sa\<close>.\<close>

definition enter_content_phase :: "addr \<Rightarrow> world \<Rightarrow> world" where
  "enter_content_phase sa w =
     (case w_sctxs w sa of None \<Rightarrow> w
      | Some sc \<Rightarrow> put_sctx sa (sc\<lparr>sc_entered_content_phase := True\<rparr>) w)"

text \<open>The VM of a request does not depend on its resume handler.\<close>

definition vm_ignores_handler :: "env \<Rightarrow> addr \<Rightarrow> addr \<Rightarrow> bool" where
  "vm_ignores_handler E r sa \<longleftrightarrow>
     (\<forall>w sc f. w_sctxs w sa = Some sc \<longrightarrow>
        ngx_stream_lua_get_lua_vm E (Some r) (Some sa) (put_sctx sa (sc\<lparr>sc_resume_handler := f\<rparr>) w)
        = ngx_stream_lua_get_lua_vm E (Some r) (Some sa) w)"

lemma vm_ignores_handlerD:
  "vm_ignores_handler E r sa \<Longrightarrow> w_sctxs w sa = Some sc \<Longrightarrow>
    ngx_stream_lua_get_lua_vm E (Some r) (Some sa) (put_sctx sa (sc\<lparr>sc_resume_handler := f\<rparr>) w)
    = ngx_stream_lua_get_lua_vm E (Some r) (Some sa) w"
  by (simp add: vm_ignores_handler_def)

context process_api begin

text \<open>The resumption overwrites the handler it was called through before anything reads it.\<close>

lemma resume_ignores_handler:
  assumes vm: "vm_ignores_handler E r sa"
    and q: "w_reqs w r = Some q" "rq_ctx q Mod_stream_lua = Some sa" "w_sctxs w sa = Some sc"
    and co: "sc_cur_co_ctx sc = Some ca" "w_coctxs w ca = Some x"
  shows "ngx_stream_lua_select_resume E (Some r) (put_sctx sa (sc\<lparr>sc_resume_handler := f\<rparr>) w)
    = ngx_stream_lua_select_resume E (Some r) w"
  using q co
  by (simp add: ngx_stream_lua_select_resume_def run_simps get_module_ctx Let_def
      vm_ignores_handlerD[OF vm])

text \<open>As far as the discard of the context.\<close>

lemma resume_to_discard:
  assumes ok: "resumable w r p c sa ca co"
  shows "\<exists>a1 a2 t w1.
    (let rs = ready_list (w_registry w) (map (marked w) (cx_socket c));
         vals = result_values a2 (ev_timedout (cx_timer c)) rs in
     wf_table t \<and> map_of t = result_map 0 Map.empty rs \<and>
     ngx_stream_lua_select_resume E (Some r) w =
       mseq (ngx_stream_lua_select_ctx_cleanup_and_discard E (Some r))
         (resume_thread E (ngx_stream_lua_get_lua_vm E (Some r) (Some sa) w) (Some r) (Some sa)
           (int (length vals))) w1 \<and>
     table_at w1 a2 = Some t \<and> table_at w a1 = None \<and> table_at w a2 = None \<and> a1 \<noteq> a2 \<and>
     w_stack w1 = (w_stack w)(co_co co := vals @ LTable a1 # w_stack w (co_co co)) \<and>
     w_registry w1 = w_registry w \<and> w_reqs w1 = w_reqs w \<and> w_ups w1 = w_ups w \<and>
     w_conns w1 = w_conns w \<and> w_posted w1 = w_posted w \<and> w_coctxs w1 = w_coctxs w \<and>
     ctx_at w1 = (ctx_at w)(p \<mapsto> marked_ctx w c))"
proof -
  let ?L = "co_co co" and ?c = "marked_ctx w c"
  from ok obtain q sc where c: "ctx_at w p = Some c" "cx_count c = length (cx_socket c)"
    and live: "conns_live w (cx_socket c)" and refs: "refs_live (w_registry w) (cx_socket c)"
    and q: "w_reqs w r = Some q" "rq_ctx q Mod_select = Some p" "rq_ctx q Mod_stream_lua = Some sa"
    and sc: "w_sctxs w sa = Some sc" "sc_cur_co_ctx sc = Some ca" "w_coctxs w ca = Some co"
    by (auto simp: resumable_def)
  let ?w1 = "put_sctx sa (sc\<lparr>sc_resume_handler := Fn_wev_handler\<rparr>) w"
  obtain a1 where a1: "table_at ?w1 a1 = None" and new: "lua_createtable E ?L 1 1 ?w1
      = set_stack ?L (LTable a1 # w_stack ?w1 ?L)
          (put_table a1 [] (?w1\<lparr>w_meta := (w_meta ?w1)(a1 := None)\<rparr>))"
    using createtable by blast
  let ?w2 = "set_stack ?L (LTable a1 # w_stack w ?L)
          (put_table a1 [] (?w1\<lparr>w_meta := (w_meta w)(a1 := None)\<rparr>))"
  have new': "lua_createtable E ?L 1 1 ?w1 = ?w2" using new by simp
  have mk: "marked ?w2 = marked w"
    by (simp add: marked_def conn_ready_def fun_eq_iff cong: option.case_cong)
  have loop: "for_each [0..<cx_count c] (\<lambda>i _. resume_mark_socket (Some p) i) () ?w2
      = (Val (), put_ctx p ?c ?w2)"
    using resume_mark_loop[of ?w2 p c "cx_count c"] c live
    by (simp add: conns_live_def mk marked_ctx_def)
  let ?w3 = "put_ctx p ?c ?w2"
  let ?rs = "ready_list (w_registry w) (map (marked w) (cx_socket c))"
  obtain a2 t where a2: "table_at ?w3 a2 = None" and t: "wf_table t"
      "map_of t = result_map 0 Map.empty ?rs"
    and push: "ngx_lua_select_push_result E ?L (Some p) ?w3 =
      (let w' = put_table a2 t (?w3\<lparr>w_meta := (w_meta ?w3)(a2 := None)\<rparr>) in
       if ?rs = [] \<and> ev_timedout (cx_timer c)
       then (Val 2, set_stack ?L (LStr ''timeout'' # LNil # w_stack ?w3 ?L) w')
       else (Val 1, set_stack ?L (LTable a2 # w_stack ?w3 ?L) w'))"
    using push_result_run[of ?w3 p ?c ?L] c refs by (auto simp: refs_live_marked)
  define vals where "vals = result_values a2 (ev_timedout (cx_timer c)) ?rs"
  define w4 where "w4 = set_stack ?L (vals @ LTable a1 # w_stack w ?L)
      (put_table a2 t (?w3\<lparr>w_meta := (w_meta ?w3)(a2 := None)\<rparr>))"
  have push': "ngx_lua_select_push_result E ?L (Some p) ?w3 = (Val (int (length vals)), w4)"
    unfolding push by (simp add: Let_def w4_def vals_def result_values_def)
  have w4: "w_registry w4 = w_registry w" "w_reqs w4 = w_reqs w" "w_ups w4 = w_ups w"
    "w_conns w4 = w_conns w" "w_posted w4 = w_posted w" "w_coctxs w4 = w_coctxs w"
    "ctx_at w4 = (ctx_at w)(p \<mapsto> ?c)" "table_at w4 a2 = Some t"
    "w_stack w4 = (w_stack w)(?L := vals @ LTable a1 # w_stack w ?L)"
    by (simp_all add: w4_def fun_eq_iff)
  have run: "ngx_stream_lua_select_resume E (Some r) w =
       mseq (ngx_stream_lua_select_ctx_cleanup_and_discard E (Some r))
         (resume_thread E (ngx_stream_lua_get_lua_vm E (Some r) (Some sa) w) (Some r) (Some sa)
           (int (length vals))) w4"
    using q sc c new' loop push'
    by (simp add: ngx_stream_lua_select_resume_def run_simps get_module_ctx Let_def)
  have "table_at w a1 = None" "table_at w a2 = None" "a1 \<noteq> a2"
    using a1 a2 by (auto split: if_splits)
  then show ?thesis
    using t run w4
    by (intro exI[of _ a1] exI[of _ a2] exI[of _ t] exI[of _ w4]) (simp add: Let_def vals_def)
qed

lemma discardable_cong: "w_ups v = w_ups w \<Longrightarrow> discardable v = discardable w"
  by (simp add: discardable_def fun_eq_iff)

lemma resume_run:
  assumes ok: "resumable w r p c sa ca co" and dis: "ctx_discardable w r p c"
    and q: "w_reqs w r = Some q"
  shows "\<exists>a1 a2 t w1.
    (let rs = ready_list (w_registry w) (map (marked w) (cx_socket c));
         vals = result_values a2 (ev_timedout (cx_timer c)) rs in
     wf_table t \<and> map_of t = result_map 0 Map.empty rs \<and>
     ngx_stream_lua_select_resume E (Some r) w =
       resume_thread E (ngx_stream_lua_get_lua_vm E (Some r) (Some sa) w) (Some r) (Some sa)
         (int (length vals)) (discarded r q p (marked_ctx w c) w1) \<and>
     table_at w1 a2 = Some t \<and> table_at w a1 = None \<and> table_at w a2 = None \<and> a1 \<noteq> a2 \<and>
     w_stack w1 = (w_stack w)(co_co co := vals @ LTable a1 # w_stack w (co_co co)) \<and>
     w_registry w1 = w_registry w \<and> w_reqs w1 = w_reqs w \<and> w_ups w1 = w_ups w \<and>
     w_conns w1 = w_conns w \<and> w_posted w1 = w_posted w \<and> w_coctxs w1 = w_coctxs w)"
proof -
  let ?c = "marked_ctx w c"
  obtain a1 a2 t w1 where
    facts: "let rs = ready_list (w_registry w) (map (marked w) (cx_socket c));
         vals = result_values a2 (ev_timedout (cx_timer c)) rs in
     wf_table t \<and> map_of t = result_map 0 Map.empty rs \<and>
     ngx_stream_lua_select_resume E (Some r) w =
       mseq (ngx_stream_lua_select_ctx_cleanup_and_discard E (Some r))
         (resume_thread E (ngx_stream_lua_get_lua_vm E (Some r) (Some sa) w) (Some r) (Some sa)
           (int (length vals))) w1 \<and>
     table_at w1 a2 = Some t \<and> table_at w a1 = None \<and> table_at w a2 = None \<and> a1 \<noteq> a2 \<and>
     w_stack w1 = (w_stack w)(co_co co := vals @ LTable a1 # w_stack w (co_co co)) \<and>
     w_registry w1 = w_registry w \<and> w_reqs w1 = w_reqs w \<and> w_ups w1 = w_ups w \<and>
     w_conns w1 = w_conns w \<and> w_posted w1 = w_posted w \<and> w_coctxs w1 = w_coctxs w \<and>
     ctx_at w1 = (ctx_at w)(p \<mapsto> ?c)"
    using resume_to_discard[OF ok] by blast
  from facts have same: "w_registry w1 = w_registry w" "w_reqs w1 = w_reqs w" "w_ups w1 = w_ups w"
    "ctx_at w1 = (ctx_at w)(p \<mapsto> ?c)"
    by (simp_all add: Let_def)
  have "ctx_discardable w1 r p ?c"
    using dis by (auto simp: ctx_discardable_def same discardable_cong[of w1 w] comp_def)
  then have "ngx_stream_lua_select_ctx_cleanup_and_discard E (Some r) w1
      = (Val (), discarded r q p ?c w1)"
    by (rule cleanup_and_discard_run) (simp add: same q)
  with facts show ?thesis
    by (intro exI[of _ a1] exI[of _ a2] exI[of _ t] exI[of _ w1]) (simp add: Let_def run_simps)
qed

text \<open>The completion event: the coroutine's cleanup is disarmed and it becomes the current one.\<close>

lemma post_completion_run:
  assumes ev: "event_at w e = Some v" "ev_data v = Some r" and sel: "selecting w r p c"
    and c: "cx_r c = Some r" "cx_coctx c = Some ca" "w_coctxs w ca = Some x"
    and q: "w_reqs w r = Some q" "rq_ctx q Mod_stream_lua = Some sa" "w_sctxs w sa = Some sc"
  shows "ngx_stream_lua_select_post_completion_handler E e w =
    (let w' = put_sctx sa (sc\<lparr>sc_cur_co_ctx := Some ca\<rparr>)
                (put_coctx ca (x\<lparr>co_cleanup := Fn_NULL\<rparr>) w) in
     if sc_entered_content_phase sc
     then mseq (ngx_stream_lua_select_resume E (Some r)) (mret ()) w'
     else ngx_stream_lua_core_run_phases E (Some r)
            (put_sctx sa (sc\<lparr>sc_cur_co_ctx := Some ca, sc_resume_handler := Fn_resume\<rparr>)
              (put_coctx ca (x\<lparr>co_cleanup := Fn_NULL\<rparr>) w)))"
  using assms
  by (auto simp: ngx_stream_lua_select_post_completion_handler_def load_event_def selecting_def
      run_simps get_module_ctx Let_def)

text \<open>Deferred to the content phase, the completion does what it does there at once.\<close>

lemma post_completion_deferred:
  assumes ev: "event_at w e = Some v" "ev_data v = Some r" and sel: "selecting w r p c"
    and c: "cx_r c = Some r" "cx_coctx c = Some ca" "w_coctxs w ca = Some x"
    and q: "w_reqs w r = Some q" "rq_ctx q Mod_stream_lua = Some sa" "w_sctxs w sa = Some sc"
    and early: "\<not> sc_entered_content_phase sc" and vm: "vm_ignores_handler E r sa"
  shows "\<exists>w'. ngx_stream_lua_select_post_completion_handler E e w
      = ngx_stream_lua_core_run_phases E (Some r) w' \<and>
    map_option sc_resume_handler (w_sctxs w' sa) = Some Fn_resume \<and>
    mseq (ngx_stream_lua_select_resume E (Some r)) (mret ()) (enter_content_phase sa w')
      = ngx_stream_lua_select_post_completion_handler E e (enter_content_phase sa w)"
proof -
  let ?sc = "sc\<lparr>sc_cur_co_ctx := Some ca\<rparr>" and ?on = "sc\<lparr>sc_entered_content_phase := True\<rparr>"
  let ?co = "put_coctx ca (x\<lparr>co_cleanup := Fn_NULL\<rparr>)"
  let ?w' = "put_sctx sa (?sc\<lparr>sc_resume_handler := Fn_resume\<rparr>) (?co w)"
  let ?d = "put_sctx sa (?on\<lparr>sc_cur_co_ctx := Some ca\<rparr>) (?co w)"
  have on: "enter_content_phase sa w = put_sctx sa ?on w"
    using q by (simp add: enter_content_phase_def)
  have ev': "event_at (put_sctx sa ?on w) e = Some v" using ev by (cases e) simp_all
  have over: "put_sctx sa s' (?co (put_sctx sa s w)) = put_sctx sa s' (?co w)" for s s'
    by (simp add: heap_defs)
  have direct: "ngx_stream_lua_select_post_completion_handler E e (put_sctx sa ?on w)
      = mseq (ngx_stream_lua_select_resume E (Some r)) (mret ()) ?d"
    by (subst post_completion_run[OF ev' ev(2), where p = p and c = c and ca = ca and x = x
          and q = q and sa = sa and sc = ?on])
      (use sel c q in \<open>simp_all add: selecting_def Let_def over\<close>)
  have "enter_content_phase sa ?w' = put_sctx sa (?on\<lparr>sc_cur_co_ctx := Some ca,
      sc_resume_handler := Fn_resume\<rparr>) ?d"
    by (cases sc) (simp add: enter_content_phase_def)
  then have "ngx_stream_lua_select_resume E (Some r) (enter_content_phase sa ?w')
      = ngx_stream_lua_select_resume E (Some r) ?d"
    using resume_ignores_handler[OF vm, of ?d q "?on\<lparr>sc_cur_co_ctx := Some ca\<rparr>" ca
        "x\<lparr>co_cleanup := Fn_NULL\<rparr>" Fn_resume] q by simp
  then have "mseq (ngx_stream_lua_select_resume E (Some r)) (mret ()) (enter_content_phase sa ?w')
      = ngx_stream_lua_select_post_completion_handler E e (enter_content_phase sa w)"
    by (simp add: on direct mseq_def mbind_def)
  with post_completion_run[OF ev sel c q] early show ?thesis
    by (intro exI[of _ ?w']) simp
qed

lemma post_completion_null:
  assumes ev: "event_at w e = Some v" "ev_data v = Some r" and none: "not_selecting w r"
  shows "ngx_stream_lua_select_post_completion_handler E e w = (Fault Null_deref, w)"
  using assms
  by (auto simp: ngx_stream_lua_select_post_completion_handler_def load_event_def not_selecting_def
      run_simps get_module_ctx Let_def)

end

end
