(* ===== verification/Select_Restore.thy ===== *)
theory Select_Restore
  imports Select_Events
begin

text \<open>
  The way back: what completing or cancelling a select makes of the handlers that its call had
  hooked.  The lemmas compare the state after \<open>ngx_stream_lua_select_ctx_cleanup_and_discard\<close>
  with the state before \<open>lua_select_module_select\<close>.
\<close>

section \<open>The slots of a waiting context\<close>

lemma installed_slot_frame [simp]:
  "sk_type (installed_slot w pre s) = sk_type s" "sk_up (installed_slot w pre s) = sk_up s"
  "sk_lua_socket_ref (installed_slot w pre s) = sk_lua_socket_ref s"
  "sk_readwrite (installed_slot w pre s) = sk_readwrite s"
  "sk_connection (installed_slot w pre s) = sk_connection s"
  "sk_read_ready (installed_slot w pre s) = False" "sk_write_ready (installed_slot w pre s) = False"
  "is_up a (installed_slot w pre s) = is_up a s" "is_down (installed_slot w pre s) = is_down s"
  "wants_read (installed_slot w pre s) = wants_read s"
  "wants_write (installed_slot w pre s) = wants_write s"
  by (simp_all add: installed_slot_def Let_def is_up_def is_down_def wants_read_def wants_write_def
      sk_rw_def)

lemma installed_slots_append:
  "installed_slots w pre (xs @ ys) = installed_slots w pre xs @ installed_slots w (pre @ xs) ys"
  by (induction xs arbitrary: pre) simp_all

lemma map_installed_slots:
  assumes "\<And>pre s. f (installed_slot w pre s) = f s"
  shows "map f (installed_slots w pre ss) = map f ss"
  by (induction ss arbitrary: pre) (simp_all add: assms)

lemma filter_installed_slots:
  assumes "\<And>pre s. P (installed_slot w pre s) = P s" and "filter P ss = []"
  shows "filter P (installed_slots w pre ss) = []"
  using assms(2) by (induction ss arbitrary: pre) (simp_all add: assms(1) split: if_splits)

lemma nth_installed_slots:
  "i < length ss \<Longrightarrow> installed_slots w pre ss ! i = installed_slot w (pre @ take i ss) (ss ! i)"
proof (induction ss arbitrary: pre i)
  case (Cons s ss)
  then show ?case by (cases i) simp_all
qed simp

lemma filter_one_split:
  assumes "filter P ss = [s]"
  obtains pre post where "ss = pre @ s # post" and "P s" and "filter P pre = []" and "filter P post = []"
proof -
  from assms obtain pre post where "ss = pre @ s # post" "\<forall>x \<in> set pre. \<not> P x" "P s"
    "filter P post = []"
    by (auto simp: filter_eq_Cons_iff)
  with that show thesis by (simp add: filter_empty_conv)
qed

section \<open>The handlers afterwards\<close>

text \<open>The slot of an upstream that is in one slot only, for reading, saved the handler of the upstream.\<close>

lemma slot_saved:
  assumes u: "w_ups w a = Some u" and one: "filter (is_up a) ss = [s]" and rd: "wants_read s"
  obtains s' where "filter (is_up a) (installed_slots w [] ss) = [s']"
    and "sk_prev_upstream_read_handler s' = up_read_event_handler u"
proof -
  obtain pre post where ss: "ss = pre @ s # post" and s: "is_up a s"
    and pre: "filter (is_up a) pre = []" and post: "filter (is_up a) post = []"
    by (rule filter_one_split[OF one])
  have "hook_up pre a u = u"
    using pre by (auto simp: hook_up_def hooked_def filter_empty_conv)
  then have "sk_prev_upstream_read_handler (installed_slot w pre s) = up_read_event_handler u"
    using s rd u by (simp add: installed_slot_def is_up_def is_down_def)
  moreover have "filter (is_up a) (installed_slots w [] ss) = [installed_slot w pre s]"
    using s pre post by (simp add: ss installed_slots_append filter_installed_slots)
  ultimately show thesis using that by blast
qed

text \<open>
  An upstream that is in one slot, for reading: its read handler is the one it had before the
  call.  The write handler stays hooked if the slot asked for writing.
\<close>

lemma restored_up:
  assumes u: "w_ups w a = Some u" "w_ups w1 a = Some (hook_up ss a u)"
    and one: "filter (is_up a) ss = [s]" and rd: "wants_read s"
  shows "w_ups (discard_all r c (installed_slots w [] ss) w1) a =
    Some (u\<lparr>up_write_event_handler :=
      (if wants_write s then Fn_write_upstream_handler else up_write_event_handler u)\<rparr>)"
proof -
  obtain s' where s': "filter (is_up a) (installed_slots w [] ss) = [s']"
      "sk_prev_upstream_read_handler s' = up_read_event_handler u"
    by (rule slot_saved[OF u(1) one rd])
  obtain pre post where ss: "ss = pre @ s # post" and s: "is_up a s"
    and pre: "filter (is_up a) pre = []" and post: "filter (is_up a) post = []"
    by (rule filter_one_split[OF one])
  have "up_write_event_handler (hook_up ss a u)
      = (if wants_write s then Fn_write_upstream_handler else up_write_event_handler u)"
    using s pre post by (auto simp: hook_up_def hooked_def ss filter_empty_conv)
  moreover have "(hook_up ss a u)\<lparr>up_read_event_handler := up_read_event_handler u\<rparr>
      = u\<lparr>up_write_event_handler := up_write_event_handler (hook_up ss a u)\<rparr>"
    by (simp add: hook_up_def)
  ultimately show ?thesis
    using u(2) s' by (simp add: discard_all_ups)
qed

text \<open>An upstream in no slot is as it was.\<close>

lemma untouched_up:
  assumes "w_ups w1 a = Some (hook_up ss a u)" and "filter (is_up a) ss = []"
  shows "w_ups (discard_all r c (installed_slots w [] ss) w1) a = Some u"
  using assms
  by (auto simp: discard_all_ups filter_installed_slots hook_up_def hooked_def filter_empty_conv)

text \<open>
  An upstream that is in two slots, both for reading: the second slot saved the module's own
  handler, and this is what the upstream is left with.
\<close>

lemma stuck_up:
  assumes u: "w_ups w a = Some u" "w_ups w1 a = Some u1"
    and ss: "ss = pre @ s # post" "is_up a s" "wants_read s" "filter (is_up a) post = []"
    and dup: "s' \<in> set pre" "is_up a s'" "wants_read s'"
  shows "\<exists>u2. w_ups (discard_all r c (installed_slots w [] ss) w1) a = Some u2 \<and>
    up_read_event_handler u2 = Fn_read_upstream_handler"
proof -
  have "sk_prev_upstream_read_handler (installed_slot w pre s) = Fn_read_upstream_handler"
    using ss(2,3) dup u(1)
    by (auto simp: installed_slot_def Let_def hook_up_def hooked_def is_up_def is_down_def)
  moreover have "filter (is_up a) (installed_slots w [] ss)
      = filter (is_up a) (installed_slots w [] pre) @ [installed_slot w pre s]"
    using ss by (simp add: installed_slots_append filter_installed_slots)
  ultimately show ?thesis
    using u(2)
    by (cases "filter (is_up a) (installed_slots w [] pre)") (simp_all add: discard_all_ups)
qed

text \<open>The request: its read handler comes back when one slot is its own connection.\<close>

lemma restored_req:
  assumes w1: "w_reqs w1 r = Some q1" and c: "cx_socket c = ss"
    and one: "filter is_down ss = [s]" and rd: "wants_read s"
  shows "w_reqs (discard_all r (installed_ctx w q (length ss) c) (installed_slots w [] ss) w1) r =
    Some (q1\<lparr>rq_read_event_handler := rq_read_event_handler q\<rparr>)"
proof -
  obtain pre post where ss: "ss = pre @ s # post" and s: "is_down s"
    and pre: "filter is_down pre = []" and post: "filter is_down post = []"
    by (rule filter_one_split[OF one])
  have "filter (\<lambda>s. is_down s \<and> wants_read s) ss = [s]"
    using s rd pre post by (auto simp: ss filter_empty_conv)
  then have "cx_prev_request_read_handler (installed_ctx w q (length ss) c)
      = rq_read_event_handler q"
    by (simp add: installed_ctx_def saved_def c)
  moreover have "\<exists>s \<in> set (installed_slots w [] ss). is_down s"
    using s by (auto simp: ss installed_slots_append)
  ultimately show ?thesis using w1 by (simp add: discard_all_reqs)
qed

section \<open>The two bits of a mode\<close>

lemma rw_has_bit:
  "rw_has x NGX_LUA_SELECT_READ \<longleftrightarrow> bit x 0" "rw_has x NGX_LUA_SELECT_WRITE \<longleftrightarrow> bit x 1"
  using and_exp_eq_0_iff_not_bit[of x 0] and_exp_eq_0_iff_not_bit[of x 1]
  by (simp_all add: rw_has_def NGX_LUA_SELECT_READ_def NGX_LUA_SELECT_WRITE_def)

text \<open>The 2-bit field keeps both flags.\<close>

lemma rw_has_field:
  "rw_has (ucast (ucast x :: 2 word)) NGX_LUA_SELECT_READ \<longleftrightarrow> rw_has x NGX_LUA_SELECT_READ"
  "rw_has (ucast (ucast x :: 2 word)) NGX_LUA_SELECT_WRITE \<longleftrightarrow> rw_has x NGX_LUA_SELECT_WRITE"
  by (simp_all add: rw_has_bit bit_ucast_iff)

lemma rw_of_string_has:
  "rw_has (rw_of_string str) NGX_LUA_SELECT_READ \<longleftrightarrow> c_strchr str CHR ''r''"
  "rw_has (rw_of_string str) NGX_LUA_SELECT_WRITE \<longleftrightarrow> c_strchr str CHR ''w''"
  by (simp_all add: rw_of_string_def rw_has_def NGX_LUA_SELECT_READ_def NGX_LUA_SELECT_WRITE_def)

lemma entry_slot_wants:
  "wants_read (entry_slot w r x n s) \<longleftrightarrow> rw_has (fst x) NGX_LUA_SELECT_READ"
  "wants_write (entry_slot w r x n s) \<longleftrightarrow> rw_has (fst x) NGX_LUA_SELECT_WRITE"
  by (simp_all add: wants_read_def wants_write_def sk_rw_def entry_slot_def Let_def rw_has_field)

lemma entry_slot_simps [simp]:
  "sk_up (entry_slot w r x n s) = Some (fst (snd x))"
  "sk_lua_socket_ref (entry_slot w r x n s) = n"
  "sk_connection (entry_slot w r x n s) = up_peer_connection (the (w_ups w (fst (snd x))))"
  by (simp_all add: entry_slot_def Let_def)

text \<open>Whether an entry is the client's own connection.\<close>

definition entry_down :: "world \<Rightarrow> addr \<Rightarrow> 32 word \<times> addr \<times> lval \<Rightarrow> bool" where
  "entry_down w r x \<longleftrightarrow>
     up_peer_connection (the (w_ups w (fst (snd x)))) = rq_connection (the (w_reqs w r))"

lemma entry_slot_kind:
  "is_down (entry_slot w r x n s) \<longleftrightarrow> entry_down w r x"
  "is_up a (entry_slot w r x n s) \<longleftrightarrow> \<not> entry_down w r x \<and> fst (snd x) = a"
  by (auto simp: is_down_def is_up_def entry_down_def entry_slot_def get_socket_type_tcp Let_def)

lemma filter_scan_slots:
  assumes "\<And>x n s. P (entry_slot w r x n s) \<longleftrightarrow> Q x"
    and "length refs = length xs" and "length xs = length ss"
  shows "filter Q xs = [] \<Longrightarrow> filter P (scan_slots w r xs refs ss) = []"
    and "filter Q xs = [x] \<Longrightarrow> \<exists>n s. filter P (scan_slots w r xs refs ss) = [entry_slot w r x n s]"
  using assms(2,3)
proof (induction refs xs ss rule: list_induct3)
  case Nil
  { case 1 show ?case by (simp add: scan_slots_def) }
  { case 2 then show ?case by simp }
next
  case (Cons n refs y xs s ss)
  { case 1 then show ?case using Cons.IH(1) by (simp add: assms(1) split: if_splits) }
  { case 2 then show ?case
      using Cons.IH by (cases "Q y") (auto simp: assms(1)) }
qed

section \<open>A waiting context can be discarded\<close>

text \<open>
  While the coroutine waits, the events of its context change, and nothing else that the way
  back reads: \<open>w'\<close> is the state at the yield, \<open>w2\<close> a later one.
\<close>

definition still_waiting ::
  "addr \<Rightarrow> ngx_lua_select_ctx \<Rightarrow> world \<Rightarrow> ngx_lua_select_ctx \<Rightarrow> world \<Rightarrow> bool" where
  "still_waiting p c w' c2 w2 \<longleftrightarrow>
     ctx_at w' p = Some c \<and> ctx_at w2 p = Some c2 \<and>
     (\<exists>t e. c2 = c\<lparr>cx_timer := t, cx_post_completion_ev := e\<rparr>) \<and>
     w_reqs w2 = w_reqs w' \<and> w_ups w2 = w_ups w' \<and> w_registry w2 = w_registry w'"

text \<open>
  A weaker relation, for a process in which other code runs meanwhile: the context keeps its slots,
  its registry references still refer to what they did, and its upstreams and its request still
  exist, the request with its module contexts.  Handlers may change, and so may everything that
  belongs to others.
\<close>

definition held_refs :: "ngx_lua_select_ctx \<Rightarrow> int set" where
  "held_refs c = insert (cx_ref c) (sk_lua_socket_ref ` set (cx_socket c))"

definition held ::
  "addr \<Rightarrow> addr \<Rightarrow> ngx_lua_select_ctx \<Rightarrow> world \<Rightarrow> ngx_lua_select_ctx \<Rightarrow> world \<Rightarrow> bool" where
  "held r p c w' c2 w2 \<longleftrightarrow>
     cx_r c = Some r \<and> ctx_at w' p = Some c \<and> ctx_at w2 p = Some c2 \<and>
     (\<exists>t e. c2 = c\<lparr>cx_timer := t, cx_post_completion_ev := e\<rparr>) \<and>
     (\<forall>k \<in> held_refs c. map_of (w_registry w2) k = map_of (w_registry w') k) \<and>
     (\<forall>s \<in> set (cx_socket c). \<forall>a. sk_up s = Some a \<longrightarrow> w_ups w' a \<noteq> None \<longrightarrow> w_ups w2 a \<noteq> None) \<and>
     (\<forall>q. w_reqs w' r = Some q \<longrightarrow> (\<exists>q2. w_reqs w2 r = Some q2 \<and> rq_ctx q2 = rq_ctx q))"

lemma still_waiting_held: "still_waiting p c w' c2 w2 \<Longrightarrow> cx_r c = Some r \<Longrightarrow> held r p c w' c2 w2"
  by (auto simp: still_waiting_def held_def)

text \<open>Every entry asks for reading, and there is a read handler to save.\<close>

definition all_read :: "world \<Rightarrow> addr \<Rightarrow> (32 word \<times> addr \<times> lval) list \<Rightarrow> bool" where
  "all_read w r xs \<longleftrightarrow>
     (\<forall>x \<in> set xs. rw_has (fst x) NGX_LUA_SELECT_READ \<and>
        (\<exists>u. w_ups w (fst (snd x)) = Some u \<and> up_read_event_handler u \<noteq> Fn_NULL)) \<and>
     (\<exists>q. w_reqs w r = Some q \<and> rq_read_event_handler q \<noteq> Fn_NULL)"

lemma waiting_ctx_simps:
  assumes "length refs = length xs" and "length (cx_socket c0) = length xs"
  shows "cx_socket (waiting_ctx r co timeout xs c0 cref refs w)
      = installed_slots w [] (waiting_slots w r xs refs c0)"
    and "cx_count (waiting_ctx r co timeout xs c0 cref refs w) = length xs"
    and "cx_ref (waiting_ctx r co timeout xs c0 cref refs w) = cref"
    and "cx_prev_request_read_handler (waiting_ctx r co timeout xs c0 cref refs w)
      = saved (\<lambda>s. is_down s \<and> wants_read s) (waiting_slots w r xs refs c0)
          Fn_read_request_handler (rq_read_event_handler (the (w_reqs w r))) Fn_NULL"
    and "cx_r (waiting_ctx r co timeout xs c0 cref refs w) = Some r"
    and "cx_coctx (waiting_ctx r co timeout xs c0 cref refs w) = Some co"
    and "ev_posted (cx_post_completion_ev (waiting_ctx r co timeout xs c0 cref refs w)) = False"
    and "ev_data (cx_post_completion_ev (waiting_ctx r co timeout xs c0 cref refs w)) = Some r"
    and "length (waiting_slots w r xs refs c0) = length xs"
    and "ev_timedout (cx_timer (waiting_ctx r co timeout xs c0 cref refs w)) = False"
  using assms
  by (simp_all add: waiting_ctx_def armed_ctx_def installed_ctx_def scanned_ctx_def
      waiting_slots_def Let_def zero_event_def)

lemma in_waiting_slots:
  assumes "s \<in> set (waiting_slots w r xs refs c0)" and "length refs = length xs"
    and "length (cx_socket c0) = length xs"
  obtains x n s0 where "x \<in> set xs" and "s = entry_slot w r x n s0"
proof -
  from assms obtain i where i: "i < length xs" "s = waiting_slots w r xs refs c0 ! i"
    by (auto simp: in_set_conv_nth waiting_slots_def)
  then have "s = entry_slot w r (xs ! i) (refs ! i) (cx_socket c0 ! i)"
    using assms(2,3) by (simp add: waiting_slots_def nth_scan_slots)
  with i(1) show thesis by (intro that[of "xs ! i"]) simp_all
qed

lemma hooked_not_null: "fn \<noteq> Fn_NULL \<Longrightarrow> h \<noteq> Fn_NULL \<Longrightarrow> hooked P ss fn h \<noteq> Fn_NULL"
  by (simp add: hooked_def)

lemma saved_not_null:
  "s \<in> set ss \<Longrightarrow> P s \<Longrightarrow> fn \<noteq> Fn_NULL \<Longrightarrow> h \<noteq> Fn_NULL \<Longrightarrow> saved P ss fn h old \<noteq> Fn_NULL"
  by (auto simp: saved_def filter_empty_conv split: list.split)

lemma installed_discardable:
  assumes len: "length refs = length xs" "length (cx_socket c0) = length xs"
    and rd: "all_read w r xs" and s: "s \<in> set (cx_socket (waiting_ctx r co timeout xs c0 cref refs w))"
    and ups: "\<And>a. sk_up s = Some a \<Longrightarrow> w_ups w a \<noteq> None \<Longrightarrow> w_ups w2 a \<noteq> None"
  shows "discardable w2 (waiting_ctx r co timeout xs c0 cref refs w) s"
proof -
  let ?ss = "waiting_slots w r xs refs c0"
  from s obtain i where i: "i < length ?ss" "s = installed_slots w [] ?ss ! i"
    by (auto simp: waiting_ctx_simps[OF len] in_set_conv_nth)
  let ?s = "?ss ! i"
  have si: "s = installed_slot w (take i ?ss) ?s" using i by (simp add: nth_installed_slots)
  have mem: "?s \<in> set ?ss" using i by simp
  obtain x n s0 where x: "x \<in> set xs" "?s = entry_slot w r x n s0"
    by (rule in_waiting_slots[OF mem len])
  obtain u q where u: "w_ups w (fst (snd x)) = Some u" "up_read_event_handler u \<noteq> Fn_NULL"
    and q: "w_reqs w r = Some q" "rq_read_event_handler q \<noteq> Fn_NULL"
    and wr: "wants_read ?s"
    using rd x by (auto simp: all_read_def entry_slot_wants)
  show ?thesis
  proof (cases "is_down ?s")
    case True
    have "cx_prev_request_read_handler (waiting_ctx r co timeout xs c0 cref refs w) \<noteq> Fn_NULL"
      unfolding waiting_ctx_simps[OF len] using mem True wr q by (intro saved_not_null) auto
    with True si show ?thesis by (simp add: discardable_def is_down_def)
  next
    case False
    have ty: "sk_type ?s = NGX_LUA_SELECT_TCP_UPSTREAM"
      using False x(2) by (auto simp: is_down_def entry_slot_def get_socket_type_tcp Let_def)
    have "sk_prev_upstream_read_handler s \<noteq> Fn_NULL"
      using False wr x(2) u unfolding si
      by (simp add: installed_slot_def Let_def hook_up_def hooked_not_null)
    moreover have "sk_up s = Some (fst (snd x))" using si x(2) by simp
    moreover from ups[OF this] u(1) obtain u2 where "w_ups w2 (fst (snd x)) = Some u2" by auto
    ultimately show ?thesis using ty si by (simp add: discardable_def)
  qed
qed

lemma scan_refs_fst:
  "length refs = length xs \<Longrightarrow> fst ` set (scan_refs xs refs reg) = set refs \<union> fst ` set reg"
  by (simp add: scan_refs_def image_Un flip: set_map)

lemma held_slots:
  assumes len: "length refs = length xs" "length (cx_socket c0) = length xs"
    and held: "held r p (waiting_ctx r co timeout xs c0 cref refs w)
               (waiting r co timeout xs p c0 cref refs w) c2 w2"
  shows "ctx_at w2 p = Some c2" and "cx_socket c2 = installed_slots w [] (waiting_slots w r xs refs c0)"
    and "cx_count c2 = length xs" and "cx_ref c2 = cref" and "cx_r c2 = Some r" and "cx_coctx c2 = Some co"
    and "cx_prev_request_read_handler c2 =
      cx_prev_request_read_handler (waiting_ctx r co timeout xs c0 cref refs w)"
    and "map sk_lua_socket_ref (cx_socket c2) = refs" and "held_refs c2 = insert cref (set refs)"
proof -
  let ?ss = "waiting_slots w r xs refs c0"
  from held obtain t e where c2: "ctx_at w2 p = Some c2" "c2 = (waiting_ctx r co timeout xs c0 cref refs w)
      \<lparr>cx_timer := t, cx_post_completion_ev := e\<rparr>"
    unfolding held_def by auto
  then show "ctx_at w2 p = Some c2" and "cx_socket c2 = installed_slots w [] ?ss"
    and "cx_count c2 = length xs" and "cx_ref c2 = cref" and "cx_r c2 = Some r" and "cx_coctx c2 = Some co"
    and "cx_prev_request_read_handler c2 =
      cx_prev_request_read_handler (waiting_ctx r co timeout xs c0 cref refs w)"
    by (simp_all add: waiting_ctx_simps[OF len])
  show refs: "map sk_lua_socket_ref (cx_socket c2) = refs"
    using c2 len map_scan_slots_ref[OF len]
    by (simp add: waiting_ctx_simps[OF len] waiting_slots_def map_installed_slots)
  show "held_refs c2 = insert cref (set refs)"
    using arg_cong[OF refs, of set] \<open>cx_ref c2 = cref\<close> by (simp add: held_refs_def)
qed

text \<open>The references of the select are still those of the yield, and its upstreams still exist.\<close>

lemma held_heaps:
  assumes q: "w_reqs w r = Some q" and len: "length refs = length xs" "length (cx_socket c0) = length xs"
    and held: "held r p (waiting_ctx r co timeout xs c0 cref refs w)
               (waiting r co timeout xs p c0 cref refs w) c2 w2"
  shows "k \<in> insert cref (set refs) \<Longrightarrow>
      map_of (w_registry w2) k = map_of (scan_refs xs refs ((cref, LUserdata p) # w_registry w)) k"
    and "s \<in> set (cx_socket c2) \<Longrightarrow> sk_up s = Some a \<Longrightarrow> w_ups w a \<noteq> None \<Longrightarrow> w_ups w2 a \<noteq> None"
    and "\<exists>q2. w_reqs w2 r = Some q2 \<and> rq_ctx q2 = (rq_ctx q)(Mod_select := Some p)"
proof -
  note slots = held_slots[OF len held]
  have sock: "cx_socket c2 = cx_socket (waiting_ctx r co timeout xs c0 cref refs w)"
    by (simp add: slots waiting_ctx_simps[OF len])
  then have eq: "held_refs (waiting_ctx r co timeout xs c0 cref refs w) = insert cref (set refs)"
    using slots(9) by (simp add: held_refs_def slots(4) waiting_ctx_simps(3)[OF len])
  have "\<forall>k \<in> held_refs (waiting_ctx r co timeout xs c0 cref refs w).
      map_of (w_registry w2) k = map_of (w_registry (waiting r co timeout xs p c0 cref refs w)) k"
    using held by (simp add: held_def)
  then show "k \<in> insert cref (set refs) \<Longrightarrow>
      map_of (w_registry w2) k = map_of (scan_refs xs refs ((cref, LUserdata p) # w_registry w)) k"
    unfolding eq by (auto simp: waiting_heaps[OF q len])
  show "s \<in> set (cx_socket c2) \<Longrightarrow> sk_up s = Some a \<Longrightarrow> w_ups w a \<noteq> None \<Longrightarrow> w_ups w2 a \<noteq> None"
    using held unfolding held_def sock by (auto simp: waiting_heaps[OF q len])
  show "\<exists>q2. w_reqs w2 r = Some q2 \<and> rq_ctx q2 = (rq_ctx q)(Mod_select := Some p)"
    using held by (simp add: held_def waiting_heaps[OF q len])
qed

lemma scan_refs_dom:
  fixes reg2 :: "(int \<times> lval) list"
  assumes "length refs = length xs"
    and "\<And>k. k \<in> insert cref (set refs) \<Longrightarrow> map_of reg2 k = map_of (scan_refs xs refs ((cref, v) # reg)) k"
  shows "insert cref (set refs) \<subseteq> fst ` set reg2"
proof
  fix k assume k: "k \<in> insert cref (set refs)"
  then have "k \<in> fst ` set (scan_refs xs refs ((cref, v) # reg))"
    using assms(1) by (auto simp: scan_refs_fst)
  then have "map_of reg2 k \<noteq> None" using assms(2)[OF k] by (auto simp: map_of_eq_None_iff)
  then show "k \<in> fst ` set reg2" by (simp add: map_of_eq_None_iff)
qed

lemma held_discardable:
  assumes q: "w_reqs w r = Some q" and len: "length refs = length xs" "length (cx_socket c0) = length xs"
    and fresh: "fresh_refs (cref # refs) (w_registry w)" and rd: "all_read w r xs"
    and held: "held r p (waiting_ctx r co timeout xs c0 cref refs w)
               (waiting r co timeout xs p c0 cref refs w) c2 w2"
  shows "ctx_discardable w2 r p c2"
proof -
  let ?c = "waiting_ctx r co timeout xs c0 cref refs w"
  note slots = held_slots[OF len held] and heaps = held_heaps[OF q len held]
  have sock: "cx_socket c2 = cx_socket ?c" by (simp add: slots waiting_ctx_simps[OF len])
  have "discardable w2 c2 s" if s: "s \<in> set (cx_socket c2)" for s
  proof -
    have "discardable w2 ?c s"
      using s heaps(2)[OF s] by (intro installed_discardable[OF len rd]) (simp_all add: sock)
    then show ?thesis using slots(7) by (simp add: discardable_def)
  qed
  moreover have "insert cref (set refs) \<subseteq> fst ` set (w_registry w2)"
    by (rule scan_refs_dom[OF len(1) heaps(1)])
  moreover have "distinct (cref # refs)" using fresh by (simp add: fresh_refs_def)
  ultimately show ?thesis
    using slots(1-4) slots(8) heaps(3) len arg_cong[OF slots(8), of set]
    by (simp add: ctx_discardable_def waiting_ctx_simps(9)[OF len]) auto
qed

lemma still_waiting_discardable:
  assumes q: "w_reqs w r = Some q" and len: "length refs = length xs" "length (cx_socket c0) = length xs"
    and fresh: "fresh_refs (cref # refs) (w_registry w)" and rd: "all_read w r xs"
    and sw: "still_waiting p (waiting_ctx r co timeout xs c0 cref refs w)
               (waiting r co timeout xs p c0 cref refs w) c2 w2"
  shows "ctx_discardable w2 r p c2"
  by (rule held_discardable[OF q len fresh rd still_waiting_held[OF sw]])
    (simp add: waiting_ctx_simps[OF len])

section \<open>What the way back restores\<close>

lemma discarded_frame [simp]:
  "w_stack (discarded r q p c w) = w_stack w" "table_at (discarded r q p c w) = table_at w"
  "w_conns (discarded r q p c w) = w_conns w" "w_coctxs (discarded r q p c w) = w_coctxs w"
  "w_sctxs (discarded r q p c w) = w_sctxs w"
  "w_posted (discarded r q p c w) = w_posted w" "w_log (discarded r q p c w) = w_log w"
  "ctx_at (discarded r q p c w) = (ctx_at w)(p \<mapsto> timer_off c)"
  "w_registry (discarded r q p c w) =
    filter (\<lambda>e. fst e \<notin> insert (cx_ref c) (sk_lua_socket_ref ` set (cx_socket c))) (w_registry w)"
  by (simp_all add: discarded_def Let_def discard_all_registry AList.delete_eq filter_filter
      case_prod_beta)
    (rule filter_cong, auto)

lemma discard_all_same:
  assumes "w_ups v = w_ups w" and "w_reqs v = w_reqs w"
  shows "w_ups (discard_all r c ss v) = w_ups (discard_all r c ss w)"
    and "w_reqs (discard_all r c ss v) = w_reqs (discard_all r c ss w)"
  using assms by (simp_all add: fun_eq_iff discard_all_ups discard_all_reqs cong: list.case_cong)

lemma discarded_ups: "w_ups (discarded r q p c w) = w_ups (discard_all r c (cx_socket c) w)"
  unfolding discarded_def Let_def
  by (simp add: discard_all_same[of "put_ctx p (timer_off c) w" w])

lemma discarded_reqs:
  assumes "w_reqs (discard_all r c (cx_socket c) w) r = Some q'"
  shows "w_reqs (discarded r q p c w) r = Some (q'\<lparr>rq_ctx := (rq_ctx q)(Mod_select := None)\<rparr>)"
  using assms discard_all_same(2)[of "put_ctx p (timer_off c) w" w r c "cx_socket c"]
  by (simp add: discarded_def Let_def)

lemma discard_effect_marked_ctx: "discard_effect r (marked_ctx w c) = discard_effect r c"
  by (simp add: fun_eq_iff discard_effect_def
      cong del: ngx_lua_select_socktype_t.case_cong_weak option.case_cong_weak)

lemma discard_all_marked:
  "discard_all r (marked_ctx w c) (cx_socket (marked_ctx w c)) = discard_all r c (cx_socket c)"
  by (simp add: discard_effect_marked_ctx fold_map comp_def)

text \<open>Every socket of the call once, its own connection included.\<close>

definition distinct_sockets :: "world \<Rightarrow> addr \<Rightarrow> (32 word \<times> addr \<times> lval) list \<Rightarrow> bool" where
  "distinct_sockets w r xs \<longleftrightarrow>
     distinct (map (fst \<circ> snd) xs) \<and> length (filter (entry_down w r) xs) \<le> 1"

text \<open>The entry of an upstream, if it has one.\<close>

definition entry_of :: "world \<Rightarrow> addr \<Rightarrow> addr \<Rightarrow> 32 word \<times> addr \<times> lval \<Rightarrow> bool" where
  "entry_of w r a x \<longleftrightarrow> \<not> entry_down w r x \<and> fst (snd x) = a"

lemma length_le_1_cases:
  assumes "length ys \<le> 1" obtains "ys = []" | x where "ys = [x]"
  using assms by (cases ys) auto

lemma distinct_entry_of:
  "distinct (map (fst \<circ> snd) xs) \<Longrightarrow> length (filter (entry_of w r a) xs) \<le> 1"
proof (induction xs)
  case (Cons x xs)
  show ?case
  proof (cases "entry_of w r a x")
    case True
    have "\<not> entry_of w r a y" if "y \<in> set xs" for y
    proof
      assume "entry_of w r a y"
      with True have "(fst \<circ> snd) x = (fst \<circ> snd) y" by (simp add: entry_of_def)
      with that have "(fst \<circ> snd) x \<in> (fst \<circ> snd) ` set xs" by (metis imageI)
      with Cons.prems show False by simp
    qed
    then have "filter (entry_of w r a) xs = []" by (simp add: filter_empty_conv)
    with True show ?thesis by simp
  qed (use Cons in simp)
qed simp

lemma delete_scan_refs:
  assumes "length refs = length xs" and "fresh_refs (cref # refs) reg"
  shows "filter (\<lambda>e. fst e \<notin> insert cref (set refs)) (scan_refs xs refs ((cref, v) # reg)) = reg"
proof -
  have "filter (\<lambda>e. fst e \<notin> insert cref (set refs)) (rev (zip refs (map (snd \<circ> snd) xs))) = []"
    by (auto simp: filter_empty_conv dest: set_zip_leftD)
  moreover have "filter (\<lambda>e. fst e \<notin> insert cref (set refs)) reg = reg"
    using assms(2) by (intro filter_True) (auto simp: fresh_refs_def)
  ultimately show ?thesis by (simp add: scan_refs_def)
qed

text \<open>What stays of the state of the yield while the select waits.\<close>

lemma still_waiting_heaps:
  assumes q: "w_reqs w r = Some q" and len: "length refs = length xs" "length (cx_socket c0) = length xs"
    and sw: "still_waiting p (waiting_ctx r co timeout xs c0 cref refs w)
               (waiting r co timeout xs p c0 cref refs w) c2 w2"
  shows "w_reqs w2 r =
      Some ((hook_req (waiting_slots w r xs refs c0) q)\<lparr>rq_ctx := (rq_ctx q)(Mod_select := Some p)\<rparr>)"
    and "w_ups w2 b = map_option (hook_up (waiting_slots w r xs refs c0) b) (w_ups w b)"
    and "w_registry w2 = scan_refs xs refs ((cref, LUserdata p) # w_registry w)"
    and "cx_socket c2 = installed_slots w [] (waiting_slots w r xs refs c0)" and "cx_ref c2 = cref"
    and "cx_prev_request_read_handler c2 =
      cx_prev_request_read_handler (waiting_ctx r co timeout xs c0 cref refs w)"
  using sw waiting_heaps[OF q len] waiting_ctx_simps[OF len] unfolding still_waiting_def by auto

lemma waiting_slots_none:
  assumes "length refs = length xs" and "length (cx_socket c0) = length xs"
    and "filter Q xs = []" and "\<And>x n s. P (entry_slot w r x n s) = Q x"
  shows "filter P (waiting_slots w r xs refs c0) = []"
  unfolding waiting_slots_def
  by (rule filter_scan_slots(1)[OF assms(4) assms(1) assms(2)[symmetric] assms(3)])

lemma waiting_slots_one:
  assumes "length refs = length xs" and "length (cx_socket c0) = length xs"
    and "filter Q xs = [x]" and "\<And>x n s. P (entry_slot w r x n s) = Q x"
  obtains n s where "filter P (waiting_slots w r xs refs c0) = [entry_slot w r x n s]"
  unfolding waiting_slots_def
  using filter_scan_slots(2)[OF assms(4) assms(1) assms(2)[symmetric] assms(3)] by blast

text \<open>
  The way back from a state that is still waiting, one component of the state at a time; \<open>w3\<close> is
  the state in which the context is discarded.
\<close>

lemma waiting_discarded_registry:
  assumes q: "w_reqs w r = Some q" and len: "length refs = length xs" "length (cx_socket c0) = length xs"
    and fresh: "fresh_refs (cref # refs) (w_registry w)"
    and sw: "still_waiting p (waiting_ctx r co timeout xs c0 cref refs w)
               (waiting r co timeout xs p c0 cref refs w) c2 w2"
    and w3: "w_registry w3 = w_registry w2"
  shows "w_registry (discarded r q2 p c2 w3) = w_registry w"
proof -
  note still = still_waiting_heaps[OF q len sw]
  have "sk_lua_socket_ref ` set (cx_socket c2) = set refs"
    using arg_cong[OF map_scan_slots_ref[OF len, of w r], of set]
    by (simp add: still(4) waiting_slots_def map_installed_slots flip: set_map)
  then show ?thesis
    using delete_scan_refs[OF len(1) fresh] by (simp add: w3 still(3,5))
qed

lemma waiting_discarded_up:
  assumes q: "w_reqs w r = Some q" and len: "length refs = length xs" "length (cx_socket c0) = length xs"
    and rd: "all_read w r xs" and dist: "distinct_sockets w r xs"
    and sw: "still_waiting p (waiting_ctx r co timeout xs c0 cref refs w)
               (waiting r co timeout xs p c0 cref refs w) c2 w2"
    and w3: "w_ups w3 = w_ups w2" and u: "w_ups w a = Some u"
  shows "w_ups (discarded r q2 p c2 w3) a = Some (u\<lparr>up_write_event_handler :=
      (if \<exists>x \<in> set xs. entry_of w r a x \<and> rw_has (fst x) NGX_LUA_SELECT_WRITE
       then Fn_write_upstream_handler else up_write_event_handler u)\<rparr>)"
proof -
  let ?ss = "waiting_slots w r xs refs c0"
  note still = still_waiting_heaps[OF q len sw]
  have W: "w_ups w3 a = Some (hook_up ?ss a u)" using u by (simp add: w3 still(2))
  have kind: "is_up a (entry_slot w r x n s) = entry_of w r a x" for x n s
    by (simp add: entry_slot_kind entry_of_def)
  have "length (filter (entry_of w r a) xs) \<le> 1"
    using dist by (intro distinct_entry_of) (simp add: distinct_sockets_def)
  then show ?thesis
  proof (cases rule: length_le_1_cases)
    case 1
    then have "filter (is_up a) ?ss = []" by (rule waiting_slots_none[OF len]) (rule kind)
    from untouched_up[OF W this] 1 show ?thesis
      by (auto simp: discarded_ups still(4) filter_empty_conv)
  next
    case (2 x)
    from waiting_slots_one[where P = "is_up a", OF len 2 kind] obtain n s
      where one: "filter (is_up a) ?ss = [entry_slot w r x n s]" .
    have "{y \<in> set xs. entry_of w r a y} = {x}" using arg_cong[OF 2, of set] by simp
    then have x: "x \<in> set xs" "entry_of w r a x"
      "\<And>y. y \<in> set xs \<Longrightarrow> entry_of w r a y \<Longrightarrow> y = x" by blast+
    have "wants_read (entry_slot w r x n s)" using rd x(1) by (simp add: entry_slot_wants all_read_def)
    note up = restored_up[OF u W one this, of r c2]
    have "(\<exists>y \<in> set xs. entry_of w r a y \<and> rw_has (fst y) NGX_LUA_SELECT_WRITE)
        = rw_has (fst x) NGX_LUA_SELECT_WRITE"
      using x by blast
    with up show ?thesis by (simp add: discarded_ups still(4) entry_slot_wants)
  qed
qed

lemma waiting_discarded_request:
  assumes q: "w_reqs w r = Some q" and len: "length refs = length xs" "length (cx_socket c0) = length xs"
    and rd: "all_read w r xs" and dist: "distinct_sockets w r xs"
    and sw: "still_waiting p (waiting_ctx r co timeout xs c0 cref refs w)
               (waiting r co timeout xs p c0 cref refs w) c2 w2"
    and w3: "w_reqs w3 = w_reqs w2" and q2: "w_reqs w2 r = Some q2"
  shows "\<exists>q'. w_reqs (discarded r q2 p c2 w3) r = Some q' \<and>
      rq_read_event_handler q' = rq_read_event_handler q \<and> rq_connection q' = rq_connection q \<and>
      rq_ctx q' = (rq_ctx q)(Mod_select := None)"
proof -
  let ?ss = "waiting_slots w r xs refs c0" and ?c1 = "scanned_ctx w r xs refs cref c0"
  note still = still_waiting_heaps[OF q len sw]
  let ?q3 = "(hook_req ?ss q)\<lparr>rq_ctx := (rq_ctx q)(Mod_select := Some p)\<rparr>"
  have W: "w_reqs w3 r = Some ?q3" using still(1) by (simp add: w3)
  have q2': "rq_ctx q2 = (rq_ctx q)(Mod_select := Some p)" using still(1) q2 by auto
  have "length (filter (entry_down w r) xs) \<le> 1" using dist by (simp add: distinct_sockets_def)
  then have "\<exists>q4. w_reqs (discard_all r c2 (cx_socket c2) w3) r = Some q4 \<and>
      rq_read_event_handler q4 = rq_read_event_handler q \<and> rq_connection q4 = rq_connection q"
  proof (cases rule: length_le_1_cases)
    case 1
    then have none: "filter is_down ?ss = []" by (rule waiting_slots_none[OF len]) (rule entry_slot_kind)
    then have "\<not> (\<exists>s \<in> set (installed_slots w [] ?ss). is_down s)"
      using filter_installed_slots[of is_down w ?ss "[]"] by (simp add: filter_empty_conv)
    then have "w_reqs (discard_all r c2 (cx_socket c2) w3) r = Some ?q3"
      using W by (simp add: discard_all_reqs still(4))
    moreover have "rq_read_event_handler ?q3 = rq_read_event_handler q"
        "rq_connection ?q3 = rq_connection q"
      using none by (auto simp: hook_req_def hooked_def filter_empty_conv)
    ultimately show ?thesis by blast
  next
    case (2 x)
    from waiting_slots_one[where P = is_down, OF len 2 entry_slot_kind(1)] obtain n s
      where one: "filter is_down ?ss = [entry_slot w r x n s]" .
    have "x \<in> set xs" using 2 by (auto simp: filter_eq_Cons_iff)
    then have wr: "wants_read (entry_slot w r x n s)" using rd by (simp add: entry_slot_wants all_read_def)
    have "w_reqs (discard_all r (installed_ctx w q (length ?ss) ?c1) (installed_slots w [] ?ss) w3) r
      = Some (?q3\<lparr>rq_read_event_handler := rq_read_event_handler q\<rparr>)"
      by (rule restored_req[OF W _ one wr]) (simp add: scanned_ctx_def waiting_slots_def)
    moreover have "cx_prev_request_read_handler (installed_ctx w q (length ?ss) ?c1)
        = cx_prev_request_read_handler c2"
      using q len
      by (simp add: still(6) waiting_ctx_simps[OF len] installed_ctx_def scanned_ctx_def waiting_slots_def Let_def)
    ultimately have "w_reqs (discard_all r c2 (cx_socket c2) w3) r
      = Some (?q3\<lparr>rq_read_event_handler := rq_read_event_handler q\<rparr>)"
      by (simp only: discard_all_reqs still(4))
    then show ?thesis by - (rule exI, rule conjI, assumption, simp add: hook_req_def)
  qed
  then show ?thesis
    using q2' by (auto dest!: discarded_reqs[where q = q2])
qed

end
