(* ===== verification/Select_Fail.thy ===== *)
theory Select_Fail
  imports Select_Restore
begin

unbundle bit_operations_syntax

text \<open>
  The error exit of \<open>lua_select_module_select\<close>: what \<open>select_fail_cleanup\<close> does to the
  sockets that were accepted so far, and the state a bad entry leaves behind.
\<close>

section \<open>The effect of the cleanup\<close>

definition stop_event :: "bool \<Rightarrow> ngx_event \<Rightarrow> ngx_event" where
  "stop_event b v = (if b then v\<lparr>ev_active := False\<rparr> else v)"

definition stop_conn :: "ngx_lua_select_socket \<Rightarrow> ngx_connection \<Rightarrow> ngx_connection" where
  "stop_conn s conn =
     conn\<lparr>cn_read := stop_event (wants_read s) (cn_read conn),
          cn_write := stop_event (wants_write s) (cn_write conn)\<rparr>"

text \<open>The connection of a socket, through its upstream.\<close>

definition slot_conn :: "world \<Rightarrow> ngx_lua_select_socket \<Rightarrow> ptr" where
  "slot_conn w s =
     (case sk_up s of None \<Rightarrow> None
      | Some a \<Rightarrow> (case w_ups w a of None \<Rightarrow> None | Some u \<Rightarrow> up_peer_connection u))"

definition fail_effect :: "ngx_lua_select_socket \<Rightarrow> world \<Rightarrow> world" where
  "fail_effect s w =
     (case slot_conn w s of None \<Rightarrow> w
      | Some b \<Rightarrow> (case w_conns w b of None \<Rightarrow> w | Some conn \<Rightarrow> put_conn b (stop_conn s conn) w))"

abbreviation fail_all :: "ngx_lua_select_socket list \<Rightarrow> world \<Rightarrow> world" where
  "fail_all ss w \<equiv> fold fail_effect ss w"

text \<open>A slot whose connection exists.\<close>

definition stoppable :: "world \<Rightarrow> ngx_lua_select_socket \<Rightarrow> bool" where
  "stoppable w s \<longleftrightarrow>
     (sk_type s = NGX_LUA_SELECT_TCP_UPSTREAM \<or> sk_type s = NGX_LUA_SELECT_TCP_DOWNSTREAM) \<and>
     (\<exists>a u b conn. sk_up s = Some a \<and> w_ups w a = Some u \<and> up_peer_connection u = Some b \<and>
        w_conns w b = Some conn)"

lemma fail_effect_frame [simp]:
  "ctx_at (fail_effect s w) = ctx_at w" "w_registry (fail_effect s w) = w_registry w"
  "w_ups (fail_effect s w) = w_ups w" "w_reqs (fail_effect s w) = w_reqs w"
  "w_coctxs (fail_effect s w) = w_coctxs w" "w_stack (fail_effect s w) = w_stack w"
  "w_posted (fail_effect s w) = w_posted w" "w_sctxs (fail_effect s w) = w_sctxs w"
  by (auto simp: fail_effect_def split: option.split)

lemma fail_effect_conns:
  "w_conns (fail_effect s w) b =
    (if slot_conn w s = Some b then map_option (stop_conn s) (w_conns w b) else w_conns w b)"
  by (auto simp: fail_effect_def split: option.split)

lemma stoppable_fail_effect [simp]: "stoppable (fail_effect s w) s' \<longleftrightarrow> stoppable w s'"
proof -
  have "(\<exists>conn. w_conns (fail_effect s w) b = Some conn) \<longleftrightarrow> (\<exists>conn. w_conns w b = Some conn)" for b
    by (auto simp: fail_effect_conns)
  then show ?thesis by (simp add: stoppable_def)
qed

lemma fail_all_frame [simp]:
  "ctx_at (fail_all ss w) = ctx_at w" "w_registry (fail_all ss w) = w_registry w"
  "w_ups (fail_all ss w) = w_ups w" "w_reqs (fail_all ss w) = w_reqs w"
  "w_coctxs (fail_all ss w) = w_coctxs w" "w_stack (fail_all ss w) = w_stack w"
  "w_posted (fail_all ss w) = w_posted w" "w_sctxs (fail_all ss w) = w_sctxs w"
  "stoppable (fail_all ss w) s \<longleftrightarrow> stoppable w s"
  by (induction ss arbitrary: w) simp_all

text \<open>The effect on the connections depends on nothing but the upstreams and the connections.\<close>

lemma stop_event_stop_event: "stop_event b (stop_event b' v) = stop_event (b \<or> b') v"
  by (simp add: stop_event_def)

lemma fail_all_conns:
  "w_conns (fail_all ss w) b = map_option (\<lambda>conn. conn
     \<lparr>cn_read := stop_event (\<exists>s \<in> set ss. slot_conn w s = Some b \<and> wants_read s) (cn_read conn),
      cn_write := stop_event (\<exists>s \<in> set ss. slot_conn w s = Some b \<and> wants_write s) (cn_write conn)\<rparr>)
     (w_conns w b)"
proof (induction ss arbitrary: w)
  case Nil
  show ?case by (cases "w_conns w b") (simp_all add: stop_event_def)
next
  case (Cons s ss)
  have "slot_conn (fail_effect s w) = slot_conn w"
    by (simp add: slot_conn_def fun_eq_iff cong: option.case_cong)
  with Cons.IH[of "fail_effect s w"] show ?case
    by (cases "w_conns w b")
      (auto simp: fail_effect_conns stop_conn_def stop_event_stop_event disj_commute conj_disj_distribR
        bex_disj_distrib stop_event_def)
qed

lemma fail_all_conns_same:
  assumes "w_ups v = w_ups w" and "w_conns v = w_conns w"
  shows "w_conns (fail_all ss v) = w_conns (fail_all ss w)"
  using assms
proof (induction ss arbitrary: v w)
  case (Cons s ss)
  have "slot_conn v s = slot_conn w s"
    using Cons.prems(1) by (simp add: slot_conn_def cong: option.case_cong)
  then have "w_conns (fail_effect s v) = w_conns (fail_effect s w)"
    using Cons.prems by (simp add: fail_effect_conns fun_eq_iff)
  with Cons show ?case by simp
qed simp

lemma event_idle: "\<not> ev_active v \<Longrightarrow> v\<lparr>ev_active := False\<rparr> = v"
  by simp

context process_api begin

text \<open>The two event deletions of a round.\<close>

lemma delete_read_run:
  assumes "w_conns w b = Some conn"
  shows "mwhen flag
      (mbind (load w_conns (Some b)) (\<lambda>conn. mwhen (ev_active (cn_read conn))
         (mseq (ext (ngx_del_event E (Read_of b))) (mret ())))) w
    = (Val (), put_conn b (conn\<lparr>cn_read := stop_event flag (cn_read conn)\<rparr>) w)"
  using assms del_event[of w "Read_of b" "cn_read conn"]
  by (cases flag; cases "ev_active (cn_read conn)")
    (simp_all add: run_simps stop_event_def event_idle conns.put_same[OF assms])

lemma delete_write_run:
  assumes "w_conns w b = Some conn"
  shows "mwhen flag
      (mbind (load w_conns (Some b)) (\<lambda>conn. mwhen (ev_active (cn_write conn))
         (mseq (ext (ngx_del_event E (Write_of b))) (mret ())))) w
    = (Val (), put_conn b (conn\<lparr>cn_write := stop_event flag (cn_write conn)\<rparr>) w)"
  using assms del_event[of w "Write_of b" "cn_write conn"]
  by (cases flag; cases "ev_active (cn_write conn)")
    (simp_all add: run_simps stop_event_def event_idle conns.put_same[OF assms])

lemma fail_cleanup_socket_run:
  assumes c: "ctx_at w p = Some c" "i < length (cx_socket c)" "s = cx_socket c ! i"
    and ok: "stoppable w s"
  shows "fail_cleanup_socket E (Some p) i w = (Val (), fail_effect s w)"
proof -
  from ok obtain a u b conn where u: "sk_up s = Some a" "w_ups w a = Some u"
      "up_peer_connection u = Some b" "w_conns w b = Some conn"
    and ty: "sk_type s = NGX_LUA_SELECT_TCP_UPSTREAM \<or> sk_type s = NGX_LUA_SELECT_TCP_DOWNSTREAM"
    by (auto simp: stoppable_def)
  let ?w1 = "put_conn b (conn\<lparr>cn_read := stop_event (wants_read s) (cn_read conn)\<rparr>) w"
  have rd: "mwhen (wants_read s)
      (mbind (load w_conns (Some b)) (\<lambda>conn. mwhen (ev_active (cn_read conn))
         (mseq (ext (ngx_del_event E (Read_of b))) (mret ())))) w = (Val (), ?w1)"
    by (rule delete_read_run[OF u(4)])
  have wr: "mwhen (wants_write s)
      (mbind (load w_conns (Some b)) (\<lambda>conn. mwhen (ev_active (cn_write conn))
         (mseq (ext (ngx_del_event E (Write_of b))) (mret ())))) ?w1
    = (Val (), put_conn b (stop_conn s conn) w)"
    using delete_write_run[of ?w1 b "conn\<lparr>cn_read := stop_event (wants_read s) (cn_read conn)\<rparr>"]
    by (simp add: stop_conn_def)
  have eff: "fail_effect s w = put_conn b (stop_conn s conn) w"
    using u by (simp add: fail_effect_def slot_conn_def)
  from ty show ?thesis
    using c(1,2) c(3)[symmetric] u rd wr
    by (auto simp: fail_cleanup_socket_def run_simps wants_read_def wants_write_def eff)
qed

lemma fail_cleanup_loop:
  assumes c: "ctx_at w p = Some c" and n: "n \<le> length (cx_socket c)"
    and ok: "\<forall>s \<in> set (take n (cx_socket c)). stoppable w s"
  shows "for_each [0..<n] (\<lambda>i _. fail_cleanup_socket E (Some p) i) () w
    = (Val (), fail_all (take n (cx_socket c)) w)"
proof -
  let ?I = "\<lambda>k (u::unit) w'. w' = fail_all (take k (cx_socket c)) w"
  have "\<exists>u w'. for_each [0..<n] (\<lambda>i _. fail_cleanup_socket E (Some p) i) () w = (Val u, w')
      \<and> ?I (length [0..<n]) u w'"
  proof (rule for_each_invariant)
    fix k u w' assume k: "k < length [0..<n]" and w': "?I k u w'"
    let ?s = "cx_socket c ! k"
    have i: "k < length (cx_socket c)" and nth: "[0..<n] ! k = k" using k n by simp_all
    have "?s \<in> set (take n (cx_socket c))" using k n by (auto simp: in_set_conv_nth)
    with ok have "fail_cleanup_socket E (Some p) k w' = (Val (), fail_effect ?s w')"
      using c i w' by (intro fail_cleanup_socket_run) simp_all
    then show "\<exists>u' w''. fail_cleanup_socket E (Some p) ([0..<n] ! k) w' = (Val u', w'')
        \<and> ?I (Suc k) u' w''"
      using i nth w' by (simp add: take_Suc_conv_app_nth)
  qed simp
  then show ?thesis by auto
qed

end

text \<open>The whole cleanup: the context loses its reference, the sockets their pending events.\<close>

definition failed :: "addr \<Rightarrow> ngx_lua_select_ctx \<Rightarrow> nat \<Rightarrow> world \<Rightarrow> world" where
  "failed p c n w =
     fail_all (take n (cx_socket c))
       (put_ctx p (c\<lparr>cx_ref := LUA_NOREF\<rparr>)
         (w\<lparr>w_registry := AList.delete (cx_ref c) (w_registry w)\<rparr>))"

context process_api begin

lemma select_fail_cleanup_run:
  assumes c: "ctx_at w p = Some c" and n: "n \<le> length (cx_socket c)"
    and ref: "cx_ref c \<noteq> LUA_NOREF" "cx_ref c \<in> fst ` set (w_registry w)"
    and ok: "\<forall>s \<in> set (take n (cx_socket c)). stoppable w s"
  shows "select_fail_cleanup E L (Some p) n w = (Val (), failed p c n w)"
proof -
  let ?c = "c\<lparr>cx_ref := LUA_NOREF\<rparr>"
  let ?w = "put_ctx p ?c (w\<lparr>w_registry := AList.delete (cx_ref c) (w_registry w)\<rparr>)"
  have "for_each [0..<n] (\<lambda>i _. fail_cleanup_socket E (Some p) i) () ?w
      = (Val (), fail_all (take n (cx_socket ?c)) ?w)"
    by (rule fail_cleanup_loop) (use n ok in \<open>simp_all add: stoppable_def\<close>)
  with c ref show ?thesis
    by (simp add: select_fail_cleanup_def run_simps unref failed_def)
qed

end

text \<open>The kernel does not answer for the upstream \<open>a\<close>.\<close>

definition ioctl_fails :: "world \<Rightarrow> addr \<Rightarrow> bool" where
  "ioctl_fails w a =
     (case w_ups w a of None \<Rightarrow> False
      | Some u \<Rightarrow> (case up_peer_connection u of None \<Rightarrow> False
         | Some b \<Rightarrow> (case w_conns w b of None \<Rightarrow> False
            | Some conn \<Rightarrow> fst (w_kernel w (cn_fd conn)) < 0)))"

section \<open>The call with a bad entry\<close>

text \<open>
  A call whose table has the good entries \<open>good\<close>, then one that is not, in traversal order.
\<close>

definition rejected_call ::
  "env \<Rightarrow> nat \<Rightarrow> thread \<Rightarrow> world \<Rightarrow> addr \<Rightarrow> addr \<Rightarrow> lua_table \<Rightarrow> lval \<times> lval \<Rightarrow> lua_table \<Rightarrow>
    (32 word \<times> addr \<times> lval) list \<Rightarrow> string \<Rightarrow> bool" where
  "rejected_call E fuel L w r co good e rest xs msg \<longleftrightarrow>
     (\<exists>timeout. parse_args (lua_str2number E) (w_stack w L) = Inr timeout) \<and>
     in_request E L w r co \<and>
     (\<exists>T. lua_at (w_stack w L) 1 = LTable T \<and> table_at w T = Some (good @ e # rest)) \<and>
     wf_table (good @ e # rest) \<and> length (good @ e # rest) < fuel \<and>
     (\<forall>e' \<in> set (good @ [e]). entry_ok w e') \<and>
     check_entries E w r good = Inr xs \<and> check_entry E w r e = Inl msg"

text \<open>A call that gets as far as the entry \<open>e\<close>.\<close>

definition reaches_entry ::
  "env \<Rightarrow> nat \<Rightarrow> thread \<Rightarrow> world \<Rightarrow> addr \<Rightarrow> addr \<Rightarrow> lua_table \<Rightarrow> lval \<times> lval \<Rightarrow> lua_table \<Rightarrow>
    (32 word \<times> addr \<times> lval) list \<Rightarrow> bool" where
  "reaches_entry E fuel L w r co good e rest xs \<longleftrightarrow>
     (\<exists>timeout. parse_args (lua_str2number E) (w_stack w L) = Inr timeout) \<and>
     in_request E L w r co \<and>
     (\<exists>T. lua_at (w_stack w L) 1 = LTable T \<and> table_at w T = Some (good @ e # rest)) \<and>
     wf_table (good @ e # rest) \<and> length (good @ e # rest) < fuel \<and>
     (\<forall>e' \<in> set good. entry_ok w e') \<and> check_entries E w r good = Inr xs"

text \<open>An entry with a userdata that is no TCP upstream, such as the one of a UDP socket.\<close>

definition foreign_entry :: "env \<Rightarrow> world \<Rightarrow> lval \<times> lval \<Rightarrow> bool" where
  "foreign_entry E w e \<longleftrightarrow>
     (case entry_socket E w e of Inr (rw, Some b, v) \<Rightarrow> w_ups w b = None | _ \<Rightarrow> False) \<and>
     (\<forall>a. fst e = LTable a \<or> snd e = LTable a \<longrightarrow> table_at w a \<noteq> None)"

text \<open>The first error is the one of the bad entry.\<close>

lemma rejected_check_entries:
  "check_entries E w r good = Inr xs \<Longrightarrow> check_entry E w r e = Inl msg \<Longrightarrow>
    check_entries E w r (good @ e # rest) = Inl msg"
  by (induction good arbitrary: xs) (auto split: sum.splits)

lemma first_bad_entry:
  "check_entries E w r es = Inl msg \<Longrightarrow>
    \<exists>good e rest xs. es = good @ e # rest \<and> check_entries E w r good = Inr xs \<and>
      check_entry E w r e = Inl msg"
proof (induction es)
  case (Cons e es)
  show ?case
  proof (cases "check_entry E w r e")
    case (Inl m)
    with Cons.prems show ?thesis by (intro exI[of _ "[]"] exI[of _ e] exI[of _ es]) simp
  next
    case (Inr x)
    with Cons.prems have "check_entries E w r es = Inl msg" by (auto split: sum.splits)
    from Cons.IH[OF this] obtain good e' rest xs where
      "es = good @ e' # rest" "check_entries E w r good = Inr xs" "check_entry E w r e' = Inl msg"
      by blast
    with Inr show ?thesis
      by (intro exI[of _ "e # good"] exI[of _ e'] exI[of _ rest] exI[of _ "x # xs"]) simp
  qed
qed simp

lemma delete_cref:
  assumes "fresh_refs (cref # refs) reg"
  shows "AList.delete cref (scan_refs xs refs ((cref, v) # reg)) = scan_refs xs refs reg"
proof -
  let ?new = "rev (zip refs (map (snd \<circ> snd) xs))"
  have app: "AList.delete cref (al @ bl) = AList.delete cref al @ AList.delete cref bl"
    for al bl :: "(int \<times> lval) list"
    by (simp add: AList.delete_eq)
  have "cref \<notin> fst ` set ?new" and "cref \<notin> fst ` set reg"
    using assms by (auto simp: fresh_refs_def dest: set_zip_leftD)
  then show ?thesis by (simp add: scan_refs_def app)
qed

lemma zip_take_ys: "length xs \<le> n \<Longrightarrow> zip xs (take n ys) = zip xs ys"
  by (induction xs arbitrary: n ys) (auto simp: zip_Cons1 take_Cons' split: list.split)

lemma scan_slots_stoppable:
  assumes "open_sockets w xs" and "length refs = length xs" and "length xs \<le> length ss"
  shows "\<forall>s \<in> set (scan_slots w r xs refs ss). stoppable w s"
proof
  fix s assume s: "s \<in> set (scan_slots w r xs refs ss)"
  have "scan_slots w r xs refs ss = scan_slots w r xs refs (take (length xs) ss)"
    using assms(2) by (simp add: scan_slots_def zip_take_ys)
  with s obtain i where i: "i < length xs"
    "s = entry_slot w r (xs ! i) (refs ! i) (take (length xs) ss ! i)"
    using assms(2,3) by (auto simp: in_set_conv_nth nth_scan_slots)
  have "xs ! i \<in> set xs" using i by simp
  with assms(1) i(2) show "stoppable w s"
    by (fastforce simp: open_sockets_def stoppable_def entry_slot_def get_socket_type_tcp Let_def)
qed

context process_api begin

text \<open>A call as far as the entry \<open>e\<close>, those before it entered into the context.\<close>

lemma select_to_entry:
  assumes reach: "reaches_entry E fuel L w r co good e rest xs"
  shows "\<exists>p c cref refs (K :: nat cfun) K2 ss.
    ctx_at w p = None \<and> length refs = length xs \<and> fresh_refs (cref # refs) (w_registry w) \<and>
    cx_ref c = cref \<and> length xs \<le> length (cx_socket c) \<and> length xs = length good \<and>
    length xs \<le> length ss \<and> take (length xs) (cx_socket c) = scan_slots w r xs refs ss \<and>
    lua_select_module_select E fuel L w =
      (mbind (mseq (select_read_entry E L (Some p) (Some r) (length good)) K) K2 :: int cfun)
        (set_stack L (snd e # fst e # w_stack w L) (scanned p c xs refs cref w))"
proof -
  let ?args = "w_stack w L" and ?es = "good @ e # rest"
  from reach obtain T timeout where args: "parse_args (lua_str2number E) ?args = Inr timeout"
    and req: "in_request E L w r co" and T: "lua_at ?args 1 = LTable T" "table_at w T = Some ?es"
    and es: "wf_table ?es" "length ?es < fuel" "\<forall>e' \<in> set good. entry_ok w e'"
      "check_entries E w r good = Inr xs"
    by (auto simp: reaches_entry_def)
  have ne: "?args \<noteq> []" by (rule parse_args_stack[OF args])
  have len: "length xs = length good" by (rule check_entries_length[OF es(4)])
  have rok: "request_ok w r" using req by (simp add: in_request_def)
  obtain p c0 cref where p: "ctx_at w p = None" "length (cx_socket c0) = length ?es" "1 \<le> cref"
      "cref \<notin> fst ` set (w_registry w)"
    and run: "lua_select_module_select E fuel L w =
      mbind (select_scan E fuel L (Some p) (Some r) 0)
        (select_after_scan E L (Some p) (Some r) (Some co) timeout (length ?es))
        (set_stack L (LNil # ?args) (allocated p c0 (length ?es) cref w))"
    using select_to_scan[OF args req T es(1,2)] by blast
  let ?w1 = "set_stack L (LNil # ?args) (allocated p c0 (length ?es) cref w)"
  let ?c2 = "\<lambda>refs. c0\<lparr>cx_count := length ?es, cx_ref := cref, cx_timer := zero_event,
      cx_prev_request_write_handler := Fn_NULL, cx_prev_request_read_handler := Fn_NULL,
      cx_socket := scan_slots w r xs refs (cx_socket c0) @ drop (length good) (cx_socket c0)\<rparr>"
  let ?k = "key_after good"
  obtain refs where refs: "length refs = length xs"
      "fresh_refs refs ((cref, LUserdata p) # w_registry w)"
    and prefix: "select_scan E fuel L (Some p) (Some r) 0 ?w1
      = select_scan E (fuel - length good) L (Some p) (Some r) (length good)
          (set_stack L (?k # ?args) (scanned p (?c2 refs) xs refs cref w))"
    using select_scan_prefix[of ?w1 L "[]" ?args T good "e # rest" fuel r p _ 0 xs] ne T es rok p
    by (auto simp: scanned_def allocated_def)
  let ?w2 = "scanned p (?c2 refs) xs refs cref w"
  obtain fuel' where f: "fuel - length good = Suc fuel'"
    using es(2) by (cases "fuel - length good") auto
  let ?K = "select_scan E fuel' L (Some p) (Some r) (length good + 1)"
  have scan: "select_scan E fuel L (Some p) (Some r) 0 ?w1
      = mseq (select_read_entry E L (Some p) (Some r) (length good)) ?K
          (set_stack L (snd e # fst e # ?args) ?w2)"
    unfolding prefix f
    by (subst select_scan_Suc[where pre = good and args = ?args and e = e and rest = rest and T = T])
      (use ne T es(1) in \<open>simp_all add: scanned_def\<close>)
  have entry: "lua_select_module_select E fuel L w =
      mbind (mseq (select_read_entry E L (Some p) (Some r) (length good)) ?K)
        (select_after_scan E L (Some p) (Some r) (Some co) timeout (length ?es))
        (set_stack L (snd e # fst e # ?args) ?w2)"
    unfolding run by (rule mbind_cong_at) (rule scan)
  have "fresh_refs (cref # refs) (w_registry w)"
    using refs(2) p(3,4) by (auto simp: fresh_refs_def)
  then show ?thesis
    using p refs(1) len entry
    by (intro exI[of _ p] exI[of _ "?c2 refs"] exI[of _ cref] exI[of _ refs] exI[of _ ?K]
        exI[of _ "select_after_scan E L (Some p) (Some r) (Some co) timeout (length ?es)"]
        exI[of _ "cx_socket c0"]) simp
qed

theorem select_bad_entry:
  assumes call: "rejected_call E fuel L w r co good e rest xs msg" and con: "connected w xs"
  shows "\<exists>p c st cref refs.
    ctx_at w p = None \<and> length refs = length xs \<and> fresh_refs (cref # refs) (w_registry w) \<and>
    cx_ref c = cref \<and> length xs \<le> length (cx_socket c) \<and>
    (\<exists>ss. length xs \<le> length ss \<and> take (length xs) (cx_socket c) = scan_slots w r xs refs ss) \<and>
    lua_select_module_select E fuel L w =
      (Raise (Arg_error 1 msg),
       failed p c (length xs) (set_stack L st (scanned p c xs refs cref w)))"
proof -
  from call have reach: "reaches_entry E fuel L w r co good e rest xs" and ok: "entry_ok w e"
    and bad: "check_entry E w r e = Inl msg"
    by (auto simp: rejected_call_def reaches_entry_def)
  have rok: "request_ok w r" using reach by (simp add: reaches_entry_def in_request_def)
  from select_to_entry[OF reach] obtain p c cref refs ss and K :: "nat cfun" and K2
    where p: "ctx_at w p = None" "length refs = length xs" "fresh_refs (cref # refs) (w_registry w)"
      "cx_ref c = cref" "length xs \<le> length (cx_socket c)" "length xs = length good"
      and ss: "length xs \<le> length ss" "take (length xs) (cx_socket c) = scan_slots w r xs refs ss"
      and run: "lua_select_module_select E fuel L w =
      (mbind (mseq (select_read_entry E L (Some p) (Some r) (length good)) K) K2 :: int cfun)
        (set_stack L (snd e # fst e # w_stack w L) (scanned p c xs refs cref w))"
    by blast
  let ?w2 = "scanned p c xs refs cref w"
  obtain st where entry: "select_read_entry E L (Some p) (Some r) (length good)
        (set_stack L (snd e # fst e # w_stack w L) ?w2)
      = (select_fail E L (Some p) (length good) msg :: unit cfun) (set_stack L st ?w2)"
    using select_read_entry_fail[of "set_stack L (snd e # fst e # w_stack w L) ?w2" L "snd e" "fst e"
        "w_stack w L" r msg "Some p" "length good"] ok bad rok by (auto simp: scanned_def)
  have "select_fail_cleanup E L (Some p) (length good) (set_stack L st ?w2)
      = (Val (), failed p c (length good) (set_stack L st ?w2))"
  proof (rule select_fail_cleanup_run)
    show "cx_ref c \<noteq> LUA_NOREF" using p(3,4) by (auto simp: LUA_NOREF_def fresh_refs_def)
    show "cx_ref c \<in> fst ` set (w_registry (set_stack L st ?w2))"
      using p(2,4) by (simp add: scan_refs_fst)
    show "\<forall>s \<in> set (take (length good) (cx_socket c)). stoppable (set_stack L st ?w2) s"
      using scan_slots_stoppable[OF connected_open[OF con] p(2) ss(1), of r] ss(2) p(6)
      by (simp add: stoppable_def scanned_def)
  qed (use p in simp_all)
  then have "(select_fail E L (Some p) (length good) msg :: unit cfun) (set_stack L st ?w2)
      = (Raise (Arg_error 1 msg), failed p c (length good) (set_stack L st ?w2))"
    by (simp add: select_fail_def run_simps)
  with entry have "lua_select_module_select E fuel L w
      = (Raise (Arg_error 1 msg), failed p c (length good) (set_stack L st ?w2))"
    unfolding run by (simp add: run_simps)
  with p ss show ?thesis
    by (intro exI[of _ p] exI[of _ c] exI[of _ st] exI[of _ cref] exI[of _ refs]) auto
qed

text \<open>
  An entry whose table has at index 1 a pointer to something that is no TCP upstream: the checks
  of the scan read through it.
\<close>

theorem select_foreign_entry:
  assumes reach: "reaches_entry E fuel L w r co good e rest xs"
    and e: "foreign_entry E w e"
  shows "fst (lua_select_module_select E fuel L w) = Fault Dangling_deref"
proof -
  from e obtain rw b sock where es: "entry_socket E w e = Inr (rw, Some b, sock)"
    and none: "w_ups w b = None"
    and tables: "\<forall>a. fst e = LTable a \<or> snd e = LTable a \<longrightarrow> table_at w a \<noteq> None"
    by (auto simp: foreign_entry_def split: sum.splits option.splits)
  from select_to_entry[OF reach] obtain p c cref refs and K :: "nat cfun" and K2
    where run: "lua_select_module_select E fuel L w =
      (mbind (mseq (select_read_entry E L (Some p) (Some r) (length good)) K) K2 :: int cfun)
        (set_stack L (snd e # fst e # w_stack w L) (scanned p c xs refs cref w))"
    by blast
  let ?w2 = "set_stack L (snd e # fst e # w_stack w L) (scanned p c xs refs cref w)"
  have "select_entry_socket E L (Some p) (length good) ?w2
      = (Val (rw, Some b), set_stack L (sock # fst e # w_stack w L) ?w2)"
    by (rule select_entry_socket_ok) (use es tables in \<open>auto simp: scanned_def\<close>)
  then have "select_read_entry E L (Some p) (Some r) (length good) ?w2
      = (Fault Dangling_deref, set_stack L (sock # fst e # w_stack w L) ?w2)"
    using none
    by (simp add: select_read_entry_def select_check_upstream_def run_simps)
  then show ?thesis unfolding run by (simp add: run_simps)
qed

end

section \<open>The call when the poll fails\<close>

lemma polled_stoppable:
  assumes "\<forall>s \<in> set ss. stoppable w s"
  shows "\<forall>s \<in> set (polled w ss). stoppable w s"
proof -
  have mark: "stoppable w (poll_mark w s) = stoppable w s" for s
    by (simp add: stoppable_def poll_mark_def)
  show ?thesis
    using assms by (auto simp: polled_def mark dest: set_takeWhileD set_dropWhileD)
qed

context process_api begin

theorem select_ioctl_error:
  assumes call: "accepted_call E fuel L w r co es timeout xs" and con: "open_sockets w xs"
    and bad: "\<exists>x \<in> set xs. ioctl_fails w (fst (snd x))"
  shows "\<exists>p c cref refs. ctx_at w p = None \<and> length refs = length xs \<and>
    fresh_refs (cref # refs) (w_registry w) \<and> cx_ref c = cref \<and> length (cx_socket c) = length xs \<and>
    lua_select_module_select E fuel L w = (Raise (Lua_error ''ioctl error''),
      failed p c (length xs) (scanned p c xs refs cref w))"
proof -
  obtain p c0 cref refs where p: "ctx_at w p = None" and len: "length (cx_socket c0) = length xs"
      "length refs = length xs" and fresh: "fresh_refs (cref # refs) (w_registry w)"
    and run: "lua_select_module_select E fuel L w =
      select_after_scan E L (Some p) (Some r) (Some co) timeout (length xs) (length xs)
        (scanned p (scanned_ctx w r xs refs cref c0) xs refs cref w)"
    using select_scanned[OF call] by blast
  let ?ss = "scan_slots w r xs refs (cx_socket c0)"
  let ?d = "scanned_ctx w r xs refs cref c0"
  let ?c = "?d\<lparr>cx_socket := polled w ?ss\<rparr>"
  have lens: "length ?ss = length xs" using len by simp
  have lenp: "length (polled w ?ss) = length xs"
    using lens unfolding polled_def by (metis length_append length_map takeWhile_dropWhile_id)
  have fails: "\<exists>s \<in> set ?ss. \<not> poll_ok w s"
  proof -
    from bad obtain i where i: "i < length xs" "ioctl_fails w (fst (snd (xs ! i)))"
      by (auto simp: in_set_conv_nth)
    have "xs ! i \<in> set xs" using i(1) by simp
    with con obtain u a conn where u: "w_ups w (fst (snd (xs ! i))) = Some u"
      "up_peer_connection u = Some a" "w_conns w a = Some conn" by (fastforce simp: open_sockets_def)
    have "\<not> poll_ok w (?ss ! i)"
      using i u len
      by (auto simp: nth_scan_slots poll_ok_def socket_poll_def entry_slot_def ioctl_fails_def Let_def)
    with i(1) lens show ?thesis by (metis nth_mem)
  qed
  have poll: "ngx_lua_select_sockets_ready E (Some p) (scanned p ?d xs refs cref w)
      = (Val (Some ''ioctl error'', 0), scanned p ?c xs refs cref w)"
    using sockets_ready_error[of "scanned p ?d xs refs cref w" p ?d] fails lens
      scan_slots_live[OF con len(2,1)]
    by (simp add: scanned_ctx_def)
  have "select_fail_cleanup E L (Some p) (length xs) (scanned p ?c xs refs cref w)
      = (Val (), failed p ?c (length xs) (scanned p ?c xs refs cref w))"
  proof (rule select_fail_cleanup_run)
    show "cx_ref ?c \<noteq> LUA_NOREF" using fresh by (auto simp: scanned_ctx_def fresh_refs_def LUA_NOREF_def)
    show "cx_ref ?c \<in> fst ` set (w_registry (scanned p ?c xs refs cref w))"
      using len by (simp add: scanned_ctx_def scan_refs_fst)
    show "\<forall>s \<in> set (take (length xs) (cx_socket ?c)). stoppable (scanned p ?c xs refs cref w) s"
      using polled_stoppable[OF scan_slots_stoppable[OF con len(2), of "cx_socket c0" r]] len lenp
      by (simp add: stoppable_def scanned_def)
  qed (use lenp in simp_all)
  then have "lua_select_module_select E fuel L w = (Raise (Lua_error ''ioctl error''),
      failed p ?c (length xs) (scanned p ?c xs refs cref w))"
    unfolding run by (simp add: select_after_scan_def run_simps poll)
  with p len fresh lenp show ?thesis
    by (intro exI[of _ p] exI[of _ ?c] exI[of _ cref] exI[of _ refs]) (simp add: scanned_ctx_def)
qed

end

end
