(* ===== verification/Select_Outcomes.thy ===== *)
theory Select_Outcomes
  imports Select_Fail
begin

text \<open>
  What a caller of \<open>ngx.select\<close> can rely on, over all its ends: the outcome as a function of
  the arguments and the sockets, the completion of a wait, and what goes wrong when a socket is
  only to be written, is given twice, or when an event comes too late.
\<close>

section \<open>The outcome of a call\<close>

text \<open>A call whose table exists and whose entries point to valid structures.\<close>

definition wf_call :: "env \<Rightarrow> nat \<Rightarrow> thread \<Rightarrow> world \<Rightarrow> addr \<Rightarrow> addr \<Rightarrow> lua_table \<Rightarrow> bool" where
  "wf_call E fuel L w r co es \<longleftrightarrow>
     in_request E L w r co \<and>
     (\<exists>T. lua_at (w_stack w L) 1 = LTable T \<and> table_at w T = Some es) \<and> wf_table es \<and>
     length es < fuel \<and> (\<forall>e \<in> set es. entry_ok w e)"

text \<open>Every open upstream has a connection, and \<open>ioctl\<close> succeeds on it.\<close>

definition conns_ok :: "world \<Rightarrow> bool" where
  "conns_ok w \<longleftrightarrow>
     (\<forall>a u b. w_ups w a = Some u \<longrightarrow> up_peer_connection u = Some b \<longrightarrow>
        (\<exists>conn. w_conns w b = Some conn \<and> 0 \<le> fst (w_kernel w (cn_fd conn))))"

definition call_outcome ::
  "env \<Rightarrow> world \<Rightarrow> addr \<Rightarrow> lua_table \<Rightarrow> lval list \<Rightarrow> int outcome" where
  "call_outcome E w r es args =
     (case parse_args (lua_str2number E) args of
        Inl e \<Rightarrow> Raise e
      | Inr timeout \<Rightarrow>
          (case check_entries E w r es of
             Inl msg \<Rightarrow> Raise (Arg_error 1 msg)
           | Inr xs \<Rightarrow>
               if \<exists>x \<in> set xs. readable w (fst (snd x)) then Fault Null_deref else Yield 0))"

lemma check_entry_upstream:
  assumes "check_entry E w r e = Inr x"
  shows "\<exists>u b. w_ups w (fst (snd x)) = Some u \<and> up_request u = Some r \<and> up_peer_connection u = Some b"
  using assms by (rule check_entryE) (auto dest: upstream_error_None)

lemma conns_ok_connected:
  assumes "conns_ok w" and "check_entries E w r es = Inr xs"
  shows "connected w xs"
  unfolding connected_def
proof
  fix x assume "x \<in> set xs"
  from check_entries_mem[OF assms(2) this] obtain e where "check_entry E w r e = Inr x" .
  from check_entry_upstream[OF this] assms(1)
  show "\<exists>u a conn. w_ups w (fst (snd x)) = Some u \<and> up_peer_connection u = Some a \<and>
      w_conns w a = Some conn \<and> 0 \<le> fst (w_kernel w (cn_fd conn))"
    by (fastforce simp: conns_ok_def)
qed

context process_api begin

lemma select_bad_args:
  assumes "parse_args (lua_str2number E) (w_stack w L) = Inl e"
  shows "lua_select_module_select E fuel L w = (Raise e, w)"
  using assms by (simp add: lua_select_module_select_def run_simps select_check_args_run)

lemma select_outcome_run:
  assumes call: "wf_call E fuel L w r co es" and con: "conns_ok w"
    and args: "parse_args (lua_str2number E) (w_stack w L) = Inr timeout"
    and wait: "can_wait w co timeout" and new: "not_selecting w r"
  shows "fst (lua_select_module_select E fuel L w) = call_outcome E w r es (w_stack w L)"
proof (cases "check_entries E w r es")
  case (Inl msg)
  obtain good e rest xs where es: "es = good @ e # rest" "check_entries E w r good = Inr xs"
      "check_entry E w r e = Inl msg"
    using first_bad_entry[OF Inl] by blast
  have "rejected_call E fuel L w r co good e rest xs msg"
    using call args es by (auto simp: rejected_call_def wf_call_def)
  from select_bad_entry[OF this conns_ok_connected[OF con es(2)]] show ?thesis
    using args Inl by (auto simp: call_outcome_def)
next
  case (Inr xs)
  have acc: "accepted_call E fuel L w r co es timeout xs"
    using call args Inr by (auto simp: accepted_call_def wf_call_def)
  have con': "connected w xs" by (rule conns_ok_connected[OF con Inr])
  show ?thesis
  proof (cases "\<exists>x \<in> set xs. readable w (fst (snd x))")
    case True
    then obtain x where x: "x \<in> set xs" "readable w (fst (snd x))" by blast
    obtain q where q: "w_reqs w r = Some q" "rq_ctx q Mod_select = None"
      using new by (auto simp: not_selecting_def)
    obtain w' where "lua_select_module_select E fuel L w = (Fault Null_deref, w')"
      using select_readable_null[OF acc con' x q] by blast
    with args Inr True show ?thesis by (simp add: call_outcome_def)
  next
    case False
    from select_idle_yields[OF acc con' False wait] args Inr False show ?thesis
      by (auto simp: call_outcome_def)
  qed
qed

end

section \<open>Sockets that are only to be written\<close>

lemma installed_kinds:
  assumes len: "length refs = length xs" "length (cx_socket c0) = length xs"
    and es: "check_entries E w r es = Inr xs" and ups: "w_ups w2 = (\<lambda>a. map_option (f a) (w_ups w a))"
    and s: "s \<in> set (cx_socket (waiting_ctx r co timeout xs c0 cref refs w))"
  shows "discardable w2 (waiting_ctx r co timeout xs c0 cref refs w) s \<or>
      sk_type s = NGX_LUA_SELECT_TCP_UPSTREAM \<and> sk_prev_upstream_read_handler s = Fn_NULL \<or>
      sk_type s = NGX_LUA_SELECT_TCP_DOWNSTREAM \<and>
        cx_prev_request_read_handler (waiting_ctx r co timeout xs c0 cref refs w) = Fn_NULL"
proof -
  let ?ss = "waiting_slots w r xs refs c0"
  from s obtain i where i: "i < length ?ss" "s = installed_slots w [] ?ss ! i"
    by (auto simp: waiting_ctx_simps[OF len] in_set_conv_nth)
  then have si: "s = installed_slot w (take i ?ss) (?ss ! i)" by (simp add: nth_installed_slots)
  have "?ss ! i \<in> set ?ss" using i by simp
  then have "tcp_slot w (?ss ! i)"
    unfolding waiting_slots_def by (rule tcp_slot_scanned[OF es len])
  then show ?thesis
  proof (cases rule: tcp_slot_cases)
    case down
    then show ?thesis using si by (auto simp: discardable_def)
  next
    case (up a u)
    then show ?thesis using si ups by (auto simp: discardable_def)
  qed
qed

lemma write_only_not_discardable:
  assumes len: "length refs = length xs" "length (cx_socket c0) = length xs"
    and x: "x \<in> set xs" "\<not> entry_down w r x" "\<not> rw_has (fst x) NGX_LUA_SELECT_READ"
  shows "\<exists>s \<in> set (cx_socket (waiting_ctx r co timeout xs c0 cref refs w)).
    \<not> discardable w2 (waiting_ctx r co timeout xs c0 cref refs w) s"
proof -
  let ?ss = "waiting_slots w r xs refs c0"
  from x(1) obtain i where i: "i < length xs" "xs ! i = x" by (auto simp: in_set_conv_nth)
  then have si: "?ss ! i = entry_slot w r x (refs ! i) (cx_socket c0 ! i)"
    using len by (simp add: waiting_slots_def nth_scan_slots)
  let ?s = "installed_slot w (take i ?ss) (?ss ! i)"
  have "?s \<in> set (installed_slots w [] ?ss)"
    using i len nth_mem[of i "installed_slots w [] ?ss"]
    by (simp add: nth_installed_slots waiting_ctx_simps)
  moreover have "\<not> is_down (?ss ! i)" "\<not> wants_read (?ss ! i)"
    using x si by (simp_all add: entry_slot_kind entry_slot_wants)
  then have "sk_prev_upstream_read_handler ?s = Fn_NULL"
    by (simp add: installed_slot_def Let_def)
  then have "\<not> discardable w2 (waiting_ctx r co timeout xs c0 cref refs w) ?s"
    using \<open>\<not> is_down (?ss ! i)\<close> by (auto simp: discardable_def is_down_def)
  ultimately show ?thesis by (auto simp: waiting_ctx_simps[OF len])
qed

context process_api begin

text \<open>A context with a slot that cannot be discarded stops the process when it is completed.\<close>

lemma resume_assert:
  assumes q: "w_reqs w r = Some q" and len: "length refs = length xs" "length (cx_socket c0) = length xs"
    and fresh: "fresh_refs (cref # refs) (w_registry w)" and es: "check_entries E w r es = Inr xs"
    and x: "x \<in> set xs" "\<not> entry_down w r x" "\<not> rw_has (fst x) NGX_LUA_SELECT_READ"
    and sw: "still_waiting p (waiting_ctx r co timeout xs c0 cref refs w)
               (waiting r co timeout xs p c0 cref refs w) c2 w2"
    and res: "resumable w2 r p c2 sa ca cox"
  shows "\<exists>w3. ngx_stream_lua_select_resume E (Some r) w2 = (Fault Assert_failed, w3)"
proof -
  let ?c = "waiting_ctx r co timeout xs c0 cref refs w"
  let ?ss = "waiting_slots w r xs refs c0"
  let ?m = "marked_ctx w2 c2"
  note heaps = waiting_heaps[OF q len] and ctx = waiting_ctx_simps[OF len]
  from sw obtain t e where c2: "c2 = ?c\<lparr>cx_timer := t, cx_post_completion_ev := e\<rparr>"
    and w2: "w_ups w2 = (\<lambda>a. map_option (hook_up ?ss a) (w_ups w a))"
      "w_registry w2 = scan_refs xs refs ((cref, LUserdata p) # w_registry w)"
    unfolding still_waiting_def by (auto simp: heaps fun_eq_iff)
  obtain n w1 where run: "ngx_stream_lua_select_resume E (Some r) w2 =
       mseq (ngx_stream_lua_select_ctx_cleanup_and_discard E (Some r))
         (resume_thread E (ngx_stream_lua_get_lua_vm E (Some r) (Some sa) w2) (Some r) (Some sa) n) w1"
    and w1: "w_registry w1 = w_registry w2" "w_reqs w1 = w_reqs w2" "w_ups w1 = w_ups w2"
      "ctx_at w1 = (ctx_at w2)(p \<mapsto> ?m)"
    using resume_to_discard[OF res] by (auto simp: Let_def)
  from res obtain q2 where q2: "w_reqs w2 r = Some q2" "rq_ctx q2 Mod_select = Some p"
    by (auto simp: resumable_def)
  have dis: "discardable w1 ?m s = discardable w2 ?c s" for s
    using c2 by (simp add: discardable_cong[OF w1(3)] discardable_def)
  have m: "cx_socket ?m = map (marked w2) (cx_socket ?c)"
    "cx_prev_request_read_handler ?m = cx_prev_request_read_handler ?c"
    using c2 by simp_all
  have kinds: "\<forall>s \<in> set (cx_socket ?c). discardable w2 ?c s \<or>
      sk_type s = NGX_LUA_SELECT_TCP_UPSTREAM \<and> sk_prev_upstream_read_handler s = Fn_NULL \<or>
      sk_type s = NGX_LUA_SELECT_TCP_DOWNSTREAM \<and> cx_prev_request_read_handler ?c = Fn_NULL"
    using installed_kinds[OF len es w2(1)] by blast
  have refs: "map sk_lua_socket_ref (cx_socket c2) = refs"
    using c2 len map_scan_slots_ref[OF len]
    by (simp add: ctx waiting_slots_def map_installed_slots)
  have "\<exists>w3. ngx_stream_lua_select_ctx_cleanup_and_discard E (Some r) w1 = (Fault Assert_failed, w3)"
  proof (rule cleanup_and_discard_assert)
    show "\<forall>s \<in> set (cx_socket ?m). discardable w1 ?m s \<or>
      sk_type s = NGX_LUA_SELECT_TCP_UPSTREAM \<and> sk_prev_upstream_read_handler s = Fn_NULL \<or>
      sk_type s = NGX_LUA_SELECT_TCP_DOWNSTREAM \<and> cx_prev_request_read_handler ?m = Fn_NULL"
      unfolding m using kinds by (simp add: dis del: discardable_marked_ctx)
    show "\<not> (\<forall>s \<in> set (cx_socket ?m). discardable w1 ?m s)"
      unfolding m using write_only_not_discardable[OF len x, of co timeout cref w2]
      by (simp add: dis del: discardable_marked_ctx)
    show "sk_lua_socket_ref ` set (cx_socket ?m) \<subseteq> fst ` set (w_registry w1)"
    proof -
      have "sk_lua_socket_ref ` set (cx_socket ?m) = set refs"
        using arg_cong[OF refs, of set] by (simp add: image_image)
      then show ?thesis unfolding w1 w2(2) scan_refs_fst[OF len(1)] by auto
    qed
    show "distinct (map sk_lua_socket_ref (cx_socket ?m))"
      using refs fresh by (simp add: comp_def fresh_refs_def)
  qed (use res w1 q2 in \<open>simp_all add: resumable_def\<close>)
  then show ?thesis unfolding run by (auto simp: run_simps)
qed

end

section \<open>The result of a completed wait\<close>

definition ptr_ready :: "(ngx_connection \<Rightarrow> ngx_event) \<Rightarrow> world \<Rightarrow> ptr \<Rightarrow> bool" where
  "ptr_ready f w b =
     (case b of None \<Rightarrow> False
      | Some a \<Rightarrow> (case w_conns w a of None \<Rightarrow> False | Some conn \<Rightarrow> ev_ready (f conn)))"

text \<open>
  The entries of the call, in order, that are ready in the way they asked for: \<open>w\<close> is the
  state at the call, \<open>w2\<close> the state at the completion.
\<close>

definition ready_entry ::
  "world \<Rightarrow> world \<Rightarrow> 32 word \<times> addr \<times> lval \<Rightarrow> (lval \<times> string) list" where
  "ready_entry w w2 x =
     (let b = up_peer_connection (the (w_ups w (fst (snd x))));
          rd = (rw_has (fst x) NGX_LUA_SELECT_READ \<and> ptr_ready cn_read w2 b);
          wr = (rw_has (fst x) NGX_LUA_SELECT_WRITE \<and> ptr_ready cn_write w2 b)
      in if rd \<or> wr then [(snd (snd x), mode_string rd wr)] else [])"

definition ready_entries ::
  "world \<Rightarrow> world \<Rightarrow> (32 word \<times> addr \<times> lval) list \<Rightarrow> (lval \<times> string) list" where
  "ready_entries w w2 xs = concat (map (ready_entry w w2) xs)"

lemma ready_entries_conns:
  assumes "w_conns v = w_conns v'"
  shows "ready_entries w v xs = ready_entries w v' xs"
proof -
  have "ptr_ready g v = ptr_ready g v'" for g
    using assms by (simp add: ptr_ready_def fun_eq_iff cong: option.case_cong)
  then have "ready_entry w v = ready_entry w v'" by (simp add: ready_entry_def fun_eq_iff)
  then show ?thesis by (simp add: ready_entries_def)
qed

lemma ready_slot:
  assumes "map_of reg n = Some (snd (snd x))"
  shows "ready_list reg [marked w2 (installed_slot w pre (entry_slot w r x n s))] = ready_entry w w2 x"
  using assms
  by (simp add: ready_list_def ready_entry_def Let_def marked_def entry_slot_wants conn_ready_def
      ptr_ready_def del: mode_string.simps)

lemma ready_list_scan_slots:
  assumes "length refs = length xs" and "length xs = length ss"
    and "\<forall>(n, x) \<in> set (zip refs xs). map_of reg n = Some (snd (snd x))"
  shows "ready_list reg (map (marked w2) (installed_slots w pre (scan_slots w r xs refs ss)))
    = ready_entries w w2 xs"
  using assms
proof (induction refs xs ss arbitrary: pre rule: list_induct3)
  case Nil
  show ?case by (simp add: scan_slots_def ready_entries_def)
next
  case (Cons n refs x xs s ss)
  then have "map_of reg n = Some (snd (snd x))" by simp
  note slot = ready_slot[OF this, of w2 w pre r s]
  let ?s = "entry_slot w r x n s"
  have "ready_list reg (map (marked w2)
        (installed_slots w pre (scan_slots w r (x # xs) (n # refs) (s # ss))))
    = ready_list reg [marked w2 (installed_slot w pre ?s)]
        @ ready_list reg (map (marked w2) (installed_slots w (pre @ [?s]) (scan_slots w r xs refs ss)))"
    by (simp add: ready_list_def)
  also have "\<dots> = ready_entries w w2 (x # xs)"
    using Cons.IH[of "pre @ [?s]"] Cons.prems by (simp add: slot ready_entries_def)
  finally show ?case .
qed

lemma held_ready_list:
  assumes q: "w_reqs w r = Some q" and len: "length refs = length xs" "length (cx_socket c0) = length xs"
    and fresh: "fresh_refs (cref # refs) (w_registry w)"
    and held: "held r p (waiting_ctx r co timeout xs c0 cref refs w)
               (waiting r co timeout xs p c0 cref refs w) c2 w2"
  shows "ready_list (w_registry w2) (map (marked w2) (cx_socket c2)) = ready_entries w w2 xs"
proof -
  have fr: "fresh_refs refs ((cref, LUserdata p) # w_registry w)"
    using fresh by (auto simp: fresh_refs_def)
  have "map_of (w_registry w2) (refs ! i) = Some (snd (snd (xs ! i)))" if i: "i < length xs" for i
    using scan_refs_map_of[OF len(1) fr i] held_heaps(1)[OF q len held, of "refs ! i"] i len by simp
  then have "\<forall>(n, x) \<in> set (zip refs xs). map_of (w_registry w2) n = Some (snd (snd x))"
    by (auto simp: set_zip) (metis snd_conv)
  from ready_list_scan_slots[OF len(1) len(2)[symmetric] this] show ?thesis
    by (simp add: held_slots(2)[OF len held] waiting_slots_def)
qed

text \<open>The handlers of the upstreams and of the request, where they exist.\<close>

definition read_handler_of :: "world \<Rightarrow> addr \<Rightarrow> fnptr option" where
  "read_handler_of w a = map_option up_read_event_handler (w_ups w a)"

definition write_handler_of :: "world \<Rightarrow> addr \<Rightarrow> fnptr option" where
  "write_handler_of w a = map_option up_write_event_handler (w_ups w a)"

definition request_read_handler :: "world \<Rightarrow> addr \<Rightarrow> fnptr option" where
  "request_read_handler w r = map_option rq_read_event_handler (w_reqs w r)"

text \<open>
  The state after a select is over: what it took is back, except a write handler, and nothing else
  of the upstreams and the request has changed.
\<close>

definition forget_handlers :: "tcp_upstream \<Rightarrow> tcp_upstream" where
  "forget_handlers u = u\<lparr>up_read_event_handler := Fn_NULL, up_write_event_handler := Fn_NULL\<rparr>"

definition select_over ::
  "world \<Rightarrow> addr \<Rightarrow> (32 word \<times> addr \<times> lval) list \<Rightarrow> world \<Rightarrow> bool" where
  "select_over w r xs w' \<longleftrightarrow>
     not_selecting w' r \<and> w_registry w' = w_registry w \<and>
     (\<forall>a. read_handler_of w' a = read_handler_of w a) \<and>
     request_read_handler w' r = request_read_handler w r \<and>
     (\<forall>a. map_option forget_handlers (w_ups w' a) = map_option forget_handlers (w_ups w a)) \<and>
     map_option (\<lambda>q. (rq_connection q, rq_ctx q Mod_stream_lua)) (w_reqs w' r) =
       map_option (\<lambda>q. (rq_connection q, rq_ctx q Mod_stream_lua)) (w_reqs w r)"

lemma still_waiting_none:
  assumes "w_reqs w r = Some q" and "length refs = length xs" and "length (cx_socket c0) = length xs"
    and "still_waiting p (waiting_ctx r co timeout xs c0 cref refs w)
          (waiting r co timeout xs p c0 cref refs w) c2 w2"
  shows "w_ups w a = None \<Longrightarrow> w_ups w2 a = None"
  using assms(4) by (simp add: still_waiting_def waiting_heaps[OF assms(1-3)])

lemma discarded_over:
  assumes q: "w_reqs w r = Some q" and len: "length refs = length xs" "length (cx_socket c0) = length xs"
    and fresh: "fresh_refs (cref # refs) (w_registry w)" and rd: "all_read w r xs"
    and dist: "distinct_sockets w r xs"
    and sw: "still_waiting p (waiting_ctx r co timeout xs c0 cref refs w)
               (waiting r co timeout xs p c0 cref refs w) c2 w2"
    and w3: "w_reqs w3 = w_reqs w2" "w_ups w3 = w_ups w2" "w_registry w3 = w_registry w2"
    and q2: "w_reqs w2 r = Some q2"
  shows "select_over w r xs (discarded r q2 p c2 w3)"
proof -
  note registry = waiting_discarded_registry[OF q len fresh sw w3(3)]
    and ups = waiting_discarded_up[OF q len rd dist sw w3(2)]
    and request = waiting_discarded_request[OF q len rd dist sw w3(1) q2]
  have "read_handler_of (discarded r q2 p c2 w3) a = read_handler_of w a" for a
  proof (cases "w_ups w a")
    case None
    then have "w_ups w3 a = None" using still_waiting_none[OF q len sw] w3(2) by simp
    then have "w_ups (discarded r q2 p c2 w3) a = None"
      by (simp add: discarded_ups)
    with None show ?thesis by (simp add: read_handler_of_def)
  next
    case (Some u)
    then show ?thesis using ups[OF Some] by (simp add: read_handler_of_def)
  qed
  moreover have "map_option forget_handlers (w_ups (discarded r q2 p c2 w3) a)
      = map_option forget_handlers (w_ups w a)" for a
  proof (cases "w_ups w a")
    case None
    then have "w_ups (discarded r q2 p c2 w3) a = None"
      using still_waiting_none[OF q len sw] w3(2) by (simp add: discarded_ups)
    with None show ?thesis by simp
  next
    case (Some u)
    then show ?thesis using ups[OF Some] by (simp add: forget_handlers_def)
  qed
  ultimately show ?thesis
    using registry request q by (auto simp: select_over_def not_selecting_def request_read_handler_def)
qed

text \<open>Marking the slots does not change what discarding them does.\<close>

lemma discarded_marked:
  "w_registry (discarded r q p (marked_ctx w c) v) = w_registry (discarded r q p c v)"
  "w_ups (discarded r q p (marked_ctx w c) v) = w_ups (discarded r q p c v)"
  "w_reqs (discarded r q p (marked_ctx w c) v) = w_reqs (discarded r q p c v)"
proof -
  show "w_registry (discarded r q p (marked_ctx w c) v) = w_registry (discarded r q p c v)"
    by (simp add: image_image)
  show "w_ups (discarded r q p (marked_ctx w c) v) = w_ups (discarded r q p c v)"
    by (simp only: discarded_ups discard_all_marked)
  have "discard_all r (marked_ctx w c) (cx_socket (marked_ctx w c)) = discard_all r c (cx_socket c)"
    by (rule discard_all_marked)
  then show "w_reqs (discarded r q p (marked_ctx w c) v) = w_reqs (discarded r q p c v)"
    by (simp only: discarded_def Let_def timer_off_simps) (auto simp: fun_eq_iff discard_all_reqs)
qed

lemma select_over_marked:
  "select_over w r xs (discarded r q p (marked_ctx w2 c) v) = select_over w r xs (discarded r q p c v)"
  by (simp only: select_over_def not_selecting_def read_handler_of_def request_read_handler_def
      discarded_marked)

section \<open>The two ways out of a wait\<close>

context process_api begin

text \<open>The resumption from a state that still holds the select: its results, and the discard.\<close>

lemma held_resume:
  assumes q: "w_reqs w r = Some q" and len: "length refs = length xs" "length (cx_socket c0) = length xs"
    and fresh: "fresh_refs (cref # refs) (w_registry w)" and rd: "all_read w r xs"
    and held: "held r p (waiting_ctx r co timeout xs c0 cref refs w)
               (waiting r co timeout xs p c0 cref refs w) c2 w2"
    and res: "resumable w2 r p c2 sa ca cox" and q2: "w_reqs w2 r = Some q2"
  shows "\<exists>a t w1.
    (let rs = ready_entries w w2 xs; vals = result_values a (ev_timedout (cx_timer c2)) rs;
         w3 = discarded r q2 p (marked_ctx w2 c2) w1 in
     ngx_stream_lua_select_resume E (Some r) w2 =
       resume_thread E (ngx_stream_lua_get_lua_vm E (Some r) (Some sa) w2) (Some r) (Some sa)
         (int (length vals)) w3 \<and>
     take (length vals) (w_stack w3 (co_co cox)) = vals \<and>
     table_at w3 a = Some t \<and> wf_table t \<and> map_of t = result_map 0 Map.empty rs) \<and>
     w_registry w1 = w_registry w2 \<and> w_reqs w1 = w_reqs w2 \<and> w_ups w1 = w_ups w2 \<and>
     w_posted w1 = w_posted w2"
proof -
  have dis: "ctx_discardable w2 r p c2" by (rule held_discardable[OF q len fresh rd held])
  note rs = held_ready_list[OF q len fresh held]
  obtain a1 a2 t w1 where run: "let vals = result_values a2 (ev_timedout (cx_timer c2))
            (ready_entries w w2 xs) in
     wf_table t \<and> map_of t = result_map 0 Map.empty (ready_entries w w2 xs) \<and>
     ngx_stream_lua_select_resume E (Some r) w2 =
       resume_thread E (ngx_stream_lua_get_lua_vm E (Some r) (Some sa) w2) (Some r) (Some sa)
         (int (length vals)) (discarded r q2 p (marked_ctx w2 c2) w1) \<and>
     table_at w1 a2 = Some t \<and>
     w_stack w1 = (w_stack w2)(co_co cox := vals @ LTable a1 # w_stack w2 (co_co cox)) \<and>
     w_registry w1 = w_registry w2 \<and> w_reqs w1 = w_reqs w2 \<and> w_ups w1 = w_ups w2 \<and>
     w_posted w1 = w_posted w2"
    using resume_run[OF res dis q2] unfolding rs by (auto simp: Let_def)
  then show ?thesis
    by (intro exI[of _ a2] exI[of _ t] exI[of _ w1]) (simp add: Let_def)
qed

lemma completion_run:
  assumes q: "w_reqs w r = Some q" and len: "length refs = length xs" "length (cx_socket c0) = length xs"
    and fresh: "fresh_refs (cref # refs) (w_registry w)" and rd: "all_read w r xs"
    and dist: "distinct_sockets w r xs"
    and sw: "still_waiting p (waiting_ctx r co timeout xs c0 cref refs w)
               (waiting r co timeout xs p c0 cref refs w) c2 w2"
    and res: "resumable w2 r p c2 sa ca cox"
  shows "\<exists>a t w3.
    (let rs = ready_entries w w2 xs; vals = result_values a (ev_timedout (cx_timer c2)) rs in
     ngx_stream_lua_select_resume E (Some r) w2 =
       resume_thread E (ngx_stream_lua_get_lua_vm E (Some r) (Some sa) w2) (Some r) (Some sa)
         (int (length vals)) w3 \<and>
     take (length vals) (w_stack w3 (co_co cox)) = vals \<and>
     table_at w3 a = Some t \<and> wf_table t \<and> map_of t = result_map 0 Map.empty rs \<and>
     select_over w r xs w3)"
proof -
  from res obtain q2 where q2: "w_reqs w2 r = Some q2" by (auto simp: resumable_def)
  have "cx_r (waiting_ctx r co timeout xs c0 cref refs w) = Some r"
    by (simp add: waiting_ctx_simps[OF len])
  from held_resume[OF q len fresh rd still_waiting_held[OF sw this] res q2]
  obtain a t w1 where run: "let rs = ready_entries w w2 xs;
         vals = result_values a (ev_timedout (cx_timer c2)) rs;
         w3 = discarded r q2 p (marked_ctx w2 c2) w1 in
     ngx_stream_lua_select_resume E (Some r) w2 =
       resume_thread E (ngx_stream_lua_get_lua_vm E (Some r) (Some sa) w2) (Some r) (Some sa)
         (int (length vals)) w3 \<and>
     take (length vals) (w_stack w3 (co_co cox)) = vals \<and>
     table_at w3 a = Some t \<and> wf_table t \<and> map_of t = result_map 0 Map.empty rs"
    and w1: "w_reqs w1 = w_reqs w2" "w_ups w1 = w_ups w2" "w_registry w1 = w_registry w2"
    by blast
  have "select_over w r xs (discarded r q2 p (marked_ctx w2 c2) w1)"
    unfolding select_over_marked by (rule discarded_over[OF q len fresh rd dist sw w1 q2])
  with run show ?thesis
    by (intro exI[of _ a] exI[of _ t] exI[of _ "discarded r q2 p (marked_ctx w2 c2) w1"])
      (simp add: Let_def)
qed

lemma cancel_run:
  assumes q: "w_reqs w r = Some q" and len: "length refs = length xs" "length (cx_socket c0) = length xs"
    and fresh: "fresh_refs (cref # refs) (w_registry w)" and rd: "all_read w r xs"
    and sw: "still_waiting p (waiting_ctx r co timeout xs c0 cref refs w)
               (waiting r co timeout xs p c0 cref refs w) c2 w2"
    and q2: "w_reqs w2 r = Some q2" and co: "w_coctxs w2 co = Some x" "co_data x = Some r"
  shows "ngx_stream_lua_select_cleanup E (Some co) w2 = (Val (), discarded r q2 p c2 w2)"
  using co cleanup_and_discard_run[OF still_waiting_discardable[OF q len fresh rd sw] q2]
  by (simp add: ngx_stream_lua_select_cleanup_def run_simps)

end

lemma waiting_slots_nth:
  assumes "length refs = length xs" and "length (cx_socket c0) = length xs" and "i < length xs"
  shows "waiting_slots w r xs refs c0 ! i = entry_slot w r (xs ! i) (refs ! i) (cx_socket c0 ! i)"
  using assms by (simp add: waiting_slots_def nth_scan_slots)

text \<open>A field of the slots that the installation keeps.\<close>

lemma waiting_map:
  assumes len: "length refs = length xs" "length (cx_socket c0) = length xs"
    and "\<And>s pre. g (installed_slot w pre s) = g s" and "\<And>x n s. g (entry_slot w r x n s) = h x"
  shows "map g (cx_socket (waiting_ctx r co timeout xs c0 cref refs w)) = map h xs"
proof (rule nth_equalityI)
  have n: "length (waiting_slots w r xs refs c0) = length xs" by (rule waiting_ctx_simps(9)[OF len])
  then show "length (map g (cx_socket (waiting_ctx r co timeout xs c0 cref refs w))) = length (map h xs)"
    by (simp add: waiting_ctx_simps[OF len])
  fix i assume "i < length (map g (cx_socket (waiting_ctx r co timeout xs c0 cref refs w)))"
  then have "i < length xs" using n by (simp add: waiting_ctx_simps[OF len])
  with assms(3,4) n show "map g (cx_socket (waiting_ctx r co timeout xs c0 cref refs w)) ! i = map h xs ! i"
    by (simp add: waiting_ctx_simps[OF len] nth_installed_slots waiting_slots_nth[OF len])
qed

lemma entry_slot_type:
  "sk_type (entry_slot w r x n s) =
    (if entry_down w r x then NGX_LUA_SELECT_TCP_DOWNSTREAM else NGX_LUA_SELECT_TCP_UPSTREAM)"
  by (simp add: entry_slot_def get_socket_type_tcp entry_down_def Let_def)

text \<open>An upstream that is twice in the table is left with the module's own read handler.\<close>

lemma duplicate_stuck:
  assumes q: "w_reqs w r = Some q" and len: "length refs = length xs" "length (cx_socket c0) = length xs"
    and rd: "all_read w r xs" and dup: "2 \<le> length (filter (entry_of w r a) xs)"
    and sw: "still_waiting p (waiting_ctx r co timeout xs c0 cref refs w)
               (waiting r co timeout xs p c0 cref refs w) c2 w2"
    and w3: "w_ups w3 = w_ups w2"
  shows "read_handler_of (discarded r q2 p c2 w3) a = Some Fn_read_upstream_handler"
proof -
  let ?ss = "waiting_slots w r xs refs c0"
  have "\<exists>x \<in> set xs. entry_of w r a x"
    using dup by (auto simp: filter_empty_conv[symmetric] intro: ccontr)
  then obtain ys x zs where xs: "xs = ys @ x # zs" and x: "entry_of w r a x"
    and last: "\<forall>z \<in> set zs. \<not> entry_of w r a z"
    using split_list_last_prop[of xs "entry_of w r a"] by blast
  have "filter (entry_of w r a) ys \<noteq> []"
  proof
    assume "filter (entry_of w r a) ys = []"
    moreover have "filter (entry_of w r a) zs = []" using last by (simp add: filter_empty_conv)
    ultimately show False using dup x by (simp add: xs)
  qed
  then obtain y where "y \<in> set ys" and y: "entry_of w r a y" by (auto simp: filter_empty_conv)
  then obtain i where i: "i < length ys" "ys ! i = y" by (auto simp: in_set_conv_nth)
  let ?j = "length ys"
  have lens: "length ?ss = length xs" "?j < length xs" using len by (simp_all add: waiting_slots_def xs)
  have slot: "?ss ! k = entry_slot w r (xs ! k) (refs ! k) (cx_socket c0 ! k)" if "k < length xs" for k
    by (rule waiting_slots_nth[OF len that])
  have kind: "is_up a (?ss ! k) = entry_of w r a (xs ! k)" if "k < length xs" for k
    using slot[OF that] by (simp add: entry_slot_kind entry_of_def)
  have wr: "wants_read (?ss ! k)" if "k < length xs" for k
    using slot[OF that] rd nth_mem[OF that] by (simp add: entry_slot_wants all_read_def)
  have split: "?ss = take ?j ?ss @ ?ss ! ?j # drop (Suc ?j) ?ss"
    using lens by (intro id_take_nth_drop) simp
  have post: "filter (is_up a) (drop (Suc ?j) ?ss) = []"
  proof (rule filter_False, rule ballI)
    fix s assume "s \<in> set (drop (Suc ?j) ?ss)"
    then obtain k where "k < length (drop (Suc ?j) ?ss)" "s = drop (Suc ?j) ?ss ! k"
      by (metis in_set_conv_nth)
    then have k: "Suc ?j + k < length xs" "s = ?ss ! (Suc ?j + k)" using lens by simp_all
    then have "xs ! (Suc ?j + k) \<in> set zs" by (simp add: xs nth_append)
    with last kind[OF k(1)] k(2) show "\<not> is_up a s" by simp
  qed
  have pre: "?ss ! i \<in> set (take ?j ?ss)"
    using i lens by (auto simp: in_set_conv_nth intro!: exI[of _ i])
  have up_i: "is_up a (?ss ! i)" using kind[of i] i y by (simp add: xs nth_append)
  have up_j: "is_up a (?ss ! ?j)" using kind[of ?j] x by (simp add: xs)
  have rd_i: "wants_read (?ss ! i)" and rd_j: "wants_read (?ss ! ?j)"
    using wr i lens by (auto simp: xs)
  have "x \<in> set xs" by (simp add: xs)
  then obtain u where u: "w_ups w a = Some u" using rd x by (auto simp: all_read_def entry_of_def)
  then obtain u1 where u1: "w_ups w3 a = Some u1"
    using sw w3 by (auto simp: still_waiting_def waiting_heaps[OF q len])
  have c2: "cx_socket c2 = installed_slots w [] ?ss"
    using sw by (auto simp: still_waiting_def waiting_heaps[OF q len] waiting_ctx_simps[OF len])
  from stuck_up[OF u u1 split up_j rd_j post pre up_i rd_i, of r c2] show ?thesis
    by (auto simp: read_handler_of_def discarded_ups c2)
qed

section \<open>The handlers while the coroutine waits\<close>

lemma ex_waiting_slots:
  assumes "length refs = length xs" and "length (cx_socket c0) = length xs"
    and "\<And>x n s. P (entry_slot w r x n s) \<longleftrightarrow> Q x"
  shows "(\<exists>s \<in> set (waiting_slots w r xs refs c0). P s) \<longleftrightarrow> (\<exists>x \<in> set xs. Q x)"
proof
  assume "\<exists>s \<in> set (waiting_slots w r xs refs c0). P s"
  then obtain s where s: "s \<in> set (waiting_slots w r xs refs c0)" "P s" by blast
  obtain x n s0 where "x \<in> set xs" "s = entry_slot w r x n s0"
    by (rule in_waiting_slots[OF s(1) assms(1,2)])
  with s(2) assms(3) show "\<exists>x \<in> set xs. Q x" by blast
next
  assume "\<exists>x \<in> set xs. Q x"
  then obtain i where i: "i < length xs" "Q (xs ! i)" by (auto simp: in_set_conv_nth)
  have "P (waiting_slots w r xs refs c0 ! i)"
    unfolding waiting_slots_nth[OF assms(1,2) i(1)] using i(2) assms(3) by blast
  moreover have "i < length (waiting_slots w r xs refs c0)"
    using i(1) assms(1,2) by (simp add: waiting_slots_def)
  ultimately show "\<exists>s \<in> set (waiting_slots w r xs refs c0). P s" using nth_mem by blast
qed

lemma waiting_handlers:
  assumes q: "w_reqs w r = Some q" and len: "length refs = length xs" "length (cx_socket c0) = length xs"
    and u: "w_ups w a = Some u"
  shows "read_handler_of (waiting r co timeout xs p c0 cref refs w) a =
      Some (if \<exists>x \<in> set xs. entry_of w r a x \<and> rw_has (fst x) NGX_LUA_SELECT_READ
            then Fn_read_upstream_handler else up_read_event_handler u)"
    and "write_handler_of (waiting r co timeout xs p c0 cref refs w) a =
      Some (if \<exists>x \<in> set xs. entry_of w r a x \<and> rw_has (fst x) NGX_LUA_SELECT_WRITE
            then Fn_write_upstream_handler else up_write_event_handler u)"
  using u
    ex_waiting_slots[OF len, of "\<lambda>s. is_up a s \<and> wants_read s" w r
      "\<lambda>x. entry_of w r a x \<and> rw_has (fst x) NGX_LUA_SELECT_READ"]
    ex_waiting_slots[OF len, of "\<lambda>s. is_up a s \<and> wants_write s" w r
      "\<lambda>x. entry_of w r a x \<and> rw_has (fst x) NGX_LUA_SELECT_WRITE"]
  by (simp_all add: read_handler_of_def write_handler_of_def waiting_heaps[OF q len] hook_up_def
      hooked_def entry_slot_kind entry_slot_wants entry_of_def)

lemma waiting_request_handler:
  assumes q: "w_reqs w r = Some q" and len: "length refs = length xs" "length (cx_socket c0) = length xs"
  shows "request_read_handler (waiting r co timeout xs p c0 cref refs w) r =
      Some (if \<exists>x \<in> set xs. entry_down w r x \<and> rw_has (fst x) NGX_LUA_SELECT_READ
            then Fn_read_request_handler else rq_read_event_handler q)"
  using ex_waiting_slots[OF len, of "\<lambda>s. is_down s \<and> wants_read s" w r
      "\<lambda>x. entry_down w r x \<and> rw_has (fst x) NGX_LUA_SELECT_READ"]
  by (simp add: request_read_handler_def waiting_heaps[OF q len] hook_req_def hooked_def
      entry_slot_kind entry_slot_wants)

lemma waiting_refs_map:
  assumes len: "length refs = length xs" "length (cx_socket c0) = length xs"
    and fresh: "fresh_refs (cref # refs) (w_registry w)" and refs: "map sk_lua_socket_ref ss = refs"
  shows "map (\<lambda>s. map_of (w_registry (waiting r co timeout xs p c0 cref refs w)) (sk_lua_socket_ref s)) ss
    = map (Some \<circ> snd \<circ> snd) xs"
proof (rule nth_equalityI)
  show eq: "length (map (\<lambda>s. map_of (w_registry (waiting r co timeout xs p c0 cref refs w))
      (sk_lua_socket_ref s)) ss) = length (map (Some \<circ> snd \<circ> snd) xs)"
    using len refs by auto
  fix i assume "i < length (map (\<lambda>s. map_of (w_registry (waiting r co timeout xs p c0 cref refs w))
      (sk_lua_socket_ref s)) ss)"
  with eq have i: "i < length ss" "i < length xs" by simp_all
  have fr: "fresh_refs refs ((cref, LUserdata p) # w_registry w)"
    using fresh by (auto simp: fresh_refs_def)
  have "sk_lua_socket_ref (ss ! i) = refs ! i" using refs i by auto
  then show "map (\<lambda>s. map_of (w_registry (waiting r co timeout xs p c0 cref refs w))
      (sk_lua_socket_ref s)) ss ! i = map (Some \<circ> snd \<circ> snd) xs ! i"
    using scan_refs_map_of[OF len(1) fr i(2)] i by simp
qed

lemma waiting_self_ref:
  assumes "length refs = length xs" and "fresh_refs (cref # refs) reg"
  shows "map_of (scan_refs xs refs ((cref, v) # reg)) cref = Some v"
proof -
  have "cref \<notin> fst ` set (rev (zip refs (map (snd \<circ> snd) xs)))"
    using assms by (auto simp: fresh_refs_def dest: set_zip_leftD)
  then have "map_of (rev (zip refs (map (snd \<circ> snd) xs))) cref = None"
    by (simp only: map_of_None_fst) simp
  then show ?thesis by (simp add: scan_refs_def map_add_def)
qed

lemma waiting_timer_set:
  "ev_timer_set (cx_timer (waiting_ctx r co timeout xs c0 cref refs w)) = lua_number_pos timeout"
  by (simp add: waiting_ctx_def armed_ctx_def installed_ctx_def scanned_ctx_def Let_def zero_event_def)

section \<open>From the yield to the completion\<close>

text \<open>
  A later state of a waiting process: any change of the connections, and the timer's flag.
\<close>

definition after_wait ::
  "(addr \<Rightarrow> ngx_connection \<Rightarrow> ngx_connection) \<Rightarrow> bool \<Rightarrow> addr \<Rightarrow> world \<Rightarrow> world" where
  "after_wait f timedout p w =
     upd_event (Timer_of p) (\<lambda>v. v\<lparr>ev_timedout := timedout\<rparr>)
       (w\<lparr>w_conns := (\<lambda>a. map_option (f a) (w_conns w a))\<rparr>)"

lemma after_wait_simps:
  assumes "ctx_at w p = Some c"
  shows "ctx_at (after_wait f tmo p w)
      = (ctx_at w)(p \<mapsto> c\<lparr>cx_timer := (cx_timer c)\<lparr>ev_timedout := tmo\<rparr>\<rparr>)"
    and "w_reqs (after_wait f tmo p w) = w_reqs w" and "w_ups (after_wait f tmo p w) = w_ups w"
    and "w_registry (after_wait f tmo p w) = w_registry w"
    and "w_sctxs (after_wait f tmo p w) = w_sctxs w"
    and "w_coctxs (after_wait f tmo p w) = w_coctxs w"
    and "w_stack (after_wait f tmo p w) = w_stack w"
    and "w_posted (after_wait f tmo p w) = w_posted w"
    and "w_conns (after_wait f tmo p w) = (\<lambda>a. map_option (f a) (w_conns w a))"
  using assms by (simp_all add: after_wait_def)

lemma after_wait_still:
  assumes "ctx_at w' p = Some c"
  shows "still_waiting p c w' (c\<lparr>cx_timer := (cx_timer c)\<lparr>ev_timedout := tmo\<rparr>\<rparr>) (after_wait f tmo p w')"
proof -
  have "\<exists>t e. c\<lparr>cx_timer := (cx_timer c)\<lparr>ev_timedout := tmo\<rparr>\<rparr> = c\<lparr>cx_timer := t, cx_post_completion_ev := e\<rparr>"
    by (intro exI[of _ "(cx_timer c)\<lparr>ev_timedout := tmo\<rparr>"] exI[of _ "cx_post_completion_ev c"]) simp
  then show ?thesis
    using assms unfolding still_waiting_def by (simp add: after_wait_simps[OF assms])
qed

lemma still_waiting_refl:
  assumes "ctx_at w' p = Some c"
  shows "still_waiting p c w' c w'"
proof -
  have "c = c\<lparr>cx_timer := cx_timer c, cx_post_completion_ev := cx_post_completion_ev c\<rparr>" by simp
  then have "\<exists>t e. c = c\<lparr>cx_timer := t, cx_post_completion_ev := e\<rparr>" by blast
  with assms show ?thesis by (simp add: still_waiting_def)
qed

lemma waiting_conns_live:
  assumes len: "length refs = length xs" "length (cx_socket c0) = length xs"
    and con: "connected w xs" and w2: "w_conns w2 = (\<lambda>a. map_option (f a) (w_conns w a))"
  shows "conns_live w2 (installed_slots w [] (waiting_slots w r xs refs c0))"
proof -
  have live: "conns_live w (waiting_slots w r xs refs c0)"
    unfolding waiting_slots_def by (rule scan_slots_live[OF connected_open[OF con] len])
  have "sk_connection ` set (installed_slots w [] (waiting_slots w r xs refs c0))
      = sk_connection ` set (waiting_slots w r xs refs c0)"
    by (simp add: map_installed_slots flip: set_map)
  then have "\<exists>t \<in> set (waiting_slots w r xs refs c0). sk_connection s = sk_connection t"
    if "s \<in> set (installed_slots w [] (waiting_slots w r xs refs c0))" for s
    using that by (metis imageE imageI)
  with live show ?thesis by (fastforce simp: conns_live_def w2)
qed

lemma waiting_refs_live:
  assumes len: "length refs = length xs" "length (cx_socket c0) = length xs"
    and fresh: "fresh_refs (cref # refs) (w_registry w)" and es: "check_entries E w r es = Inr xs"
  shows "refs_live (scan_refs xs refs ((cref, LUserdata p) # w_registry w))
    (installed_slots w [] (waiting_slots w r xs refs c0))"
proof (rule scan_refs_live[OF es len(1)])
  show "fresh_refs refs ((cref, LUserdata p) # w_registry w)"
    using fresh by (auto simp: fresh_refs_def)
  show "map sk_lua_socket_ref (installed_slots w [] (waiting_slots w r xs refs c0)) = refs"
    by (simp add: map_installed_slots waiting_slots_def map_scan_slots_ref[OF len])
qed (use len in \<open>simp add: waiting_slots_def\<close>)

text \<open>The stream module's context of the request, in the phase that runs Lua code.\<close>

definition in_content :: "world \<Rightarrow> addr \<Rightarrow> addr \<Rightarrow> bool" where
  "in_content w r sa \<longleftrightarrow>
     (\<exists>q sc. w_reqs w r = Some q \<and> rq_ctx q Mod_stream_lua = Some sa \<and> w_sctxs w sa = Some sc \<and>
        sc_entered_content_phase sc)"

context process_api begin

text \<open>
  From the yield to the call of \<open>ngx_stream_lua_select_resume\<close>, whatever became ready.
\<close>

lemma wait_to_resume:
  assumes call: "accepted_call E fuel L w r co es timeout xs" and con: "connected w xs"
    and idle: "\<not> (\<exists>x \<in> set xs. readable w (fst (snd x)))" and wait: "can_wait w co timeout"
    and content: "in_content w r sa" and cox: "w_coctxs w co = Some cox"
  shows "\<exists>w' p c0 cref refs.
    lua_select_module_select E fuel L w = (Yield 0, w') \<and>
    w' = waiting r co timeout xs p c0 cref refs w \<and>
    length (cx_socket c0) = length xs \<and> length refs = length xs \<and>
    fresh_refs (cref # refs) (w_registry w) \<and>
    (\<forall>f tmo. \<exists>c2 w2 x2.
      ngx_stream_lua_select_post_completion_handler E (Completion_of p) (after_wait f tmo p w')
        = mseq (ngx_stream_lua_select_resume E (Some r)) (mret ()) w2 \<and>
      still_waiting p (waiting_ctx r co timeout xs c0 cref refs w) w' c2 w2 \<and>
      resumable w2 r p c2 sa co x2 \<and> co_co x2 = co_co cox \<and>
      ev_timedout (cx_timer c2) = tmo \<and> w_conns w2 = w_conns (after_wait f tmo p w'))"
proof -
  from select_idle_yields[OF call con idle wait] obtain p c0 cref refs
    where len: "length (cx_socket c0) = length xs" "length refs = length xs"
      and fresh: "fresh_refs (cref # refs) (w_registry w)"
      and run: "lua_select_module_select E fuel L w
        = (Yield 0, waiting r co timeout xs p c0 cref refs w)"
    by blast
  let ?w' = "waiting r co timeout xs p c0 cref refs w"
  let ?c = "waiting_ctx r co timeout xs c0 cref refs w"
  note len' = len(2,1)
  obtain q sc where q: "w_reqs w r = Some q" "rq_ctx q Mod_stream_lua = Some sa"
    and sc: "w_sctxs w sa = Some sc" "sc_entered_content_phase sc"
    using content by (auto simp: in_content_def)
  note heaps = waiting_heaps[OF q(1) len'] and ctx = waiting_ctx_simps[OF len']
  have es: "check_entries E w r es = Inr xs" using call by (simp add: accepted_call_def)
  have at: "ctx_at ?w' p = Some ?c" by (simp add: heaps)
  have "\<exists>c2 w2 x2.
      ngx_stream_lua_select_post_completion_handler E (Completion_of p) (after_wait f tmo p ?w')
        = mseq (ngx_stream_lua_select_resume E (Some r)) (mret ()) w2 \<and>
      still_waiting p ?c ?w' c2 w2 \<and>
      resumable w2 r p c2 sa co x2 \<and> co_co x2 = co_co cox \<and>
      ev_timedout (cx_timer c2) = tmo \<and> w_conns w2 = w_conns (after_wait f tmo p ?w')" for f tmo
  proof -
    let ?a = "after_wait f tmo p ?w'"
    let ?c2 = "?c\<lparr>cx_timer := (cx_timer ?c)\<lparr>ev_timedout := tmo\<rparr>\<rparr>"
    let ?x = "cox\<lparr>co_cleanup := Fn_cleanup, co_data := Some r\<rparr>"
    let ?w2 = "put_sctx sa (sc\<lparr>sc_cur_co_ctx := Some co\<rparr>)
                (put_coctx co (?x\<lparr>co_cleanup := Fn_NULL\<rparr>) ?a)"
    note aw = after_wait_simps[OF at]
    have run2: "ngx_stream_lua_select_post_completion_handler E (Completion_of p) ?a
        = mseq (ngx_stream_lua_select_resume E (Some r)) (mret ()) ?w2"
      by (subst post_completion_run[where p = p and c = ?c2 and r = r and ca = co and x = ?x and sa = sa
            and sc = sc and v = "cx_post_completion_ev ?c2"
            and q = "(hook_req (waiting_slots w r xs refs c0) q)\<lparr>rq_ctx := (rq_ctx q)(Mod_select := Some p)\<rparr>"])
        (use q sc cox in \<open>simp_all add: aw heaps ctx selecting_def Let_def\<close>)
    have sw: "still_waiting p ?c ?w' ?c2 ?w2"
      using after_wait_still[OF at, of tmo f] by (simp add: still_waiting_def)
    have conns: "conns_live ?w2 (cx_socket ?c2)"
      using waiting_conns_live[OF len' con, of ?w2 f] by (simp add: ctx aw)
    have refs: "refs_live (w_registry ?w2) (cx_socket ?c2)"
      using waiting_refs_live[OF len' fresh es] by (simp add: ctx aw)
    have "resumable ?w2 r p ?c2 sa co (?x\<lparr>co_cleanup := Fn_NULL\<rparr>)"
      using conns refs q sc cox by (simp add: resumable_def aw heaps ctx)
    with run2 sw show ?thesis
      by (intro exI[of _ ?c2] exI[of _ ?w2] exI[of _ "?x\<lparr>co_cleanup := Fn_NULL\<rparr>"]) simp
  qed
  with run len fresh show ?thesis
    by (intro exI[of _ ?w'] exI[of _ p] exI[of _ c0] exI[of _ cref] exI[of _ refs]) simp
qed

end

section \<open>Selecting again\<close>

text \<open>What the check of a socket table reads, apart from the upstreams and the request.\<close>

definition tables_kept :: "world \<Rightarrow> world \<Rightarrow> bool" where
  "tables_kept w w' \<longleftrightarrow>
     (\<forall>a t. table_at w a = Some t \<longrightarrow> table_at w' a = Some t) \<and>
     (\<forall>b c. w_conns w b = Some c \<longrightarrow> map_option cn_buffered (w_conns w' b) = Some (cn_buffered c))"

lemma entry_socket_kept:
  assumes "tables_kept w w'" and "entry_ok w e"
  shows "entry_socket E w' e = entry_socket E w e"
proof -
  have "the_entries w' a = the_entries w a" if "fst e = LTable a \<or> snd e = LTable a" for a
    using assms that by (auto simp: tables_kept_def entry_ok_def the_entries_def)
  then show ?thesis
    by (auto simp: entry_socket_def Let_def split: lval.splits option.splits)
qed

lemma upstream_error_kept:
  assumes kept: "tables_kept w w'" and over: "select_over w r xs w'" and ok: "request_ok w r"
    and u: "forget_handlers u' = forget_handlers u"
  shows "upstream_error w' r rw u' = upstream_error w r rw u"
proof -
  from ok obtain q a conn where q: "w_reqs w r = Some q" "rq_connection q = Some a"
      "w_conns w a = Some conn"
    by (auto simp: request_ok_def)
  from over q(1) obtain q' where "w_reqs w' r = Some q'" "rq_connection q' = rq_connection q"
    by (auto simp: select_over_def)
  moreover from kept q(3) obtain conn' where "w_conns w' a = Some conn'"
      "cn_buffered conn' = cn_buffered conn"
    by (fastforce simp: tables_kept_def)
  ultimately have "request_buffered w' r = request_buffered w r"
    using q by (simp add: request_buffered_def)
  moreover from u have "up_peer_connection u' = up_peer_connection u \<and>
      up_read_closed u' = up_read_closed u \<and> up_request u' = up_request u \<and>
      up_conn_waiting u' = up_conn_waiting u \<and> up_read_waiting u' = up_read_waiting u \<and>
      up_write_waiting u' = up_write_waiting u \<and> up_raw_downstream u' = up_raw_downstream u"
    by (cases u; cases u') (simp add: forget_handlers_def)
  ultimately show ?thesis by (simp only: upstream_error_def)
qed

lemma check_entry_kept:
  assumes kept: "tables_kept w w'" and over: "select_over w r xs w'" and ok: "request_ok w r"
    and e: "entry_ok w e"
  shows "check_entry E w' r e = check_entry E w r e"
proof -
  have "(case w_ups w' a of None \<Rightarrow> Inl msg_amiss
      | Some up \<Rightarrow> (case upstream_error w' r rw up of Some msg \<Rightarrow> Inl msg | None \<Rightarrow> Inr (rw, a, v)))
    = (case w_ups w a of None \<Rightarrow> Inl msg_amiss
      | Some up \<Rightarrow> (case upstream_error w r rw up of Some msg \<Rightarrow> Inl msg | None \<Rightarrow> Inr (rw, a, v)))"
    for a rw and v :: lval
  proof -
    have "map_option forget_handlers (w_ups w' a) = map_option forget_handlers (w_ups w a)"
      using over by (simp add: select_over_def)
    then show ?thesis
      using upstream_error_kept[OF kept over ok]
      by (cases "w_ups w a"; cases "w_ups w' a") simp_all
  qed
  then show ?thesis
    by (simp add: check_entry_def entry_socket_kept[OF kept e] split: sum.split option.split)
qed

lemma check_entries_kept:
  assumes "tables_kept w w'" and "select_over w r xs w'" and "request_ok w r"
    and "\<forall>e \<in> set es. entry_ok w e"
  shows "check_entries E w' r es = check_entries E w r es"
  using assms(4) by (induction es) (simp_all add: check_entry_kept[OF assms(1-3)] cong: sum.case_cong)

lemma entry_ok_kept:
  assumes kept: "tables_kept w w'" and over: "select_over w r xs w'" and e: "entry_ok w e"
  shows "entry_ok w' e"
  unfolding entry_ok_def
proof (intro allI impI conjI)
  fix a assume a: "fst e = LTable a \<or> snd e = LTable a"
  with e obtain t where t: "table_at w a = Some t" by (auto simp: entry_ok_def)
  with kept have t': "table_at w' a = Some t" by (simp add: tables_kept_def)
  then show "table_at w' a \<noteq> None" by simp
  fix b assume "lval_userdata (table_get (the_entries w' a) (lua_int 1)) = Some b"
  with e a t t' have "w_ups w b \<noteq> None" by (auto simp: entry_ok_def the_entries_def)
  moreover have "map_option forget_handlers (w_ups w' b) = map_option forget_handlers (w_ups w b)"
    using over by (simp add: select_over_def)
  ultimately show "w_ups w' b \<noteq> None" by auto
qed

context process_api begin

text \<open>
  The same socket table again, from any coroutine of the request, after a select on it is over.
\<close>

lemma select_again_run:
  assumes call: "accepted_call E fuel L w r co es timeout xs"
    and over: "select_over w r xs w'" and kept: "tables_kept w w'"
    and req: "in_request E L2 w' r co2"
    and T: "lua_at (w_stack w' L2) 1 = LTable T" "table_at w' T = Some es"
    and args: "parse_args (lua_str2number E) (w_stack w' L2) = Inr timeout2"
    and wait: "can_wait w' co2 timeout2" and conns: "conns_ok w'"
  shows "fst (lua_select_module_select E fuel L2 w') =
    (if \<exists>x \<in> set xs. readable w' (fst (snd x)) then Fault Null_deref else Yield 0)"
proof -
  from call have es: "wf_table es" "length es < fuel" "\<forall>e \<in> set es. entry_ok w e"
      "check_entries E w r es = Inr xs" and ok: "request_ok w r"
    by (auto simp: accepted_call_def in_request_def)
  have "check_entries E w' r es = Inr xs"
    using check_entries_kept[OF kept over ok es(3)] es(4) by simp
  moreover have "wf_call E fuel L2 w' r co2 es"
    using req T es entry_ok_kept[OF kept over] by (auto simp: wf_call_def)
  moreover have "not_selecting w' r" using over by (simp add: select_over_def)
  ultimately show ?thesis
    using select_outcome_run[of fuel L2 w' r co2 es timeout2] conns args wait
    by (simp add: call_outcome_def)
qed

text \<open>A cancelled wait is over, and has touched neither tables nor connections.\<close>

lemma cancel_over:
  assumes call: "accepted_call E fuel L w r co es timeout xs"
    and con: "connected w xs" and idle: "\<not> (\<exists>x \<in> set xs. readable w (fst (snd x)))"
    and wait: "can_wait w co timeout" and rd: "all_read w r xs" and dist: "distinct_sockets w r xs"
  shows "\<exists>w' p. lua_select_module_select E fuel L w = (Yield 0, w') \<and>
    (\<forall>f timedout. \<exists>w3.
      ngx_stream_lua_select_cleanup E (Some co) (after_wait f timedout p w') = (Val (), w3) \<and>
      select_over w r xs w3 \<and> w_conns w3 = (\<lambda>b. map_option (f b) (w_conns w b)) \<and>
      table_at w3 = table_at w \<and> w_stack w3 = w_stack w')"
proof -
  from select_idle_yields[OF call con idle wait] obtain p c0 cref refs
    where len: "length refs = length xs" "length (cx_socket c0) = length xs"
      and fresh: "fresh_refs (cref # refs) (w_registry w)"
      and run: "lua_select_module_select E fuel L w
        = (Yield 0, waiting r co timeout xs p c0 cref refs w)"
    by blast
  obtain q where q: "w_reqs w r = Some q"
    using call by (auto simp: accepted_call_def in_request_def)
  let ?w' = "waiting r co timeout xs p c0 cref refs w"
  note heaps = waiting_heaps[OF q len]
  have at: "ctx_at ?w' p = Some (waiting_ctx r co timeout xs c0 cref refs w)" by (simp add: heaps)
  have "\<exists>w3. ngx_stream_lua_select_cleanup E (Some co) (after_wait f tmo p ?w') = (Val (), w3) \<and>
      select_over w r xs w3 \<and> w_conns w3 = (\<lambda>b. map_option (f b) (w_conns w b)) \<and>
      table_at w3 = table_at w \<and> w_stack w3 = w_stack ?w'" for f tmo
  proof -
    let ?w2 = "after_wait f tmo p ?w'"
    note aw = after_wait_simps[OF at] and sw = after_wait_still[OF at, of tmo f]
    obtain q2 where q2: "w_reqs ?w2 r = Some q2" by (simp add: aw heaps)
    have "ngx_stream_lua_select_cleanup E (Some co) ?w2 = (Val (), discarded r q2 p
        ((waiting_ctx r co timeout xs c0 cref refs w)\<lparr>cx_timer :=
           (cx_timer (waiting_ctx r co timeout xs c0 cref refs w))\<lparr>ev_timedout := tmo\<rparr>\<rparr>) ?w2)"
      by (rule cancel_run[OF q len fresh rd sw q2,
            where x = "(the (w_coctxs w co))\<lparr>co_cleanup := Fn_cleanup, co_data := Some r\<rparr>"])
        (simp_all add: aw heaps)
    moreover note discarded_over[OF q len fresh rd dist sw refl refl refl q2]
    moreover have "table_at ?w2 = table_at w" by (simp add: after_wait_def at)
    ultimately show ?thesis
      using aw by (intro exI[of _ "discarded r q2 p ((waiting_ctx r co timeout xs c0 cref refs w)
        \<lparr>cx_timer := (cx_timer (waiting_ctx r co timeout xs c0 cref refs w))\<lparr>ev_timedout := tmo\<rparr>\<rparr>) ?w2"])
        simp
  qed
  with run show ?thesis by blast
qed

end

end
