(* ===== verification/Select_Held.thy ===== *)
theory Select_Held
  imports Select_Outcomes
begin

text \<open>
  The two ways out of a select in a process in which other code has run since the yield: what
  completing or cancelling it takes and gives back, compared with the state before its call (\<open>w\<close>)
  and with the state just before it ends (\<open>w2\<close>).
\<close>

text \<open>
  The references of the context are released and no other; the module context is gone; the
  read handlers of the selected upstreams, and of the request if its own connection was selected,
  are those they had before the call; all other read handlers, and every write handler, are as
  they were just before.
\<close>

definition given_back ::
  "world \<Rightarrow> addr \<Rightarrow> (32 word \<times> addr \<times> lval) list \<Rightarrow> ngx_lua_select_ctx \<Rightarrow> world \<Rightarrow> world \<Rightarrow> bool" where
  "given_back w r xs c2 w2 w3 \<longleftrightarrow>
     not_selecting w3 r \<and>
     (\<forall>k. map_of (w_registry w3) k =
       (if k \<in> held_refs c2 then None else map_of (w_registry w2) k)) \<and>
     (\<forall>a. read_handler_of w3 a =
       (if \<exists>x \<in> set xs. entry_of w r a x then read_handler_of w a else read_handler_of w2 a)) \<and>
     (\<forall>a. write_handler_of w3 a = write_handler_of w2 a) \<and>
     request_read_handler w3 r =
       (if \<exists>x \<in> set xs. entry_down w r x then request_read_handler w r else request_read_handler w2 r) \<and>
     (\<forall>b. b \<noteq> r \<longrightarrow> w_reqs w3 b = w_reqs w2 b)"

lemma map_of_filter_keys: "map_of (filter (\<lambda>e. fst e \<notin> S) xs) k = (if k \<in> S then None else map_of xs k)"
  by (induction xs) auto

lemma filter_is_up: "length refs = length xs \<Longrightarrow> length (cx_socket c0) = length xs \<Longrightarrow>
    filter (is_up a) (installed_slots w [] (waiting_slots w r xs refs c0)) = [] \<longleftrightarrow>
    \<not> (\<exists>x \<in> set xs. entry_of w r a x)"
  using ex_waiting_slots[of refs xs c0 "is_up a" w r "entry_of w r a"]
    arg_cong[OF map_installed_slots[of "is_up a" w "[]" "waiting_slots w r xs refs c0"], of "\<lambda>bs. True \<in> set bs"]
  by (auto simp: entry_slot_kind entry_of_def filter_empty_conv image_iff)

lemma discarded_read_handler:
  assumes len: "length refs = length xs" "length (cx_socket c0) = length xs"
    and rd: "all_read w r xs" and dist: "distinct_sockets w r xs"
    and c2: "cx_socket c2 = installed_slots w [] (waiting_slots w r xs refs c0)"
    and live: "\<And>s. s \<in> set (cx_socket c2) \<Longrightarrow> sk_up s = Some a \<Longrightarrow> w_ups w a \<noteq> None \<Longrightarrow> w_ups w1 a \<noteq> None"
  shows "read_handler_of (discarded r q2 p c2 w1) a =
    (if \<exists>x \<in> set xs. entry_of w r a x then read_handler_of w a else read_handler_of w1 a)"
proof (cases "\<exists>x \<in> set xs. entry_of w r a x")
  case False
  with filter_is_up[OF len, of a w r] show ?thesis
    by (simp add: read_handler_of_def discarded_ups discard_all_ups c2)
next
  case True
  let ?ss = "waiting_slots w r xs refs c0"
  have kind: "is_up a (entry_slot w r x n s) = entry_of w r a x" for x n s
    by (simp add: entry_slot_kind entry_of_def)
  have "filter (entry_of w r a) xs \<noteq> []" using True by (simp add: filter_empty_conv)
  moreover have "length (filter (entry_of w r a) xs) \<le> 1"
    using dist by (intro distinct_entry_of) (simp add: distinct_sockets_def)
  ultimately obtain x where x: "filter (entry_of w r a) xs = [x]"
    by (cases "filter (entry_of w r a) xs") auto
  from waiting_slots_one[where P = "is_up a", OF len x kind] obtain n s
    where one: "filter (is_up a) ?ss = [entry_slot w r x n s]" .
  have "x \<in> set xs" "entry_of w r a x" using x by (auto simp: filter_eq_Cons_iff)
  with rd obtain u where u: "w_ups w a = Some u" and wr: "wants_read (entry_slot w r x n s)"
    by (auto simp: all_read_def entry_of_def entry_slot_wants)
  obtain s' where s': "filter (is_up a) (cx_socket c2) = [s']"
      "sk_prev_upstream_read_handler s' = up_read_event_handler u"
    unfolding c2 by (rule slot_saved[OF u one wr])
  have "{y \<in> set (cx_socket c2). is_up a y} = {s'}" using arg_cong[OF s'(1), of set] by simp
  then have "s' \<in> set (cx_socket c2)" "sk_up s' = Some a" by (auto simp: is_up_def)
  with live u obtain u1 where "w_ups w1 a = Some u1" by auto
  with True s' u show ?thesis
    by (simp add: read_handler_of_def discarded_ups discard_all_ups)
qed

lemma discarded_write_handler: "write_handler_of (discarded r q2 p c2 w1) a = write_handler_of w1 a"
  by (cases "w_ups w1 a")
    (auto simp: write_handler_of_def discarded_ups discard_all_ups split: list.split)

lemma discarded_request_handler:
  assumes q: "w_reqs w r = Some q" and len: "length refs = length xs" "length (cx_socket c0) = length xs"
    and rd: "all_read w r xs" and dist: "distinct_sockets w r xs"
    and c2: "cx_socket c2 = installed_slots w [] (waiting_slots w r xs refs c0)"
      "cx_prev_request_read_handler c2 =
        cx_prev_request_read_handler (waiting_ctx r co timeout xs c0 cref refs w)"
    and q1: "w_reqs w1 r = Some q1"
  shows "request_read_handler (discarded r q2 p c2 w1) r =
    (if \<exists>x \<in> set xs. entry_down w r x then request_read_handler w r else request_read_handler w1 r)"
proof -
  let ?ss = "waiting_slots w r xs refs c0"
  have down: "(\<exists>s \<in> set (cx_socket c2). is_down s) \<longleftrightarrow> (\<exists>x \<in> set xs. entry_down w r x)"
    using ex_waiting_slots[OF len, of is_down w r "entry_down w r"]
      arg_cong[OF map_installed_slots[of is_down w "[]" ?ss], of "\<lambda>bs. True \<in> set bs"]
    by (auto simp: entry_slot_kind c2(1) image_iff)
  show ?thesis
  proof (cases "\<exists>x \<in> set xs. entry_down w r x")
    case False
    then have "w_reqs (discard_all r c2 (cx_socket c2) w1) r = Some q1"
      using q1 down by (simp add: discard_all_reqs)
    from discarded_reqs[OF this] False q1 show ?thesis by (simp add: request_read_handler_def)
  next
    case True
    have "filter (entry_down w r) xs \<noteq> []" using True by (simp add: filter_empty_conv)
    then obtain x where x: "filter (entry_down w r) xs = [x]"
      using dist by (cases "filter (entry_down w r) xs") (auto simp: distinct_sockets_def)
    from waiting_slots_one[where P = is_down, OF len x entry_slot_kind(1)] obtain n s
      where one: "filter is_down ?ss = [entry_slot w r x n s]" .
    have "x \<in> set xs" using x by (auto simp: filter_eq_Cons_iff)
    then have wr: "wants_read (entry_slot w r x n s)" using rd by (simp add: entry_slot_wants all_read_def)
    have "filter (\<lambda>s. is_down s \<and> wants_read s) ?ss = filter wants_read (filter is_down ?ss)"
      by (simp add: conj_commute)
    then have "cx_prev_request_read_handler c2 = rq_read_event_handler q"
      using one wr q by (simp add: c2(2) waiting_ctx_simps[OF len] saved_def)
    then have "w_reqs (discard_all r c2 (cx_socket c2) w1) r
        = Some (q1\<lparr>rq_read_event_handler := rq_read_event_handler q\<rparr>)"
      using q1 down True by (simp add: discard_all_reqs)
    from discarded_reqs[OF this] True q show ?thesis by (simp add: request_read_handler_def)
  qed
qed

text \<open>What discarding a context that is still held gives back.\<close>

lemma held_given_back:
  assumes q: "w_reqs w r = Some q" and len: "length refs = length xs" "length (cx_socket c0) = length xs"
    and rd: "all_read w r xs" and dist: "distinct_sockets w r xs"
    and held: "held r p (waiting_ctx r co timeout xs c0 cref refs w)
               (waiting r co timeout xs p c0 cref refs w) c2 w2"
    and w1: "w_reqs w1 = w_reqs w2" "w_ups w1 = w_ups w2" "w_registry w1 = w_registry w2"
  shows "given_back w r xs c2 w2 (discarded r q2 p c2 w1)"
proof -
  note slots = held_slots[OF len held] and heaps = held_heaps[OF q len held]
  from heaps(3) obtain q1 where q1: "w_reqs w1 r = Some q1" by (auto simp: w1)
  have same: "read_handler_of w1 = read_handler_of w2" "write_handler_of w1 = write_handler_of w2"
      "request_read_handler w1 = request_read_handler w2"
    by (simp_all add: fun_eq_iff read_handler_of_def write_handler_of_def request_read_handler_def w1)
  have "\<exists>q'. w_reqs (discard_all r c2 (cx_socket c2) w1) r = Some q'"
    using q1 by (simp add: discard_all_reqs)
  then have "not_selecting (discarded r q2 p c2 w1) r"
    by (auto simp: not_selecting_def dest!: discarded_reqs[where q = q2])
  moreover have "map_of (w_registry (discarded r q2 p c2 w1)) k =
      (if k \<in> held_refs c2 then None else map_of (w_registry w2) k)" for k
    by (simp add: map_of_filter_keys w1 del: insert_iff) (simp add: held_refs_def)
  moreover have "read_handler_of (discarded r q2 p c2 w1) a =
      (if \<exists>x \<in> set xs. entry_of w r a x then read_handler_of w a else read_handler_of w2 a)" for a
    using discarded_read_handler[OF len rd dist slots(2), of a w1 q2 p] heaps(2) by (simp add: w1 same)
  moreover have "w_reqs (discarded r q2 p c2 w1) b = w_reqs w2 b" if "b \<noteq> r" for b
    using that by (simp add: discarded_def Let_def discard_all_reqs w1)
  ultimately show ?thesis
    using discarded_request_handler[OF q len rd dist slots(2,7) q1] discarded_write_handler
    by (simp add: given_back_def same)
qed

lemma given_back_marked:
  "given_back w r xs c2 w2 (discarded r q p (marked_ctx w2 c2) v)
    = given_back w r xs c2 w2 (discarded r q p c2 v)"
  by (simp only: given_back_def not_selecting_def read_handler_of_def write_handler_of_def
      request_read_handler_def discarded_marked)

context process_api begin

lemma held_completion:
  assumes q: "w_reqs w r = Some q" and len: "length refs = length xs" "length (cx_socket c0) = length xs"
    and fresh: "fresh_refs (cref # refs) (w_registry w)" and rd: "all_read w r xs"
    and dist: "distinct_sockets w r xs"
    and held: "held r p (waiting_ctx r co timeout xs c0 cref refs w)
               (waiting r co timeout xs p c0 cref refs w) c2 w2"
    and res: "resumable w2 r p c2 sa ca cox"
  shows "\<exists>a t w3.
    (let rs = ready_entries w w2 xs; vals = result_values a (ev_timedout (cx_timer c2)) rs in
     ngx_stream_lua_select_resume E (Some r) w2 =
       resume_thread E (ngx_stream_lua_get_lua_vm E (Some r) (Some sa) w2) (Some r) (Some sa)
         (int (length vals)) w3 \<and>
     take (length vals) (w_stack w3 (co_co cox)) = vals \<and>
     table_at w3 a = Some t \<and> wf_table t \<and> map_of t = result_map 0 Map.empty rs \<and>
     given_back w r xs c2 w2 w3 \<and> w_posted w3 = w_posted w2)"
proof -
  from res obtain q2 where q2: "w_reqs w2 r = Some q2" by (auto simp: resumable_def)
  from held_resume[OF q len fresh rd held res q2]
  obtain a t w1 where run: "let rs = ready_entries w w2 xs;
         vals = result_values a (ev_timedout (cx_timer c2)) rs;
         w3 = discarded r q2 p (marked_ctx w2 c2) w1 in
     ngx_stream_lua_select_resume E (Some r) w2 =
       resume_thread E (ngx_stream_lua_get_lua_vm E (Some r) (Some sa) w2) (Some r) (Some sa)
         (int (length vals)) w3 \<and>
     take (length vals) (w_stack w3 (co_co cox)) = vals \<and>
     table_at w3 a = Some t \<and> wf_table t \<and> map_of t = result_map 0 Map.empty rs"
    and w1: "w_reqs w1 = w_reqs w2" "w_ups w1 = w_ups w2" "w_registry w1 = w_registry w2"
      "w_posted w1 = w_posted w2"
    by blast
  have "given_back w r xs c2 w2 (discarded r q2 p (marked_ctx w2 c2) w1)"
    unfolding given_back_marked by (rule held_given_back[OF q len rd dist held w1(1-3)])
  with run w1(4) show ?thesis
    by (intro exI[of _ a] exI[of _ t] exI[of _ "discarded r q2 p (marked_ctx w2 c2) w1"])
      (simp add: Let_def)
qed

lemma held_cancel:
  assumes q: "w_reqs w r = Some q" and len: "length refs = length xs" "length (cx_socket c0) = length xs"
    and fresh: "fresh_refs (cref # refs) (w_registry w)" and rd: "all_read w r xs"
    and held: "held r p (waiting_ctx r co timeout xs c0 cref refs w)
               (waiting r co timeout xs p c0 cref refs w) c2 w2"
    and q2: "w_reqs w2 r = Some q2" and co: "w_coctxs w2 co = Some x" "co_data x = Some r"
  shows "ngx_stream_lua_select_cleanup E (Some co) w2 = (Val (), discarded r q2 p c2 w2)"
  using co cleanup_and_discard_run[OF held_discardable[OF q len fresh rd held] q2]
  by (simp add: ngx_stream_lua_select_cleanup_def run_simps)

end

end
