(* ===== verification/Select_Loop.thy ===== *)
theory Select_Loop
  imports Select_Held
begin

text \<open>
  The event loop around a select that waits.  Its steps are the calls of the module's handlers
  where their pointers are installed, the timer's expiry, and whatever other code of the process
  does that does not reach into this select (\<open>untouched\<close>).  The invariant of the loop ties the flag
  \<open>posted\<close> of the completion event to the queue; with the wakeups of a run logged beside its state,
  the queue and the timer's flags are functions of the log.  From the invariant follow the
  completion and the cancellation at any state the loop can reach.
\<close>

section \<open>Machines with an invariant\<close>

locale machine =
  fixes step :: "'s \<Rightarrow> 's \<Rightarrow> bool" and inv :: "'s \<Rightarrow> bool"
  assumes preserved: "inv s \<Longrightarrow> step s t \<Longrightarrow> inv t"
begin

lemma reachable:
  assumes "step\<^sup>*\<^sup>* s t" and "inv s"
  shows "inv t"
  using assms by (induction rule: rtranclp_induct) (blast intro: preserved)+

end

text \<open>A machine that implements another one: every step is a step or nothing there.\<close>

locale refined_machine = machine step inv for step :: "'s \<Rightarrow> 's \<Rightarrow> bool" and inv +
  fixes spec :: "'a \<Rightarrow> 'a \<Rightarrow> bool" and abs :: "'s \<Rightarrow> 'a"
  assumes simulated: "inv s \<Longrightarrow> step s t \<Longrightarrow> spec (abs s) (abs t) \<or> abs t = abs s"
begin

lemma refines:
  assumes "step\<^sup>*\<^sup>* s t" and "inv s"
  shows "spec\<^sup>*\<^sup>* (abs s) (abs t)"
  using assms
proof (induction rule: rtranclp_induct)
  case (step t u)
  then have "inv t" using reachable by blast
  with step show ?case using simulated[of t u] by (auto intro: rtranclp.rtrancl_into_rtrancl)
qed simp

end

section \<open>The steps of the loop\<close>

text \<open>What can call a handler of the module.\<close>

datatype wakeup = Upstream_read addr | Upstream_write addr | Request_read | Request_write | Timeout

text \<open>The pointer that is called is the module's own; a timer expires only if it is set.\<close>

fun wakeup_enabled :: "world \<Rightarrow> addr \<Rightarrow> addr \<Rightarrow> wakeup \<Rightarrow> bool" where
  "wakeup_enabled w r p (Upstream_read a) =
     (case w_ups w a of None \<Rightarrow> False | Some u \<Rightarrow>
        up_request u = Some r \<and> up_read_event_handler u = Fn_read_upstream_handler)"
| "wakeup_enabled w r p (Upstream_write a) =
     (case w_ups w a of None \<Rightarrow> False | Some u \<Rightarrow>
        up_request u = Some r \<and> up_write_event_handler u = Fn_write_upstream_handler)"
| "wakeup_enabled w r p Request_read =
     (case w_reqs w r of None \<Rightarrow> False | Some q \<Rightarrow> rq_read_event_handler q = Fn_read_request_handler)"
| "wakeup_enabled w r p Request_write =
     (case w_reqs w r of None \<Rightarrow> False | Some q \<Rightarrow> rq_write_event_handler q = Fn_write_request_handler)"
| "wakeup_enabled w r p Timeout =
     (case ctx_at w p of None \<Rightarrow> False | Some c \<Rightarrow>
        ev_timer_set (cx_timer c) \<and> ev_handler (cx_timer c) = Fn_timeout_handler)"

text \<open>nginx clears \<open>timer_set\<close> and sets \<open>timedout\<close> before it calls a timer's handler.\<close>

fun wake :: "env \<Rightarrow> addr \<Rightarrow> addr \<Rightarrow> wakeup \<Rightarrow> unit cfun" where
  "wake E r p (Upstream_read a) =
     ngx_stream_lua_select_socket_read_upstream_handler E (Some r) (Some a)"
| "wake E r p (Upstream_write a) =
     ngx_stream_lua_select_socket_write_upstream_handler E (Some r) (Some a)"
| "wake E r p Request_read = ngx_stream_lua_select_socket_read_request_handler E (Some r)"
| "wake E r p Request_write = ngx_stream_lua_select_socket_write_request_handler E (Some r)"
| "wake E r p Timeout =
     mseq (act (upd_event (Timer_of p) (\<lambda>v. v\<lparr>ev_timer_set := False, ev_timedout := True\<rparr>)))
       (ngx_stream_lua_select_timeout_handler E (Timer_of p))"

text \<open>The processing of a queued event: out of the queue, flag cleared, handler called.\<close>

definition take_posted :: "event_ref \<Rightarrow> world \<Rightarrow> world" where
  "take_posted e w = upd_event e (\<lambda>v. v\<lparr>ev_posted := False\<rparr>) (w\<lparr>w_posted := remove1 e (w_posted w)\<rparr>)"

definition process_completion :: "env \<Rightarrow> addr \<Rightarrow> unit cfun" where
  "process_completion E p =
     mseq (act (take_posted (Completion_of p)))
       (ngx_stream_lua_select_post_completion_handler E (Completion_of p))"

text \<open>
  What other code may do meanwhile: anything to other requests, their upstreams and coroutines, to
  connections, to the Lua registry, to the queue, and to the handlers of this request and of its
  upstreams too.  It is only bound to what no other code of nginx, OpenResty or Lua has a pointer or a
  reference number for, or may free: the context \<open>p\<close> and its two events, the registry slots
  that the context holds, the existence of the upstreams, connections and the request that it points
  to (which keeps its module contexts), and the suspended coroutine \<open>co\<close>.  A request that has
  entered its content phase does not leave it.
\<close>

definition untouched :: "addr \<Rightarrow> addr \<Rightarrow> addr \<Rightarrow> world \<Rightarrow> world \<Rightarrow> bool" where
  "untouched p sa co w w2 \<longleftrightarrow>
     (\<forall>c. ctx_at w p = Some c \<longrightarrow>
        ctx_at w2 p = Some c \<and>
        (\<forall>k \<in> held_refs c. map_of (w_registry w2) k = map_of (w_registry w) k) \<and>
        (\<forall>s \<in> set (cx_socket c). \<forall>a.
           (sk_up s = Some a \<longrightarrow> w_ups w a \<noteq> None \<longrightarrow> w_ups w2 a \<noteq> None) \<and>
           (sk_connection s = Some a \<longrightarrow> w_conns w a \<noteq> None \<longrightarrow> w_conns w2 a \<noteq> None)) \<and>
        (\<forall>r q. cx_r c = Some r \<longrightarrow> w_reqs w r = Some q \<longrightarrow>
           (\<exists>q2. w_reqs w2 r = Some q2 \<and> rq_ctx q2 = rq_ctx q))) \<and>
     (\<forall>sc. w_sctxs w sa = Some sc \<longrightarrow> (\<exists>sc2. w_sctxs w2 sa = Some sc2 \<and>
        (sc_entered_content_phase sc \<longrightarrow> sc_entered_content_phase sc2))) \<and>
     w_coctxs w2 co = w_coctxs w co \<and>
     count_list (w_posted w2) (Completion_of p) = count_list (w_posted w) (Completion_of p)"

text \<open>An event of the loop, labelled with the wakeup it is, if it is one.\<close>

inductive loop_event ::
  "env \<Rightarrow> addr \<Rightarrow> addr \<Rightarrow> addr \<Rightarrow> addr \<Rightarrow> world \<Rightarrow> wakeup list \<Rightarrow> world \<Rightarrow> bool"
  for E r p sa co where
  elsewhere: "untouched p sa co w w2 \<Longrightarrow> loop_event E r p sa co w [] w2"
| woken: "wakeup_enabled w r p k \<Longrightarrow> wake E r p k w = (Val (), w2) \<Longrightarrow> loop_event E r p sa co w [k] w2"

inductive_cases loop_eventE: "loop_event E r p sa co w ks w2"

definition loop_step :: "env \<Rightarrow> addr \<Rightarrow> addr \<Rightarrow> addr \<Rightarrow> addr \<Rightarrow> world \<Rightarrow> world \<Rightarrow> bool" where
  "loop_step E r p sa co w w2 \<longleftrightarrow> (\<exists>ks. loop_event E r p sa co w ks w2)"

abbreviation loop_run where "loop_run E r p sa co \<equiv> (loop_step E r p sa co)\<^sup>*\<^sup>*"

text \<open>The same with the log of the wakeups so far.\<close>

definition logged_step ::
  "env \<Rightarrow> addr \<Rightarrow> addr \<Rightarrow> addr \<Rightarrow> addr \<Rightarrow> wakeup list \<times> world \<Rightarrow> wakeup list \<times> world \<Rightarrow> bool" where
  "logged_step E r p sa co s t \<longleftrightarrow>
     (\<exists>ks. loop_event E r p sa co (snd s) ks (snd t) \<and> fst t = fst s @ ks)"

abbreviation logged_run where "logged_run E r p sa co \<equiv> (logged_step E r p sa co)\<^sup>*\<^sup>*"

lemma logged_run_loop: "logged_run E r p sa co s t \<Longrightarrow> loop_run E r p sa co (snd s) (snd t)"
  by (induction rule: rtranclp_induct)
    (auto simp: logged_step_def loop_step_def intro: rtranclp.rtrancl_into_rtrancl)

lemma loop_run_logged:
  "loop_run E r p sa co w w2 \<Longrightarrow> \<exists>ks. logged_run E r p sa co (ls, w) (ls @ ks, w2)"
proof (induction rule: rtranclp_induct)
  case base
  show ?case by (intro exI[of _ "[]"]) simp
next
  case (step w2 w3)
  then obtain ks ls' where "logged_run E r p sa co (ls, w) (ls @ ks, w2)" "loop_event E r p sa co w2 ls' w3"
    by (auto simp: loop_step_def)
  then have "logged_run E r p sa co (ls, w) (ls @ ks @ ls', w3)"
    by (auto simp: logged_step_def intro: rtranclp.rtrancl_into_rtrancl)
  then show ?case by blast
qed

section \<open>The invariant\<close>

text \<open>The completion event is in the queue once if its flag says so, and not at all otherwise.\<close>

definition queued_once :: "world \<Rightarrow> addr \<Rightarrow> ngx_lua_select_ctx \<Rightarrow> bool" where
  "queued_once w p c \<longleftrightarrow>
     count_list (w_posted w) (Completion_of p) = of_bool (ev_posted (cx_post_completion_ev c))"

definition wait_inv ::
  "addr \<Rightarrow> addr \<Rightarrow> addr \<Rightarrow> addr \<Rightarrow> ngx_lua_select_ctx \<Rightarrow> world \<Rightarrow> world \<Rightarrow> bool" where
  "wait_inv r p sa co c w' w2 \<longleftrightarrow>
     (\<exists>c2. held r p c w' c2 w2 \<and> selecting w2 r p c2 \<and> queued_once w2 p c2 \<and>
        ev_data (cx_post_completion_ev c2) = Some r \<and>
        (ev_handler (cx_timer c2) = Fn_timeout_handler \<longrightarrow> ev_data (cx_timer c2) = Some r)) \<and>
     (\<forall>s \<in> set (cx_socket c). \<forall>a. sk_connection s = Some a \<longrightarrow> w_conns w' a \<noteq> None \<longrightarrow> w_conns w2 a \<noteq> None) \<and>
     (\<forall>sc. w_sctxs w' sa = Some sc \<longrightarrow> (\<exists>sc2. w_sctxs w2 sa = Some sc2 \<and>
        (sc_entered_content_phase sc \<longrightarrow> sc_entered_content_phase sc2))) \<and>
     w_coctxs w2 co = w_coctxs w' co"

lemma held_ctx_simps:
  assumes "held r p c w' c2 w2"
  shows "cx_r c2 = Some r" and "cx_socket c2 = cx_socket c" and "held_refs c2 = held_refs c"
    and "ctx_at w2 p = Some c2"
  using assms by (auto simp: held_def held_refs_def)

lemma held_untouched:
  assumes held: "held r p c w' c2 w2" and other: "untouched p sa co w2 w3"
  shows "held r p c w' c2 w3"
  using assms held_ctx_simps[OF held] unfolding held_def untouched_def
  by (intro conjI) (blast, blast, blast, blast, (simp; fail), metis, metis)

lemma wait_inv_untouched:
  assumes inv: "wait_inv r p sa co c w' w2" and other: "untouched p sa co w2 w3"
  shows "wait_inv r p sa co c w' w3"
proof -
  from inv obtain c2 where held: "held r p c w' c2 w2" and sel: "selecting w2 r p c2"
    and c2: "queued_once w2 p c2" "ev_data (cx_post_completion_ev c2) = Some r"
      "ev_handler (cx_timer c2) = Fn_timeout_handler \<longrightarrow> ev_data (cx_timer c2) = Some r"
    by (auto simp: wait_inv_def)
  note simps = held_ctx_simps[OF held]
  have "selecting w3 r p c2"
    using sel simps other by (fastforce simp: selecting_def untouched_def)
  moreover have "queued_once w3 p c2" using c2(1) other by (simp add: queued_once_def untouched_def)
  moreover have "\<forall>s \<in> set (cx_socket c). \<forall>a. sk_connection s = Some a \<longrightarrow>
      w_conns w' a \<noteq> None \<longrightarrow> w_conns w3 a \<noteq> None"
    using inv other simps unfolding wait_inv_def untouched_def by metis
  moreover have "\<forall>sc. w_sctxs w' sa = Some sc \<longrightarrow> (\<exists>sc2. w_sctxs w3 sa = Some sc2 \<and>
        (sc_entered_content_phase sc \<longrightarrow> sc_entered_content_phase sc2))"
    using inv other unfolding wait_inv_def untouched_def by metis
  moreover have "w_coctxs w3 co = w_coctxs w' co" using inv other by (simp add: wait_inv_def untouched_def)
  ultimately show ?thesis using held_untouched[OF held other] c2(2,3) by (auto simp: wait_inv_def)
qed

text \<open>A change of the two events of the context, the queue in step with it.\<close>

lemma wait_inv_events:
  assumes inv: "wait_inv r p sa co c w' w2" and at: "ctx_at w2 p = Some c2"
    and w3: "ctx_at w3 p = Some (c2\<lparr>cx_timer := t, cx_post_completion_ev := e\<rparr>)"
      "w_reqs w3 = w_reqs w2" "w_ups w3 = w_ups w2" "w_registry w3 = w_registry w2"
      "w_conns w3 = w_conns w2" "w_sctxs w3 = w_sctxs w2" "w_coctxs w3 = w_coctxs w2"
    and ev: "count_list (w_posted w3) (Completion_of p) = of_bool (ev_posted e)"
      "ev_data e = Some r" "ev_handler t = Fn_timeout_handler \<Longrightarrow> ev_data t = Some r"
  shows "wait_inv r p sa co c w' w3"
proof -
  from inv at obtain t' e' where c2: "c2 = c\<lparr>cx_timer := t', cx_post_completion_ev := e'\<rparr>"
    by (auto simp: wait_inv_def held_def)
  have "\<exists>t'' e''. c2\<lparr>cx_timer := t, cx_post_completion_ev := e\<rparr>
      = c\<lparr>cx_timer := t'', cx_post_completion_ev := e''\<rparr>"
    unfolding c2 by (intro exI[of _ t] exI[of _ e]) simp
  with inv at w3 ev show ?thesis
    unfolding wait_inv_def held_def selecting_def queued_once_def
    by (intro conjI exI[of _ "c2\<lparr>cx_timer := t, cx_post_completion_ev := e\<rparr>"]) auto
qed

lemma wait_invE:
  assumes "wait_inv r p sa co c w' w2"
  obtains c2 where "ctx_at w2 p = Some c2" "held r p c w' c2 w2" "selecting w2 r p c2"
    "queued_once w2 p c2" "ev_data (cx_post_completion_ev c2) = Some r"
    "ev_handler (cx_timer c2) = Fn_timeout_handler \<longrightarrow> ev_data (cx_timer c2) = Some r"
  using assms by (auto simp: wait_inv_def selecting_def)

lemma wait_inv_timer:
  assumes inv: "wait_inv r p sa co c w' w2" and at: "ctx_at w2 p = Some c2"
    and f: "\<And>v. ev_data (f v) = ev_data v" "\<And>v. ev_handler (f v) = ev_handler v"
  shows "wait_inv r p sa co c w' (put_ctx p (c2\<lparr>cx_timer := f (cx_timer c2)\<rparr>) w2)"
  by (rule wait_inv_events[OF inv at, where t = "f (cx_timer c2)" and e = "cx_post_completion_ev c2"])
    (use inv at in \<open>auto simp: f queued_once_def elim: wait_invE\<close>)

lemma wait_inv_activate:
  assumes inv: "wait_inv r p sa co c w' w2" and at: "ctx_at w2 p = Some c2"
  shows "wait_inv r p sa co c w' (activate p c2 w2)"
proof (cases "ev_posted (cx_post_completion_ev c2)")
  case False
  show ?thesis
    by (rule wait_inv_events[OF inv at, where t = "cx_timer c2"
          and e = "(cx_post_completion_ev c2)\<lparr>ev_posted := True\<rparr>"])
      (use inv at False in \<open>auto simp: activate_def queued_once_def elim: wait_invE\<close>)
qed (use inv in \<open>simp add: activate_def\<close>)

lemma activate_posted:
  assumes "ctx_at w p = Some c"
  shows "\<exists>c'. ctx_at (activate p c w) p = Some c' \<and> ev_posted (cx_post_completion_ev c')"
  using assms by (auto simp: activate_def)

lemma wait_inv_taken:
  assumes inv: "wait_inv r p sa co c w' w2" and at: "ctx_at w2 p = Some c2"
  shows "wait_inv r p sa co c w' (take_posted (Completion_of p) w2)"
    and "w_conns (take_posted (Completion_of p) w2) = w_conns w2"
    and "ctx_at (take_posted (Completion_of p) w2) p
      = Some (c2\<lparr>cx_post_completion_ev := (cx_post_completion_ev c2)\<lparr>ev_posted := False\<rparr>\<rparr>)"
proof -
  have "count_list (remove1 x xs) x = count_list xs x - 1" for x :: event_ref and xs
    by (induction xs) auto
  then have "count_list (w_posted (take_posted (Completion_of p) w2)) (Completion_of p) = 0"
    using inv at by (auto simp: take_posted_def queued_once_def elim!: wait_invE)
  then show "wait_inv r p sa co c w' (take_posted (Completion_of p) w2)"
    by (intro wait_inv_events[OF inv at, where t = "cx_timer c2"
          and e = "(cx_post_completion_ev c2)\<lparr>ev_posted := False\<rparr>"])
      (use inv at in \<open>auto simp: take_posted_def elim: wait_invE\<close>)
qed (use at in \<open>simp_all add: take_posted_def\<close>)

section \<open>Every wakeup is handled\<close>

text \<open>The state in which the timer's handler is called.\<close>

fun before_wakeup :: "addr \<Rightarrow> wakeup \<Rightarrow> world \<Rightarrow> world" where
  "before_wakeup p Timeout w =
     upd_event (Timer_of p) (\<lambda>v. v\<lparr>ev_timer_set := False, ev_timedout := True\<rparr>) w"
| "before_wakeup p _ w = w"

context process_api begin

lemma wake_run:
  assumes inv: "wait_inv r p sa co c w' w2" and on: "wakeup_enabled w2 r p k"
  shows "\<exists>c3. ctx_at (before_wakeup p k w2) p = Some c3 \<and>
    wait_inv r p sa co c w' (before_wakeup p k w2) \<and>
    wake E r p k w2 = (Val (), activate p c3 (before_wakeup p k w2))"
proof -
  from inv obtain c2 where at: "ctx_at w2 p = Some c2" and "held r p c w' c2 w2"
    and sel: "selecting w2 r p c2" and "queued_once w2 p c2"
    and "ev_data (cx_post_completion_ev c2) = Some r" and data: "ev_handler (cx_timer c2) = Fn_timeout_handler \<longrightarrow> ev_data (cx_timer c2) = Some r"
    by (rule wait_invE)
  show ?thesis
  proof (cases "k = Timeout")
    case True
    let ?f = "\<lambda>v. v\<lparr>ev_timer_set := False, ev_timedout := True\<rparr>"
    let ?c = "c2\<lparr>cx_timer := ?f (cx_timer c2)\<rparr>"
    have "selecting (put_ctx p ?c w2) r p ?c" using sel by (simp add: selecting_def)
    from event_activated_run[OF this] show ?thesis
      using True at data on wait_inv_timer[OF inv at, of ?f]
      by (simp add: handler_defs run_simps load_event_def)
  next
    case False
    then show ?thesis
      using event_activated_run[OF sel] at inv
      by (cases k) (simp_all add: handler_defs run_simps)
  qed
qed

lemma loop_event_inv:
  assumes inv: "wait_inv r p sa co c w' w2" and step: "loop_event E r p sa co w2 ks w3"
  shows "wait_inv r p sa co c w' w3"
  using step
proof (cases rule: loop_event.cases)
  case elsewhere
  then show ?thesis using wait_inv_untouched[OF inv] by blast
next
  case (woken k)
  from wake_run[OF inv woken(2)] woken(3) show ?thesis by (auto intro: wait_inv_activate)
qed

lemma loop_step_inv:
  "wait_inv r p sa co c w' w2 \<Longrightarrow> loop_step E r p sa co w2 w3 \<Longrightarrow> wait_inv r p sa co c w' w3"
  unfolding loop_step_def using loop_event_inv by blast

end

interpretation wait_loop: machine "loop_step E r p sa co" "\<lambda>w. process_api E \<and> wait_inv r p sa co c w' w"
  for E r p sa co c w'
  by unfold_locales (blast intro: process_api.loop_step_inv)

section \<open>What the log says of the state\<close>

text \<open>
  The timer fires once at most, and only if it was started; its flags say which.
\<close>

definition timer_log :: "addr \<Rightarrow> bool \<Rightarrow> wakeup list \<Rightarrow> world \<Rightarrow> bool" where
  "timer_log p started ks w \<longleftrightarrow>
     (\<exists>c. ctx_at w p = Some c \<and> (ev_timedout (cx_timer c) \<longleftrightarrow> Timeout \<in> set ks) \<and>
        (ev_timer_set (cx_timer c) \<longleftrightarrow> started \<and> Timeout \<notin> set ks) \<and>
        count_list ks Timeout \<le> of_bool started)"

text \<open>
  The loop as an implementation of a latch: its abstract state is the log, and whether the
  completion event is in the queue.  Every wakeup sets the latch, and nothing resets it.
\<close>

definition latched :: "addr \<Rightarrow> world \<Rightarrow> bool" where
  "latched p w \<longleftrightarrow> Completion_of p \<in> set (w_posted w)"

inductive latch_step :: "wakeup list \<times> bool \<Rightarrow> wakeup list \<times> bool \<Rightarrow> bool" where
  "latch_step (ks, b) (ks @ [k], True)"

lemma latch_state: "latch_step\<^sup>*\<^sup>* ([], False) (ks, b) \<Longrightarrow> b \<longleftrightarrow> ks \<noteq> []"
  by (induction rule: rtranclp_induct2) (auto elim: latch_step.cases)

lemma latched_count: "latched p w \<longleftrightarrow> 0 < count_list (w_posted w) (Completion_of p)"
proof -
  have "x \<in> set xs \<longleftrightarrow> 0 < count_list xs x" for x :: event_ref and xs by (induction xs) auto
  then show ?thesis by (simp add: latched_def)
qed

lemma latched_activate:
  assumes "wait_inv r p sa co c w' w2" and "ctx_at w2 p = Some c2"
  shows "latched p (activate p c2 w2)"
  using assms by (auto simp: latched_count activate_def queued_once_def elim!: wait_invE)

lemma activate_timer: "ctx_at w p = Some c \<Longrightarrow>
    \<exists>c'. ctx_at (activate p c w) p = Some c' \<and> cx_timer c' = cx_timer c"
  by (simp add: activate_def)

lemma timer_log_woken:
  assumes log: "timer_log p started ks w" and on: "wakeup_enabled w r p k"
    and c3: "ctx_at (before_wakeup p k w) p = Some c3"
  shows "timer_log p started (ks @ [k]) (activate p c3 (before_wakeup p k w))"
proof -
  from log obtain c where c: "ctx_at w p = Some c" "ev_timedout (cx_timer c) \<longleftrightarrow> Timeout \<in> set ks"
      "ev_timer_set (cx_timer c) \<longleftrightarrow> started \<and> Timeout \<notin> set ks" "count_list ks Timeout \<le> of_bool started"
    by (auto simp: timer_log_def)
  obtain c4 where c4: "ctx_at (activate p c3 (before_wakeup p k w)) p = Some c4" "cx_timer c4 = cx_timer c3"
    using activate_timer[OF c3] by blast
  show ?thesis
  proof (cases "k = Timeout")
    case True
    with c on have "started" "Timeout \<notin> set ks" by simp_all
    moreover have "ev_timedout (cx_timer c3) \<and> \<not> ev_timer_set (cx_timer c3)" using True c c3 by auto
    moreover have "count_list ks Timeout = 0" using \<open>Timeout \<notin> set ks\<close> by simp
    ultimately show ?thesis using True c4 by (auto simp: timer_log_def)
  next
    case False
    then have "before_wakeup p k w = w" by (cases k) simp_all
    with False c c3 c4 show ?thesis by (auto simp: timer_log_def)
  qed
qed

interpretation logged_loop: refined_machine "logged_step E r p sa co"
    "\<lambda>s. process_api E \<and> wait_inv r p sa co c w' (snd s) \<and> timer_log p started (fst s) (snd s)"
    latch_step "\<lambda>s. (fst s, latched p (snd s))"
  for E r p sa co c w' started
proof unfold_locales
  fix s t
  assume inv: "process_api E \<and> wait_inv r p sa co c w' (snd s) \<and> timer_log p started (fst s) (snd s)"
    and "logged_step E r p sa co s t"
  then obtain ks where step: "loop_event E r p sa co (snd s) ks (snd t)" and log: "fst t = fst s @ ks"
    by (auto simp: logged_step_def)
  have next_inv: "wait_inv r p sa co c w' (snd t)" using inv step process_api.loop_event_inv by blast
  show "process_api E \<and> wait_inv r p sa co c w' (snd t) \<and> timer_log p started (fst t) (snd t)"
    using step
  proof (cases rule: loop_event.cases)
    case elsewhere
    then show ?thesis using inv next_inv log by (auto simp: timer_log_def untouched_def)
  next
    case (woken k)
    from process_api.wake_run[OF _ _ woken(2)] inv obtain c3
      where c3: "ctx_at (before_wakeup p k (snd s)) p = Some c3"
        "wake E r p k (snd s) = (Val (), activate p c3 (before_wakeup p k (snd s)))" by blast
    with timer_log_woken[OF _ woken(2) c3(1)] inv next_inv woken(1,3) log show ?thesis by auto
  qed
  show "latch_step (fst s, latched p (snd s)) (fst t, latched p (snd t)) \<or>
      (fst t, latched p (snd t)) = (fst s, latched p (snd s))"
    using step
  proof (cases rule: loop_event.cases)
    case elsewhere
    then show ?thesis using log by (simp add: untouched_def latched_count)
  next
    case (woken k)
    from process_api.wake_run[OF _ _ woken(2)] inv obtain c3
      where "ctx_at (before_wakeup p k (snd s)) p = Some c3"
        "wait_inv r p sa co c w' (before_wakeup p k (snd s))"
        "wake E r p k (snd s) = (Val (), activate p c3 (before_wakeup p k (snd s)))" by blast
    with woken(3) latched_activate[of r p sa co c w' "before_wakeup p k (snd s)" c3]
    have "latched p (snd t)" by simp
    then show ?thesis using woken(1) log by (auto intro: latch_step.intros)
  qed
qed

section \<open>The loop begins at the yield\<close>

text \<open>Every queued event is one of an existing structure.\<close>

definition queue_ok :: "world \<Rightarrow> bool" where
  "queue_ok w \<longleftrightarrow> (\<forall>e \<in> set (w_posted w). event_at w e \<noteq> None)"

lemma waiting_timer_data:
  "ev_handler (cx_timer (waiting_ctx r co timeout xs c0 cref refs w)) = Fn_timeout_handler \<longrightarrow>
   ev_data (cx_timer (waiting_ctx r co timeout xs c0 cref refs w)) = Some r"
  by (simp add: waiting_ctx_def armed_ctx_def installed_ctx_def scanned_ctx_def Let_def zero_event_def)

lemma wait_inv_waiting:
  assumes q: "w_reqs w r = Some q" and len: "length refs = length xs" "length (cx_socket c0) = length xs"
    and new: "ctx_at w p = None" and queue: "queue_ok w"
  shows "wait_inv r p sa co (waiting_ctx r co timeout xs c0 cref refs w)
    (waiting r co timeout xs p c0 cref refs w) (waiting r co timeout xs p c0 cref refs w)"
proof -
  note heaps = waiting_heaps[OF q len]
  let ?c = "waiting_ctx r co timeout xs c0 cref refs w"
  have "Completion_of p \<notin> set (w_posted w)" using new queue by (auto simp: queue_ok_def)
  then have once: "count_list (w_posted w) (Completion_of p) = 0" by (simp add: count_list_0_iff)
  let ?w' = "waiting r co timeout xs p c0 cref refs w"
  have "still_waiting p ?c ?w' ?c ?w'" by (rule still_waiting_refl) (simp add: heaps)
  then have "held r p ?c ?w' ?c ?w'" by (rule still_waiting_held) (simp add: waiting_ctx_simps[OF len])
  then show ?thesis
    using once waiting_timer_data[of r co timeout xs c0 cref refs w]
    by (auto simp: wait_inv_def selecting_def queued_once_def heaps waiting_ctx_simps[OF len])
qed

lemma conns_live_mono:
  "conns_live w ss \<Longrightarrow> \<forall>s \<in> set ss. \<forall>a. sk_connection s = Some a \<longrightarrow> w_conns w a \<noteq> None \<longrightarrow>
     w_conns w2 a \<noteq> None \<Longrightarrow> conns_live w2 ss"
  by (fastforce simp: conns_live_def)

context process_api begin

lemma select_enters_loop:
  assumes call: "accepted_call E fuel L w r co es timeout xs" and con: "connected w xs"
    and idle: "\<not> (\<exists>x \<in> set xs. readable w (fst (snd x)))" and wait: "can_wait w co timeout"
    and queue: "queue_ok w"
  obtains q p c0 cref refs where "w_reqs w r = Some q" "length (cx_socket c0) = length xs"
    "length refs = length xs" "fresh_refs (cref # refs) (w_registry w)" "ctx_at w p = None"
    "lua_select_module_select E fuel L w = (Yield 0, waiting r co timeout xs p c0 cref refs w)"
    "\<And>sa. wait_inv r p sa co (waiting_ctx r co timeout xs c0 cref refs w)
      (waiting r co timeout xs p c0 cref refs w) (waiting r co timeout xs p c0 cref refs w)"
proof -
  obtain q where q: "w_reqs w r = Some q"
    using call by (auto simp: accepted_call_def in_request_def)
  from select_idle_yields[OF call con idle wait] wait_inv_waiting[OF q _ _ _ queue] q that
  show thesis by metis
qed

text \<open>From any state of the loop to the call of \<open>ngx_stream_lua_select_resume\<close>.\<close>

lemma loop_resumable:
  assumes q: "w_reqs w r = Some q" and len: "length refs = length xs" "length (cx_socket c0) = length xs"
    and fresh: "fresh_refs (cref # refs) (w_registry w)" and es: "check_entries E w r es = Inr xs"
    and con: "connected w xs"
    and inv: "wait_inv r p sa co (waiting_ctx r co timeout xs c0 cref refs w)
      (waiting r co timeout xs p c0 cref refs w) w2" and at: "ctx_at w2 p = Some c2"
  shows "conns_live w2 (cx_socket c2)" and "refs_live (w_registry w2) (cx_socket c2)"
proof -
  let ?c = "waiting_ctx r co timeout xs c0 cref refs w" and ?w' = "waiting r co timeout xs p c0 cref refs w"
  from inv at have held: "held r p ?c ?w' c2 w2" by (auto elim: wait_invE)
  note slots = held_slots[OF len held] and heaps = held_heaps[OF q len held]
  have sock: "cx_socket c2 = cx_socket ?c" by (simp add: slots(2) waiting_ctx_simps[OF len])
  have "conns_live ?w' (cx_socket ?c)"
    using waiting_conns_live[OF len con, of ?w' "\<lambda>_ c. c"]
    by (simp add: waiting_ctx_simps[OF len] option.map_ident)
  from conns_live_mono[OF this] inv show "conns_live w2 (cx_socket c2)"
    unfolding sock wait_inv_def by blast
  have "refs_live (scan_refs xs refs ((cref, LUserdata p) # w_registry w)) (cx_socket c2)"
    unfolding slots(2) by (rule waiting_refs_live[OF len fresh es])
  moreover have "map_of (w_registry w2) (sk_lua_socket_ref s)
      = map_of (scan_refs xs refs ((cref, LUserdata p) # w_registry w)) (sk_lua_socket_ref s)"
    if "s \<in> set (cx_socket c2)" for s
    using that arg_cong[OF slots(8), of set] by (intro heaps(1)) auto
  ultimately show "refs_live (w_registry w2) (cx_socket c2)" by (simp add: refs_live_def)
qed

lemma loop_to_resume:
  assumes q: "w_reqs w r = Some q" and len: "length refs = length xs" "length (cx_socket c0) = length xs"
    and fresh: "fresh_refs (cref # refs) (w_registry w)" and es: "check_entries E w r es = Inr xs"
    and con: "connected w xs" and content: "in_content w r sa" and cox: "w_coctxs w co = Some cox"
    and inv: "wait_inv r p sa co (waiting_ctx r co timeout xs c0 cref refs w)
      (waiting r co timeout xs p c0 cref refs w) w2"
  shows "\<exists>c2 w3 x2. ctx_at w2 p = Some c2 \<and>
    ngx_stream_lua_select_post_completion_handler E (Completion_of p) w2
      = mseq (ngx_stream_lua_select_resume E (Some r)) (mret ()) w3 \<and>
    held r p (waiting_ctx r co timeout xs c0 cref refs w)
      (waiting r co timeout xs p c0 cref refs w) c2 w3 \<and>
    resumable w3 r p c2 sa co x2 \<and> co_co x2 = co_co cox \<and> w_conns w3 = w_conns w2 \<and>
    w_posted w3 = w_posted w2 \<and> w_reqs w3 = w_reqs w2 \<and> w_ups w3 = w_ups w2 \<and>
    w_registry w3 = w_registry w2"
proof -
  let ?c = "waiting_ctx r co timeout xs c0 cref refs w" and ?w' = "waiting r co timeout xs p c0 cref refs w"
  let ?x = "cox\<lparr>co_cleanup := Fn_cleanup, co_data := Some r\<rparr>"
  note heaps = waiting_heaps[OF q len]
  from inv obtain c2 where c2: "ctx_at w2 p = Some c2" and held: "held r p ?c ?w' c2 w2"
    and sel: "selecting w2 r p c2" and "queued_once w2 p c2"
    and data: "ev_data (cx_post_completion_ev c2) = Some r"
    by (rule wait_invE)
  note slots = held_slots[OF len held]
  from content q obtain sc0 where sa: "rq_ctx q Mod_stream_lua = Some sa"
    and sc0: "w_sctxs w sa = Some sc0" "sc_entered_content_phase sc0"
    by (auto simp: in_content_def)
  with inv obtain sc where sc: "w_sctxs w2 sa = Some sc" "sc_entered_content_phase sc"
    by (auto simp: wait_inv_def)
  have x: "w_coctxs w2 co = Some ?x" using inv cox by (simp add: heaps wait_inv_def)
  from held_heaps(3)[OF q len held] obtain q2
    where q2: "w_reqs w2 r = Some q2" "rq_ctx q2 = (rq_ctx q)(Mod_select := Some p)" by blast
  let ?w3 = "put_sctx sa (sc\<lparr>sc_cur_co_ctx := Some co\<rparr>) (put_coctx co (?x\<lparr>co_cleanup := Fn_NULL\<rparr>) w2)"
  have run: "ngx_stream_lua_select_post_completion_handler E (Completion_of p) w2
      = mseq (ngx_stream_lua_select_resume E (Some r)) (mret ()) ?w3"
    by (subst post_completion_run[where v = "cx_post_completion_ev c2", OF _ data sel slots(5,6) x q2(1) _ sc(1)])
      (use c2 sa sc q2 in \<open>simp_all add: Let_def\<close>)
  have "resumable ?w3 r p c2 sa co (?x\<lparr>co_cleanup := Fn_NULL\<rparr>)"
    using c2 q2 sa sc loop_resumable[OF q len fresh es con inv c2]
    by (simp add: resumable_def slots(2,3) conns_live_def waiting_ctx_simps(9)[OF len])
  moreover have "held r p ?c ?w' c2 ?w3" using held by (simp add: held_def)
  ultimately show ?thesis
    using run c2
    by (intro exI[of _ c2] exI[of _ ?w3] exI[of _ "?x\<lparr>co_cleanup := Fn_NULL\<rparr>"]) simp
qed

text \<open>The completion event is taken out of the queue, and the coroutine resumed.\<close>

lemma loop_completed:
  assumes q: "w_reqs w r = Some q" and len: "length refs = length xs" "length (cx_socket c0) = length xs"
    and fresh: "fresh_refs (cref # refs) (w_registry w)" and es: "check_entries E w r es = Inr xs"
    and con: "connected w xs" and content: "in_content w r sa" and cox: "w_coctxs w co = Some cox"
    and rd: "all_read w r xs" and dist: "distinct_sockets w r xs"
    and inv: "wait_inv r p sa co (waiting_ctx r co timeout xs c0 cref refs w)
      (waiting r co timeout xs p c0 cref refs w) w2" and at: "ctx_at w2 p = Some c2"
  shows "\<exists>vm a t w3.
    (let rs = ready_entries w w2 xs; vals = result_values a (ev_timedout (cx_timer c2)) rs in
     process_completion E p w2
       = mseq (resume_thread E vm (Some r) (Some sa) (int (length vals))) (mret ()) w3 \<and>
     take (length vals) (w_stack w3 (co_co cox)) = vals \<and>
     table_at w3 a = Some t \<and> wf_table t \<and> map_of t = result_map 0 Map.empty rs \<and>
     given_back w r xs c2 w2 w3 \<and> \<not> latched p w3)"
proof -
  let ?w2 = "take_posted (Completion_of p) w2"
  note taken = wait_inv_taken[OF inv at]
  from loop_to_resume[OF q len fresh es con content cox taken(1)] taken(3)
  obtain c3 w3 x2 where c3: "c3 = c2\<lparr>cx_post_completion_ev := (cx_post_completion_ev c2)\<lparr>ev_posted := False\<rparr>\<rparr>"
    and handler: "ngx_stream_lua_select_post_completion_handler E (Completion_of p) ?w2
      = mseq (ngx_stream_lua_select_resume E (Some r)) (mret ()) w3"
    and held: "held r p (waiting_ctx r co timeout xs c0 cref refs w)
      (waiting r co timeout xs p c0 cref refs w) c3 w3"
    and res: "resumable w3 r p c3 sa co x2" and x2: "co_co x2 = co_co cox"
    and same: "w_conns w3 = w_conns ?w2" "w_posted w3 = w_posted ?w2" "w_reqs w3 = w_reqs ?w2"
      "w_ups w3 = w_ups ?w2" "w_registry w3 = w_registry ?w2"
    by auto
  have w2: "w_reqs ?w2 = w_reqs w2" "w_ups ?w2 = w_ups w2" "w_registry ?w2 = w_registry w2"
    using at by (simp_all add: take_posted_def)
  have rs: "ready_entries w w3 xs = ready_entries w w2 xs"
    by (rule ready_entries_conns) (simp add: same taken(2))
  have tmo: "ev_timedout (cx_timer c3) = ev_timedout (cx_timer c2)" by (simp add: c3)
  have gives: "given_back w r xs c3 w3 = given_back w r xs c2 w2"
    by (simp add: fun_eq_iff given_back_def held_refs_def c3 same w2 read_handler_of_def
        write_handler_of_def request_read_handler_def)
  have "count_list (w_posted ?w2) (Completion_of p) = 0"
    using taken(1,3) by (auto simp: queued_once_def elim!: wait_invE)
  then have "\<not> latched p w3" by (simp add: latched_count same)
  moreover obtain a t w4 where done4:
      "ngx_stream_lua_select_resume E (Some r) w3 = resume_thread E (ngx_stream_lua_get_lua_vm E (Some r) (Some sa) w3)
        (Some r) (Some sa) (int (length (result_values a (ev_timedout (cx_timer c2)) (ready_entries w w2 xs)))) w4"
      "take (length (result_values a (ev_timedout (cx_timer c2)) (ready_entries w w2 xs)))
         (w_stack w4 (co_co cox)) = result_values a (ev_timedout (cx_timer c2)) (ready_entries w w2 xs)"
      "table_at w4 a = Some t" "wf_table t"
      "map_of t = result_map 0 Map.empty (ready_entries w w2 xs)" "given_back w r xs c2 w2 w4"
      "w_posted w4 = w_posted w3"
    using held_completion[OF q len fresh rd dist held res] unfolding rs x2 Let_def gives tmo by blast
  moreover have "process_completion E p w2 = mseq (resume_thread E (ngx_stream_lua_get_lua_vm E (Some r) (Some sa) w3)
        (Some r) (Some sa) (int (length (result_values a (ev_timedout (cx_timer c2)) (ready_entries w w2 xs)))))
        (mret ()) w4"
    unfolding process_completion_def
    by (simp add: run_simps handler) (rule mseq_cong_at, rule done4(1))
  moreover from done4(7) \<open>\<not> latched p w3\<close> have "\<not> latched p w4" by (simp add: latched_def)
  ultimately show ?thesis
    unfolding Let_def by blast
qed

lemma loop_cancelled:
  assumes q: "w_reqs w r = Some q" and len: "length refs = length xs" "length (cx_socket c0) = length xs"
    and fresh: "fresh_refs (cref # refs) (w_registry w)" and rd: "all_read w r xs"
    and dist: "distinct_sockets w r xs"
    and inv: "wait_inv r p sa co (waiting_ctx r co timeout xs c0 cref refs w)
      (waiting r co timeout xs p c0 cref refs w) w2" and c2: "ctx_at w2 p = Some c2"
  shows "\<exists>w3 c3. ngx_stream_lua_select_cleanup E (Some co) w2 = (Val (), w3) \<and>
    given_back w r xs c2 w2 w3 \<and> w_posted w3 = w_posted w2 \<and> ctx_at w3 p = Some c3 \<and>
    ev_data (cx_post_completion_ev c3) = Some r \<and> \<not> ev_timer_set (cx_timer c3)"
proof -
  from inv c2 have held: "held r p (waiting_ctx r co timeout xs c0 cref refs w)
          (waiting r co timeout xs p c0 cref refs w) c2 w2"
    and data: "ev_data (cx_post_completion_ev c2) = Some r" by (auto elim!: wait_invE)
  from held_heaps(3)[OF q len held] obtain q2 where q2: "w_reqs w2 r = Some q2" by blast
  have co: "w_coctxs w2 co = Some ((the (w_coctxs w co))\<lparr>co_cleanup := Fn_cleanup, co_data := Some r\<rparr>)"
    using inv by (simp add: wait_inv_def waiting_heaps[OF q len])
  have "ngx_stream_lua_select_cleanup E (Some co) w2 = (Val (), discarded r q2 p c2 w2)"
    by (rule held_cancel[OF q len fresh rd held q2 co]) simp
  moreover note held_given_back[OF q len rd dist held refl refl refl, of q2]
  ultimately show ?thesis using data by (auto simp: timer_off_def)
qed

text \<open>A call that has yielded, and the state of the loop it has entered.\<close>

lemma yielded:
  assumes call: "accepted_call E fuel L w r co es timeout xs" and con: "connected w xs"
    and idle: "\<not> (\<exists>x \<in> set xs. readable w (fst (snd x)))" and wait: "can_wait w co timeout"
    and queue: "queue_ok w" and yield: "lua_select_module_select E fuel L w = (Yield 0, w')"
    and sel: "selecting w' r p c"
  obtains q c0 cref refs where "w_reqs w r = Some q" "length (cx_socket c0) = length xs"
    "length refs = length xs" "fresh_refs (cref # refs) (w_registry w)"
    "w' = waiting r co timeout xs p c0 cref refs w" "c = waiting_ctx r co timeout xs c0 cref refs w"
    "\<And>sa. wait_inv r p sa co c w' w'"
proof -
  from select_enters_loop[OF call con idle wait queue] obtain q p' c0 cref refs
    where q: "w_reqs w r = Some q" and len: "length (cx_socket c0) = length xs" "length refs = length xs"
      and fresh: "fresh_refs (cref # refs) (w_registry w)"
      and run: "lua_select_module_select E fuel L w = (Yield 0, waiting r co timeout xs p' c0 cref refs w)"
      and inv: "\<And>sa. wait_inv r p' sa co (waiting_ctx r co timeout xs c0 cref refs w)
      (waiting r co timeout xs p' c0 cref refs w) (waiting r co timeout xs p' c0 cref refs w)"
    by metis
  from run yield have w': "w' = waiting r co timeout xs p' c0 cref refs w" by simp
  note heaps = waiting_heaps[OF q len(2,1)]
  from sel have "p' = p" "c = waiting_ctx r co timeout xs c0 cref refs w"
    by (auto simp: selecting_def w' heaps)
  with that q len fresh w' inv show thesis by blast
qed

lemma yields:
  assumes "accepted_call E fuel L w r co es timeout xs" and "connected w xs"
    and "\<not> (\<exists>x \<in> set xs. readable w (fst (snd x)))" and "can_wait w co timeout" and "queue_ok w"
  obtains w' p c where "lua_select_module_select E fuel L w = (Yield 0, w')" "selecting w' r p c"
    "w_conns w' = w_conns w"
proof -
  from select_enters_loop[OF assms] obtain q p c0 cref refs
    where "w_reqs w r = Some q" "length (cx_socket c0) = length xs" "length refs = length xs"
      and run: "lua_select_module_select E fuel L w = (Yield 0, waiting r co timeout xs p c0 cref refs w)"
    by metis
  then have "selecting (waiting r co timeout xs p c0 cref refs w) r p
      (waiting_ctx r co timeout xs c0 cref refs w)"
    by (simp add: selecting_def waiting_heaps)
  with run that show thesis by simp
qed

lemma loop_run_inv:
  assumes "wait_inv r p sa co c w' w'" and "loop_run E r p sa co w' w2"
  shows "wait_inv r p sa co c w' w2"
  using wait_loop.reachable[OF assms(2)] assms(1) process_api_axioms by blast

text \<open>A logged run from the yield: the timer's flags and the queue as the log has them.\<close>

lemma logged_run_inv:
  assumes "wait_inv r p sa co c w' w'" and at: "ctx_at w' p = Some c" "\<not> ev_timedout (cx_timer c)"
    and "logged_run E r p sa co ([], w') (ks, w2)"
  shows "wait_inv r p sa co c w' w2" and "timer_log p (ev_timer_set (cx_timer c)) ks w2"
    and "latch_step\<^sup>*\<^sup>* ([], latched p w') (ks, latched p w2)"
proof -
  have log: "timer_log p (ev_timer_set (cx_timer c)) [] w'" using at by (simp add: timer_log_def)
  show "wait_inv r p sa co c w' w2" "timer_log p (ev_timer_set (cx_timer c)) ks w2"
    using logged_loop.reachable[OF assms(4)] assms(1) log process_api_axioms by fastforce+
  show "latch_step\<^sup>*\<^sup>* ([], latched p w') (ks, latched p w2)"
    using logged_loop.refines[OF assms(4)] assms(1) log process_api_axioms by fastforce
qed

text \<open>The same for a call that has yielded.\<close>

lemma yielded_logged:
  assumes call: "accepted_call E fuel L w r co es timeout xs" and con: "connected w xs"
    and idle: "\<not> (\<exists>x \<in> set xs. readable w (fst (snd x)))" and wait: "can_wait w co timeout"
    and queue: "queue_ok w" and yield: "lua_select_module_select E fuel L w = (Yield 0, w')"
    and sel: "selecting w' r p c" and run: "logged_run E r p sa co ([], w') (ks, w2)"
  shows "wait_inv r p sa co c w' w2" and "timer_log p (lua_number_pos timeout) ks w2"
    and "latch_step\<^sup>*\<^sup>* ([], False) (ks, latched p w2)"
proof -
  from yielded[OF call con idle wait queue yield sel] obtain q c0 cref refs
    where q: "w_reqs w r = Some q" and len: "length (cx_socket c0) = length xs" "length refs = length xs"
      and w': "w' = waiting r co timeout xs p c0 cref refs w"
      and c: "c = waiting_ctx r co timeout xs c0 cref refs w" and inv: "wait_inv r p sa co c w' w'"
    by metis
  note ctx = waiting_ctx_simps[OF len(2,1)]
  have at: "ctx_at w' p = Some c" using sel by (simp add: selecting_def)
  have "\<not> latched p w'"
    using inv at by (auto simp: latched_count queued_once_def c ctx elim!: wait_invE)
  moreover have "\<not> ev_timedout (cx_timer c)" "ev_timer_set (cx_timer c) = lua_number_pos timeout"
    by (simp_all add: c ctx waiting_timer_set)
  ultimately show "wait_inv r p sa co c w' w2" and "timer_log p (lua_number_pos timeout) ks w2"
    and "latch_step\<^sup>*\<^sup>* ([], False) (ks, latched p w2)"
    using logged_run_inv[OF inv at _ run] by simp_all
qed

text \<open>The handlers of the waiting sockets can be called.\<close>

lemma waiting_enabled:
  assumes q: "w_reqs w r = Some q" and len: "length refs = length xs" "length (cx_socket c0) = length xs"
    and es: "check_entries E w r es = Inr xs" and x: "x \<in> set xs" "\<not> entry_down w r x"
  shows "rw_has (fst x) NGX_LUA_SELECT_READ \<Longrightarrow>
      wakeup_enabled (waiting r co timeout xs p c0 cref refs w) r p (Upstream_read (fst (snd x)))"
    and "rw_has (fst x) NGX_LUA_SELECT_WRITE \<Longrightarrow>
      wakeup_enabled (waiting r co timeout xs p c0 cref refs w) r p (Upstream_write (fst (snd x)))"
proof -
  let ?a = "fst (snd x)"
  from check_entries_mem[OF es x(1)] obtain e where "check_entry E w r e = Inr x" .
  from check_entry_upstream[OF this] obtain u where u: "w_ups w ?a = Some u" "up_request u = Some r"
    by blast
  have of: "entry_of w r ?a x" using x(2) by (simp add: entry_of_def)
  obtain u2 where u2: "w_ups (waiting r co timeout xs p c0 cref refs w) ?a = Some u2" "up_request u2 = Some r"
    using u by (simp add: waiting_heaps[OF q len] hook_up_def)
  note handlers = waiting_handlers[OF q len u(1), of co timeout p cref]
  show "rw_has (fst x) NGX_LUA_SELECT_READ \<Longrightarrow>
      wakeup_enabled (waiting r co timeout xs p c0 cref refs w) r p (Upstream_read ?a)"
    using handlers(1) of x(1) u2 by (auto simp: read_handler_of_def split: if_splits)
  show "rw_has (fst x) NGX_LUA_SELECT_WRITE \<Longrightarrow>
      wakeup_enabled (waiting r co timeout xs p c0 cref refs w) r p (Upstream_write ?a)"
    using handlers(2) of x(1) u2 by (auto simp: write_handler_of_def split: if_splits)
qed

end

end
