(* ===== verification/Select_Debug.thy ===== *)
theory Select_Debug
  imports Select_Cleanup
begin

text \<open>
  The debug functions of \<open>src/ngx_lua_select.c\<close>: \<open>ngx_lua_select_luaS_dbgval\<close>, which prints a
  Lua value into a static buffer of 512 bytes, \<open>ngx_lua_select_luaS_printstack_named\<close>, which logs
  a whole stack with it, and \<open>ngx_lua_select_module_sigstop\<close>.  The functions of Lua and of the
  C library that only they use are the fields of a second record.
\<close>

section \<open>What the functions call\<close>

datatype lua_type_tag =
    LUA_TNONE | LUA_TNIL | LUA_TBOOLEAN | LUA_TLIGHTUSERDATA | LUA_TNUMBER | LUA_TSTRING | LUA_TTABLE
  | LUA_TFUNCTION | LUA_TUSERDATA | LUA_TTHREAD

definition LUA_GLOBALSINDEX :: int where "LUA_GLOBALSINDEX = -10002"
definition LUA_MINSTACK :: nat where "LUA_MINSTACK = 20"
definition LUAI_MAXCSTACK :: nat where "LUAI_MAXCSTACK = 8000"
definition LUA_OK :: int where "LUA_OK = 0"
definition LUA_YIELD :: int where "LUA_YIELD = 1"

text \<open>\<open>lua_Debug\<close>: the fields that are printed.\<close>

record lua_Debug =
  dbg_namewhat :: string
  dbg_name :: "string option"
  dbg_short_src :: string
  dbg_linedefined :: int

text \<open>
  \<open>luaL_Buffer\<close>, a local variable of the function that prints a stack: the text gathered so far,
  and how many pieces of it lie on the Lua stack.
\<close>

record luaL_Buffer =
  lb_text :: string
  lb_pieces :: nat

record debug_env =
  lua_type :: "thread \<Rightarrow> int \<Rightarrow> world \<Rightarrow> lua_type_tag"
  lua_typename :: "lua_type_tag \<Rightarrow> string"
  lua_toboolean :: "thread \<Rightarrow> int \<Rightarrow> world \<Rightarrow> bool"
  lua_topointer :: "thread \<Rightarrow> int \<Rightarrow> world \<Rightarrow> ptr"
  lua_tothread :: "thread \<Rightarrow> int \<Rightarrow> world \<Rightarrow> thread"
  lua_iscfunction :: "thread \<Rightarrow> int \<Rightarrow> world \<Rightarrow> bool"
  lua_status :: "thread \<Rightarrow> world \<Rightarrow> int"
  lua_getstack :: "thread \<Rightarrow> nat \<Rightarrow> world \<Rightarrow> int"
  luaL_checkstack :: "thread \<Rightarrow> nat \<Rightarrow> unit cfun"
  lua_getglobal :: "thread \<Rightarrow> string \<Rightarrow> unit cfun"
  lua_getfield :: "thread \<Rightarrow> int \<Rightarrow> string \<Rightarrow> unit cfun"
  lua_remove :: "thread \<Rightarrow> int \<Rightarrow> world \<Rightarrow> world"
  lua_call :: "thread \<Rightarrow> nat \<Rightarrow> nat \<Rightarrow> unit cfun"
  lua_equal :: "thread \<Rightarrow> int \<Rightarrow> int \<Rightarrow> bool cfun"
  lua_getinfo :: "thread \<Rightarrow> string \<Rightarrow> lua_Debug cfun"
  luaL_where :: "thread \<Rightarrow> nat \<Rightarrow> world \<Rightarrow> world"
  luaL_buffinit :: "thread \<Rightarrow> luaL_Buffer cfun"
  luaL_addstring :: "thread \<Rightarrow> luaL_Buffer \<Rightarrow> string \<Rightarrow> luaL_Buffer cfun"
  luaL_pushresult :: "thread \<Rightarrow> luaL_Buffer \<Rightarrow> unit cfun"
  printf_f :: "lua_number \<Rightarrow> string"  \<comment> \<open>\<open>%f\<close>\<close>
  printf_p :: "ptr \<Rightarrow> string"         \<comment> \<open>\<open>%p\<close>\<close>
  raise_SIGSTOP :: "unit cfun"

section \<open>C strings\<close>

text \<open>What \<open>%s\<close> prints of a Lua string, which can contain NULs.\<close>

definition c_str :: "string \<Rightarrow> string" where
  "c_str s = takeWhile (\<lambda>x. x \<noteq> CHR 0x00) s"

text \<open>\<open>%i\<close>, and \<open>%-2i\<close>, which fills up to two characters with blanks on the right.\<close>

fun decimal_nat :: "nat \<Rightarrow> string" where
  "decimal_nat n =
     (if 10 \<le> n then decimal_nat (n div 10) else []) @ [char_of (48 + n mod 10)]"

declare decimal_nat.simps [simp del]

definition decimal :: "int \<Rightarrow> string" where
  "decimal i = (if i < 0 then CHR ''-'' # decimal_nat (nat (- i)) else decimal_nat (nat i))"

definition decimal_left2 :: "int \<Rightarrow> string" where
  "decimal_left2 i = decimal i @ replicate (2 - length (decimal i)) CHR '' ''"

text \<open>
  \<open>sprintf\<close> at the offset \<open>cur\<close> of a buffer of \<open>cap\<close> bytes that holds the string \<open>buf\<close>: the
  text and its final NUL have to fit.
\<close>

definition c_sprintf :: "nat \<Rightarrow> string \<Rightarrow> nat \<Rightarrow> string \<Rightarrow> string cfun" where
  "c_sprintf cap buf cur s =
     (if cur + length s < cap then mret (take cur buf @ s) else mfault Buffer_overflow)"

definition c_snprintf :: "nat \<Rightarrow> string \<Rightarrow> string" where
  "c_snprintf cap s = take (cap - 1) s"

abbreviation dbg_sprintf :: "string \<Rightarrow> nat \<Rightarrow> string \<Rightarrow> string cfun" where
  "dbg_sprintf \<equiv> c_sprintf 512"

text \<open>\<open>lua_tostring\<close> where its result is printed or measured.\<close>

definition the_string :: "env \<Rightarrow> thread \<Rightarrow> int \<Rightarrow> string cfun" where
  "the_string E L i =
     mbind (ext (lua_tostring E L i)) (\<lambda>s. case s of None \<Rightarrow> mfault Null_deref | Some s \<Rightarrow> mret (c_str s))"

section \<open>\<open>ngx_lua_select_luaS_dbgval\<close>\<close>

text \<open>\<open>tostring(value)\<close>, left on the stack.\<close>

definition call_tostring :: "env \<Rightarrow> debug_env \<Rightarrow> thread \<Rightarrow> int \<Rightarrow> unit cfun" where
  "call_tostring E D L n =
     mseq (lua_getglobal D L ''tostring'') (
     mseq (act (lua_pushvalue E L n)) (
     lua_call D L 1 1))"

text \<open>
  The two searches for a table, among the globals and among the loaded modules: a traversal of the
  table at the index \<open>i\<close> that prints the key of the first value equal to the one at \<open>n\<close>.
\<close>

fun dbg_scan ::
  "env \<Rightarrow> debug_env \<Rightarrow> int \<Rightarrow> (string \<Rightarrow> string) \<Rightarrow> nat \<Rightarrow> thread \<Rightarrow> int \<Rightarrow> string \<Rightarrow> string cfun"
where
  "dbg_scan E D i fmt 0 L n buf = mfault Out_of_fuel"
| "dbg_scan E D i fmt (Suc fuel) L n buf =
     mbind (ext (lua_next E L i)) (\<lambda>more.
     if \<not> more then mret buf
     else
       mbind (lua_equal D L (-1) n) (\<lambda>found.
       if found then
         mbind (the_string E L (-2)) (\<lambda>name.
         mbind (dbg_sprintf buf (length buf) (fmt name)) (\<lambda>buf.
         mseq (act (lua_pop E L 2)) (mret buf)))
       else
         mseq (act (lua_pop E L 1)) (dbg_scan E D i fmt fuel L n buf)))"

definition global_name :: "string \<Rightarrow> string" where
  "global_name name = '' _G['' @ CHR 0x22 # name @ CHR 0x22 # '']''"

definition loaded_name :: "string \<Rightarrow> string" where
  "loaded_name name = '' module '' @ CHR 0x22 # name @ [CHR 0x22]"

definition dbg_scan_globals :: "env \<Rightarrow> debug_env \<Rightarrow> nat \<Rightarrow> thread \<Rightarrow> int \<Rightarrow> string \<Rightarrow> string cfun" where
  "dbg_scan_globals E D = dbg_scan E D LUA_GLOBALSINDEX global_name"

definition dbg_scan_loaded :: "env \<Rightarrow> debug_env \<Rightarrow> nat \<Rightarrow> thread \<Rightarrow> int \<Rightarrow> string \<Rightarrow> string cfun" where
  "dbg_scan_loaded E D = dbg_scan E D (-2) loaded_name"

definition dbg_table :: "env \<Rightarrow> debug_env \<Rightarrow> nat \<Rightarrow> thread \<Rightarrow> int \<Rightarrow> string cfun" where
  "dbg_table E D fuel L n =
     mseq (luaL_checkstack D L 8) (
     mbind (rd (lua_status D L)) (\<lambda>status.
     mbind (if status = LUA_OK then
              mseq (call_tostring E D L n) (
              mbind (the_string E L (-1)) (\<lambda>str.
              mbind (dbg_sprintf [] 0 str) (\<lambda>buf.
              mseq (act (lua_pop E L 1)) (mret buf))))
            else
              mbind (rd (lua_topointer D L n)) (\<lambda>p.
              dbg_sprintf [] 0 (''table: '' @ printf_p D p)))
       (\<lambda>buf.
     mbind (lua_equal D L (-1) LUA_GLOBALSINDEX) (\<lambda>globals.
     if globals then
       mbind (dbg_sprintf buf (length buf) '' _G'') (\<lambda>buf.
       mseq (act (lua_pop E L 1)) (mret buf))
     else
       mseq (act (lua_pushnil E L)) (
       mbind (dbg_scan_globals E D fuel L n buf) (\<lambda>buf.
       mseq (lua_getglobal D L ''package'') (
       mseq (lua_getfield D L (-1) ''loaded'') (
       mseq (act (lua_remove D L (-2))) (
       mseq (act (lua_pushnil E L)) (
       mbind (dbg_scan_loaded E D fuel L n buf) (\<lambda>buf.
       mseq (act (lua_pop E L 1)) (mret buf))))))))))))"

definition dbg_lightuserdata :: "env \<Rightarrow> debug_env \<Rightarrow> thread \<Rightarrow> int \<Rightarrow> string cfun" where
  "dbg_lightuserdata E D L n =
     mseq (luaL_checkstack D L 2) (
     mbind (rd (lua_status D L)) (\<lambda>status.
     if status = LUA_OK then
       mseq (call_tostring E D L n) (
       mbind (the_string E L (-1)) (\<lambda>str.
       mbind (dbg_sprintf [] 0 (''light '' @ str)) (\<lambda>buf.
       mseq (act (lua_pop E L 1)) (mret buf))))
     else
       mbind (rd (lua_topointer D L n)) (\<lambda>p.
       dbg_sprintf [] 0 (''light userdata: '' @ printf_p D p))))"

definition dbg_function :: "env \<Rightarrow> debug_env \<Rightarrow> thread \<Rightarrow> int \<Rightarrow> string cfun" where
  "dbg_function E D L n =
     mseq (luaL_checkstack D L 3) (
     mseq (act (lua_pushvalue E L n)) (
     mbind (lua_getinfo D L ''>nSlu'') (\<lambda>dbg.
     mbind (rd (lua_status D L)) (\<lambda>status.
     mseq (if status = LUA_OK then call_tostring E D L n
           else
             mbind (rd (lua_topointer D L n)) (\<lambda>p.
             act (lua_pushliteral E L (''function: '' @ printf_p D p)))) (
     mbind (rd (lua_iscfunction D L n)) (\<lambda>cfunction.
     mbind (the_string E L (-1)) (\<lambda>str.
     mbind (dbg_sprintf [] 0 ((if cfunction then ''c '' else []) @ str @
       (if dbg_namewhat dbg \<noteq> [] then '' '' else []) @ dbg_namewhat dbg @
       (if dbg_name dbg \<noteq> None then '' '' else []) @ (case dbg_name dbg of None \<Rightarrow> [] | Some name \<Rightarrow> name) @
       '' '' @ dbg_short_src dbg @ '':'' @ decimal (dbg_linedefined dbg))) (\<lambda>buf.
     mseq (act (lua_pop E L 1)) (mret buf)))))))))"

text \<open>The status is the one of the calling thread \<open>L\<close>, as in the source.\<close>

definition dbg_thread_status :: "env \<Rightarrow> debug_env \<Rightarrow> thread \<Rightarrow> string cfun" where
  "dbg_thread_status E D L =
     mbind (rd (lua_status D L)) (\<lambda>status.
     if status = LUA_OK then
       mbind (rd (lua_getstack D L 0)) (\<lambda>frames.
       if 0 < frames then mret ''normal''
       else
         mbind (rd (lua_gettop E L)) (\<lambda>top.
         if top = 0 then mret ''dead'' else mret ''suspended''))
     else if status = LUA_YIELD then mret ''suspended''
     else mret ''dead'')"

definition dbg_thread :: "env \<Rightarrow> debug_env \<Rightarrow> thread \<Rightarrow> int \<Rightarrow> string cfun" where
  "dbg_thread E D L n =
     mbind (rd (lua_tothread D L n)) (\<lambda>coro.
     mseq (luaL_checkstack D L 4) (
     mseq (luaL_checkstack D coro 1) (
     mbind (rd (lua_status D L)) (\<lambda>status.
     mseq (if status = LUA_OK then call_tostring E D L n
           else
             mbind (rd (lua_topointer D L n)) (\<lambda>p.
             act (lua_pushliteral E L (''thread: '' @ printf_p D p)))) (
     mbind (dbg_thread_status E D L) (\<lambda>status.
     mseq (act (lua_pushliteral E L status)) (
     mseq (act (luaL_where D coro 1)) (
     if L = coro then
       mbind (the_string E L (-3)) (\<lambda>str.
       mbind (the_string E L (-2)) (\<lambda>status.
       mbind (the_string E coro (-1)) (\<lambda>loc.
       mbind (dbg_sprintf [] 0 (str @ '' (self) ('' @ status @ '') @ '' @ loc)) (\<lambda>buf.
       mseq (act (lua_pop E L 3)) (mret buf)))))
     else
       mbind (the_string E L (-2)) (\<lambda>str.
       mbind (the_string E L (-1)) (\<lambda>status.
       mbind (the_string E coro (-1)) (\<lambda>loc.
       mbind (dbg_sprintf [] 0 (str @ '' ('' @ status @ '') @ '' @ loc)) (\<lambda>buf.
       mseq (act (lua_pop E L 2)) (
       mseq (act (lua_pop E coro 1)) (mret buf))))))))))))))"

definition dbg_other :: "env \<Rightarrow> debug_env \<Rightarrow> thread \<Rightarrow> int \<Rightarrow> lua_type_tag \<Rightarrow> string cfun" where
  "dbg_other E D L n type =
     mbind (rd (lua_status D L)) (\<lambda>status.
     if status = LUA_OK then
       mseq (luaL_checkstack D L 2) (
       mseq (call_tostring E D L n) (
       mbind (the_string E L (-1)) (\<lambda>str.
       mbind (dbg_sprintf [] 0 str) (\<lambda>buf.
       mseq (act (lua_pop E L 1)) (mret buf)))))
     else
       mbind (rd (lua_topointer D L n)) (\<lambda>p.
       dbg_sprintf [] 0 (lua_typename D type @ '': '' @ printf_p D p)))"

definition ngx_lua_select_luaS_dbgval :: "env \<Rightarrow> debug_env \<Rightarrow> nat \<Rightarrow> thread \<Rightarrow> int \<Rightarrow> string cfun" where
  "ngx_lua_select_luaS_dbgval E D fuel L n =
     mbind (rd (lua_type D L n)) (\<lambda>type.
     let typename = lua_typename D type in
     mbind (rd (lua_gettop E L)) (\<lambda>top.
     mbind (case type of
              LUA_TNUMBER \<Rightarrow>
                mbind (rd (lua_tonumber E L n)) (\<lambda>num.
                dbg_sprintf [] 0 (typename @ '': '' @ printf_f D num))
            | LUA_TBOOLEAN \<Rightarrow>
                mbind (rd (lua_toboolean D L n)) (\<lambda>b.
                dbg_sprintf [] 0 (typename @ '': '' @ (if b then ''true'' else ''false'')))
            | LUA_TSTRING \<Rightarrow>
                mbind (the_string E L n) (\<lambda>str.
                dbg_sprintf [] 0 (typename @ '': '' @ CHR 0x22 # take 50 str @
                  (if 50 < length str then ''...'' else []) @ [CHR 0x22]))
            | LUA_TTABLE \<Rightarrow> dbg_table E D fuel L n
            | LUA_TLIGHTUSERDATA \<Rightarrow> dbg_lightuserdata E D L n
            | LUA_TFUNCTION \<Rightarrow> dbg_function E D L n
            | LUA_TTHREAD \<Rightarrow> dbg_thread E D L n
            | LUA_TNIL \<Rightarrow> dbg_sprintf [] 0 ''nil''
            | LUA_TUSERDATA \<Rightarrow> dbg_other E D L n type
            | LUA_TNONE \<Rightarrow> dbg_other E D L n type)
       (\<lambda>buf.
     mbind (rd (lua_gettop E L)) (\<lambda>top'.
     mseq (c_assert (top' = top)) (mret buf)))))"

section \<open>\<open>ngx_lua_select_luaS_printstack_named\<close>, \<open>ngx_lua_select_module_sigstop\<close>\<close>

definition dbg_line :: "nat \<Rightarrow> nat \<Rightarrow> string \<Rightarrow> string" where
  "dbg_line t n val =
     c_snprintf 256 (CHR 0x0A # replicate 31 CHR '' '' @ ''['' @
       decimal_left2 (- (int t - int n + 1)) @ ''  '' @ decimal (int n) @ '']: '' @ val)"

definition printstack_line :: "env \<Rightarrow> debug_env \<Rightarrow> nat \<Rightarrow> thread \<Rightarrow> nat \<Rightarrow> nat \<Rightarrow> luaL_Buffer \<Rightarrow> luaL_Buffer cfun" where
  "printstack_line E D fuel L t n buf =
     mbind (ngx_lua_select_luaS_dbgval E D fuel L (int n)) (\<lambda>val.
     luaL_addstring D L buf (dbg_line t n val))"

definition ngx_lua_select_luaS_printstack_named ::
  "env \<Rightarrow> debug_env \<Rightarrow> nat \<Rightarrow> thread \<Rightarrow> string \<Rightarrow> unit cfun" where
  "ngx_lua_select_luaS_printstack_named E D fuel L name =
     mbind (rd (lua_gettop E L)) (\<lambda>top.
     mbind (luaL_buffinit D L) (\<lambda>buf.
     mbind (c_sprintf 256 [] 0 (''lua stack '' @ name @ '':'')) (\<lambda>line.
     mbind (luaL_addstring D L buf line) (\<lambda>buf.
     mbind (for_each (rev [1..<Suc top]) (printstack_line E D fuel L top) buf) (\<lambda>buf.
     mseq (luaL_checkstack D L 1) (
     mseq (luaL_pushresult D L buf) (
     mbind (the_string E L (-1)) (\<lambda>stack.
     mseq (act (ngx_log_error E stack)) (
     mseq (act (lua_pop E L 1)) (
     mbind (rd (lua_gettop E L)) (\<lambda>top'.
     c_assert (top' = top))))))))))))"

definition ngx_lua_select_module_sigstop :: "debug_env \<Rightarrow> thread \<Rightarrow> int cfun" where
  "ngx_lua_select_module_sigstop D L = mseq (raise_SIGSTOP D) (mret 1)"

section \<open>What is printed\<close>

fun lval_type :: "lval \<Rightarrow> lua_type_tag" where
  "lval_type LNil = LUA_TNIL"
| "lval_type (LBool b) = LUA_TBOOLEAN"
| "lval_type (LNum x) = LUA_TNUMBER"
| "lval_type (LStr s) = LUA_TSTRING"
| "lval_type (LTable a) = LUA_TTABLE"
| "lval_type (LUserdata a) = LUA_TUSERDATA"
| "lval_type (LLightuserdata p) = LUA_TLIGHTUSERDATA"
| "lval_type (LFunction f) = LUA_TFUNCTION"
| "lval_type (LThread L) = LUA_TTHREAD"

fun type_name :: "lua_type_tag \<Rightarrow> string" where
  "type_name LUA_TNONE = ''no value''"
| "type_name LUA_TNIL = ''nil''"
| "type_name LUA_TBOOLEAN = ''boolean''"
| "type_name LUA_TLIGHTUSERDATA = ''userdata''"
| "type_name LUA_TNUMBER = ''number''"
| "type_name LUA_TSTRING = ''string''"
| "type_name LUA_TTABLE = ''table''"
| "type_name LUA_TFUNCTION = ''function''"
| "type_name LUA_TUSERDATA = ''userdata''"
| "type_name LUA_TTHREAD = ''thread''"

text \<open>\<open>n\<close> is the index of a value on the stack.\<close>

definition stack_index :: "lval list \<Rightarrow> int \<Rightarrow> bool" where
  "stack_index s n \<longleftrightarrow> n \<noteq> 0 \<and> nat \<bar>n\<bar> \<le> length s"

text \<open>The values that are printed without a call of \<open>tostring\<close>, and what is printed of them.\<close>

fun plain_value :: "lval \<Rightarrow> bool" where
  "plain_value LNil = True"
| "plain_value (LBool b) = True"
| "plain_value (LNum x) = True"
| "plain_value (LStr s) = True"
| "plain_value _ = False"

definition quoted :: "string \<Rightarrow> string" where
  "quoted str = CHR 0x22 # take 50 str @ (if 50 < length str then ''...'' else []) @ [CHR 0x22]"

fun plain_text :: "(lua_number \<Rightarrow> string) \<Rightarrow> lval \<Rightarrow> string" where
  "plain_text f LNil = ''nil''"
| "plain_text f (LBool b) = ''boolean: '' @ (if b then ''true'' else ''false'')"
| "plain_text f (LNum x) = ''number: '' @ f x"
| "plain_text f (LStr s) = ''string: '' @ quoted (c_str s)"
| "plain_text f _ = []"

text \<open>What \<open>printstack_named\<close> logs of a stack of such values.\<close>

definition stack_lines :: "(lua_number \<Rightarrow> string) \<Rightarrow> lval list \<Rightarrow> nat list \<Rightarrow> string" where
  "stack_lines f s ns =
     concat (map (\<lambda>n. dbg_line (length s) n (plain_text f (s ! (length s - n)))) ns)"

definition stack_text :: "(lua_number \<Rightarrow> string) \<Rightarrow> string \<Rightarrow> lval list \<Rightarrow> string" where
  "stack_text f name s =
     ''lua stack '' @ name @ '':'' @ stack_lines f s (rev [1..<Suc (length s)])"

text \<open>
  The laws: the type of a value and the types' names; a string is read as it is; \<open>%f\<close> prints a
  double in 317 characters at most; the table \<open>G\<close> of the globals equals itself; a buffer gathers
  its text and keeps its pieces above the values that were on the stack.  As everywhere, Lua does
  not run out of memory.
\<close>

lemma mbind_False: "m w = (Val False, w') \<Longrightarrow> mbind m k w = k False w'"
  by (simp add: mbind_run)

lemma drop_one: "drop 1 (x # xs) = xs"
  by simp

locale debug_api = lua_api E for E +
  fixes D :: debug_env
    and G :: addr
  assumes type_of: "stack_index (w_stack w L) n \<Longrightarrow>
      lua_type D L n w = lval_type (lua_at (w_stack w L) n)"
    and typename: "lua_typename D tag = type_name tag"
    and toboolean: "stack_index (w_stack w L) n \<Longrightarrow>
      lua_toboolean D L n w = (lua_at (w_stack w L) n \<notin> {LNil, LBool False})"
    and tostring_string: "lua_at (w_stack w L) n = LStr str \<Longrightarrow>
      lua_tostring E L n w = (Some str, w)"
    and printf_f: "length (printf_f D x) \<le> 317"
    and room: "length (w_stack w L) + m \<le> LUAI_MAXCSTACK \<Longrightarrow> luaL_checkstack D L m w = (Val (), w)"
    and tothread: "lua_at (w_stack w L) n = LThread t \<Longrightarrow> lua_tothread D L n w = t"
    and status_stack: "lua_status D L (set_stack M s w) = lua_status D L w"
    and getstack_stack: "lua_getstack D L k (set_stack M s w) = lua_getstack D L k w"
    and equal_globals: "lua_at (w_stack w L) n = LTable G \<Longrightarrow>
      lua_equal D L n LUA_GLOBALSINDEX w = (Val True, w)"
    and buffinit: "luaL_buffinit D L w = (Val \<lparr>lb_text = [], lb_pieces = 0\<rparr>, w)"
    and addstring: "w_stack w L = ps @ s \<Longrightarrow> length ps = lb_pieces b \<Longrightarrow> \<exists>ps'.
      luaL_addstring D L b str w =
        (Val \<lparr>lb_text = lb_text b @ str, lb_pieces = length ps'\<rparr>, set_stack L (ps' @ s) w) \<and>
      length ps' \<le> LUA_MINSTACK"
    and pushresult: "w_stack w L = ps @ s \<Longrightarrow> length ps = lb_pieces b \<Longrightarrow>
      luaL_pushresult D L b w = (Val (), set_stack L (LStr (lb_text b) # s) w)"
begin

lemma the_string_run:
  "lua_at (w_stack w L) n = LStr s \<Longrightarrow> the_string E L n w = (Val (c_str s), w)"
  by (simp add: the_string_def run_simps tostring_string)

lemma plain_text_fits: "plain_value v \<Longrightarrow> length (plain_text (printf_f D) v) < 512"
proof (cases v)
  case (LNum x)
  then show ?thesis using printf_f[of x] by simp
next
  case (LStr s)
  then show ?thesis by (simp add: quoted_def)
qed simp_all

lemma dbgval_plain:
  assumes n: "stack_index (w_stack w L) n" and plain: "plain_value (lua_at (w_stack w L) n)"
  shows "ngx_lua_select_luaS_dbgval E D fuel L n w =
    (Val (plain_text (printf_f D) (lua_at (w_stack w L) n)), w)"
proof (cases "lua_at (w_stack w L) n")
  case (LNum x)
  with n plain_text_fits[OF plain] show ?thesis
    by (simp add: ngx_lua_select_luaS_dbgval_def type_of typename run_simps c_sprintf_def
        tonumber gettop)
next
  case (LStr s)
  with n plain_text_fits[OF plain] show ?thesis
    by (simp add: ngx_lua_select_luaS_dbgval_def type_of typename run_simps c_sprintf_def
        the_string_run quoted_def gettop)
next
  case (LBool b)
  with n show ?thesis
    by (simp add: ngx_lua_select_luaS_dbgval_def type_of typename toboolean run_simps
        c_sprintf_def gettop)
qed (use n plain in \<open>simp_all add: ngx_lua_select_luaS_dbgval_def type_of run_simps
      c_sprintf_def gettop\<close>)

text \<open>What the caller of \<open>call_tostring\<close> relies on: the text is the one value it leaves.\<close>

lemma the_string_top:
  "the_string E L (-1) (set_stack L (LStr str # s) w) = (Val (c_str str), set_stack L (LStr str # s) w)"
  by (simp add: the_string_run)

lemma checkstack_run:
  assumes "length (w_stack w L) + m \<le> LUAI_MAXCSTACK"
  shows "mseq (luaL_checkstack D L m) k w = k w"
  using room[OF assms] by (simp add: run_simps)

text \<open>A userdata is printed as \<open>tostring\<close> has it, if that fits into the buffer.\<close>

lemma dbgval_userdata:
  assumes n: "stack_index (w_stack w L) n" and v: "lua_at (w_stack w L) n = LUserdata a"
    and room: "length (w_stack w L) + 2 \<le> LUAI_MAXCSTACK"
    and running: "lua_status D L w = LUA_OK"
    and str: "call_tostring E D L n w = (Val (), set_stack L (LStr str # w_stack w L) w)"
  shows "ngx_lua_select_luaS_dbgval E D fuel L n w =
    (if length (c_str str) < 512 then (Val (c_str str), w)
     else (Fault Buffer_overflow, set_stack L (LStr str # w_stack w L) w))"
proof -
  have "dbg_other E D L n LUA_TUSERDATA w =
    (if length (c_str str) < 512 then (Val (c_str str), w)
     else (Fault Buffer_overflow, set_stack L (LStr str # w_stack w L) w))"
    using running by (simp add: dbg_other_def checkstack_run[OF room] run_simps str
        the_string_top c_sprintf_def pop)
  then show ?thesis
    using n v by (simp add: ngx_lua_select_luaS_dbgval_def type_of run_simps gettop)
qed

lemma dbgval_lightuserdata:
  assumes n: "stack_index (w_stack w L) n" and v: "lua_at (w_stack w L) n = LLightuserdata p"
    and room: "length (w_stack w L) + 2 \<le> LUAI_MAXCSTACK"
    and running: "lua_status D L w = LUA_OK"
    and str: "call_tostring E D L n w = (Val (), set_stack L (LStr str # w_stack w L) w)"
    and short: "length (c_str str) + 6 < 512"
  shows "ngx_lua_select_luaS_dbgval E D fuel L n w = (Val (''light '' @ c_str str), w)"
proof -
  have "dbg_lightuserdata E D L n w = (Val (''light '' @ c_str str), w)"
    using running short by (simp add: dbg_lightuserdata_def checkstack_run[OF room] run_simps str
        the_string_top c_sprintf_def pop)
  then show ?thesis
    using n v by (simp add: ngx_lua_select_luaS_dbgval_def type_of run_simps gettop)
qed

lemma dbgval_function:
  assumes n: "stack_index (w_stack w L) n" and v: "lua_at (w_stack w L) n = LFunction f"
    and room: "length (w_stack w L) + 3 \<le> LUAI_MAXCSTACK"
    and info: "lua_getinfo D L ''>nSlu'' (set_stack L (LFunction f # w_stack w L) w) = (Val dbg, w)"
    and str: "if lua_status D L w = LUA_OK
      then call_tostring E D L n w = (Val (), set_stack L (LStr str # w_stack w L) w)
      else str = ''function: '' @ printf_p D (lua_topointer D L n w)"
    and cf: "lua_iscfunction D L n (set_stack L (LStr str # w_stack w L) w) = cfunction"
    and what: "text = (if cfunction then ''c '' @ c_str str else c_str str) @
        (if dbg_namewhat dbg = [] then [] else '' '' @ dbg_namewhat dbg) @
        (case dbg_name dbg of None \<Rightarrow> [] | Some name \<Rightarrow> '' '' @ name) @
        '' '' @ dbg_short_src dbg @ '':'' @ decimal (dbg_linedefined dbg)"
  shows "ngx_lua_select_luaS_dbgval E D fuel L n w =
    (if length text < 512 then (Val text, w)
     else (Fault Buffer_overflow, set_stack L (LStr str # w_stack w L) w))"
proof -
  have push: "lua_pushvalue E L n w = set_stack L (LFunction f # w_stack w L) w"
    using n v by (simp add: pushvalue stack_index_def)
  have text_pushed: "mseq (if lua_status D L w = LUA_OK then call_tostring E D L n
        else mbind (rd (lua_topointer D L n)) (\<lambda>p. act (lua_pushliteral E L (''function: '' @ printf_p D p)))) k w
      = k (set_stack L (LStr str # w_stack w L) w)" for k :: "string cfun"
    using str by (simp add: run_simps pushliteral split: if_splits)
  have "dbg_function E D L n w = (if length text < 512 then (Val text, w)
     else (Fault Buffer_overflow, set_stack L (LStr str # w_stack w L) w))"
    by (cases cfunction; cases "dbg_namewhat dbg = []"; cases "dbg_name dbg")
      (simp_all add: dbg_function_def checkstack_run[OF room] run_simps push info text_pushed cf
        the_string_top c_sprintf_def what pop)
  then show ?thesis
    using n v by (cases "length text < 512")
      (simp_all add: ngx_lua_select_luaS_dbgval_def type_of run_simps gettop)
qed

text \<open>On a thread that does not run, the address is printed in place of \<open>tostring\<close>.\<close>

lemma dbgval_not_running:
  assumes n: "stack_index (w_stack w L) n"
    and room: "length (w_stack w L) + 2 \<le> LUAI_MAXCSTACK"
    and stopped: "lua_status D L w \<noteq> LUA_OK"
    and short: "length (printf_p D (lua_topointer D L n w)) + 16 < 512"
  shows "lua_at (w_stack w L) n = LUserdata a \<Longrightarrow> ngx_lua_select_luaS_dbgval E D fuel L n w =
      (Val (''userdata: '' @ printf_p D (lua_topointer D L n w)), w)"
    and "lua_at (w_stack w L) n = LLightuserdata p \<Longrightarrow> ngx_lua_select_luaS_dbgval E D fuel L n w =
      (Val (''light userdata: '' @ printf_p D (lua_topointer D L n w)), w)"
  using assms
  by (simp_all add: ngx_lua_select_luaS_dbgval_def dbg_other_def dbg_lightuserdata_def type_of
      typename checkstack_run run_simps c_sprintf_def gettop)

text \<open>
  An index from the top is moved by what is pushed before it is used: the value that \<open>tostring\<close>
  gets is \<open>tostring\<close> itself.
\<close>

lemma dbgval_top:
  assumes top: "w_stack w L = LUserdata a # s"
    and room: "length (w_stack w L) + 2 \<le> LUAI_MAXCSTACK"
    and running: "lua_status D L w = LUA_OK"
    and "function": "lua_getglobal D L ''tostring'' w = (Val (), set_stack L (f # w_stack w L) w)"
    and call: "lua_call D L 1 1 (set_stack L (f # f # w_stack w L) w) =
      (Val (), set_stack L (LStr str # w_stack w L) w)"
    and short: "length (c_str str) < 512"
  shows "ngx_lua_select_luaS_dbgval E D fuel L (-1) w = (Val (c_str str), w)"
proof -
  have push: "lua_pushvalue E L (-1) (set_stack L (f # w_stack w L) w) =
      set_stack L (f # f # w_stack w L) w"
    using pushvalue[of "-1" "set_stack L (f # w_stack w L) w" L] by simp
  have "call_tostring E D L (-1) w = (Val (), set_stack L (LStr str # w_stack w L) w)"
    by (simp add: call_tostring_def run_simps "function" push call del: One_nat_def)
  with assms show ?thesis
    using dbgval_userdata[of w L "-1" a str fuel] by (simp add: stack_index_def)
qed

lemma dbgval_table_overflow:
  assumes n: "stack_index (w_stack w L) n" and v: "lua_at (w_stack w L) n = LTable a"
    and room: "length (w_stack w L) + 8 \<le> LUAI_MAXCSTACK"
    and running: "lua_status D L w = LUA_OK"
    and str: "call_tostring E D L n w = (Val (), set_stack L (LStr str # w_stack w L) w)"
    and long: "512 \<le> length (c_str str)"
  shows "ngx_lua_select_luaS_dbgval E D fuel L n w =
    (Fault Buffer_overflow, set_stack L (LStr str # w_stack w L) w)"
proof -
  have "dbg_table E D fuel L n w = (Fault Buffer_overflow, set_stack L (LStr str # w_stack w L) w)"
    using running long by (simp add: dbg_table_def checkstack_run[OF room] run_simps
        str the_string_top c_sprintf_def)
  then show ?thesis
    using n v by (simp add: ngx_lua_select_luaS_dbgval_def type_of run_simps)
qed

text \<open>
  The test for the globals looks at the top of the stack, and pops it: with the globals on top,
  whatever table is printed, the function's own assertion fails.
\<close>

lemma dbgval_globals:
  assumes n: "stack_index (w_stack w L) n" and v: "lua_at (w_stack w L) n = LTable a"
    and top: "w_stack w L = LTable G # s"
    and room: "length (w_stack w L) + 8 \<le> LUAI_MAXCSTACK"
    and running: "lua_status D L w = LUA_OK"
    and str: "call_tostring E D L n w = (Val (), set_stack L (LStr str # w_stack w L) w)"
    and short: "length (c_str str) + 3 < 512"
  shows "ngx_lua_select_luaS_dbgval E D fuel L n w = (Fault Assert_failed, set_stack L s w)"
proof -
  have w: "set_stack L (LTable G # s) w = w" using top by simp
  have equal: "lua_equal D L (-1) LUA_GLOBALSINDEX w = (Val True, w)"
    by (rule equal_globals) (simp add: top)
  have "dbg_table E D fuel L n w = (Val (c_str str @ '' _G''), set_stack L s w)"
    using running short by (simp add: dbg_table_def checkstack_run[OF room] run_simps
        str the_string_top c_sprintf_def pop top w equal)
  then show ?thesis
    using n v top by (simp add: ngx_lua_select_luaS_dbgval_def type_of run_simps gettop)
qed

text \<open>
  The status printed of a coroutine is the status of the thread that prints: \<open>normal\<close>, whatever
  the coroutine does.
\<close>

lemma dbg_thread_status_running:
  assumes "lua_status D L w = LUA_OK" and "0 < lua_getstack D L 0 w"
  shows "dbg_thread_status E D L (set_stack L s w) = (Val ''normal'', set_stack L s w)"
  using assms by (simp add: dbg_thread_status_def run_simps status_stack getstack_stack)

lemma dbgval_thread:
  assumes n: "stack_index (w_stack w L) n" and v: "lua_at (w_stack w L) n = LThread t" and "t \<noteq> L"
    and room: "length (w_stack w L) + 4 \<le> LUAI_MAXCSTACK" "length (w_stack w t) + 1 \<le> LUAI_MAXCSTACK"
    and running: "lua_status D L w = LUA_OK" "0 < lua_getstack D L 0 w"
    and str: "call_tostring E D L n w = (Val (), set_stack L (LStr str # w_stack w L) w)"
    and loc: "\<And>v. luaL_where D t 1 v = set_stack t (LStr loc # w_stack v t) v"
    and short: "length (c_str str) + length (c_str loc) + 12 < 512"
  shows "ngx_lua_select_luaS_dbgval E D fuel L n w =
    (Val (c_str str @ '' (normal) @ '' @ c_str loc), w)"
proof -
  have normal: "c_str ''normal'' = ''normal''" by (simp add: c_str_def)
  define s where "s = LStr ''normal'' # LStr str # w_stack w L"
  define w2 where "w2 = set_stack t (LStr loc # w_stack w t) (set_stack L s w)"
  have stacks: "w_stack w2 L = s" "w_stack w2 t = LStr loc # w_stack w t"
    using \<open>t \<noteq> L\<close> by (simp_all add: w2_def)
  have undone: "set_stack t (w_stack w t) (set_stack L (w_stack w L) w2) = w"
    using \<open>t \<noteq> L\<close> by (simp add: w2_def set_stack_def fun_upd_twist)
  have strings: "the_string E L (-2) w2 = (Val (c_str str), w2)"
    "the_string E L (-1) w2 = (Val (c_str ''normal''), w2)"
    "the_string E t (-1) w2 = (Val (c_str loc), w2)"
    by (rule the_string_run, simp add: stacks s_def)+
  have pops: "lua_pop E t 1 (lua_pop E L 2 w2) = w"
    using \<open>t \<noteq> L\<close> undone by (simp add: pop stacks s_def)
  have "dbg_thread E D L n w = (Val (c_str str @ '' (normal) @ '' @ c_str loc), w)"
    using \<open>t \<noteq> L\<close> running short strings normal pops
    by (simp add: dbg_thread_def tothread[OF v] checkstack_run[OF room(1)] checkstack_run[OF room(2)]
        run_simps str dbg_thread_status_running pushliteral loc s_def[symmetric] w2_def[symmetric]
        c_sprintf_def del: One_nat_def)
  then show ?thesis
    using n v by (simp add: ngx_lua_select_luaS_dbgval_def type_of run_simps gettop)
qed

text \<open>
  A stack of such values is logged line by line, from its top to its bottom, and left as it was.
\<close>

lemma printstack_line_run:
  assumes plain: "\<And>v. v \<in> set s \<Longrightarrow> plain_value v" and n: "1 \<le> n" "n \<le> length s"
    and stack: "w_stack w L = ps @ s" and ps: "length ps = lb_pieces b"
  shows "\<exists>ps'. printstack_line E D fuel L t n b w =
    (Val \<lparr>lb_text = lb_text b @ dbg_line t n (plain_text (printf_f D) (s ! (length s - n))),
       lb_pieces = length ps'\<rparr>, set_stack L (ps' @ s) w) \<and> length ps' \<le> LUA_MINSTACK"
proof -
  have v: "lua_at (w_stack w L) (int n) = s ! (length s - n)"
    using n by (simp add: stack lua_at_bottom) (simp add: lua_at_def)
  have "plain_value (s ! (length s - n))"
    using n by (intro plain nth_mem) linarith
  moreover have "stack_index (w_stack w L) (int n)"
    using n by (simp add: stack_index_def stack)
  ultimately have val: "ngx_lua_select_luaS_dbgval E D fuel L (int n) w =
      (Val (plain_text (printf_f D) (s ! (length s - n))), w)"
    using dbgval_plain[of w L "int n" fuel] v by simp
  show ?thesis
    using addstring[OF stack ps] by (simp add: printstack_line_def val run_simps)
qed

lemma printstack_loop:
  fixes s :: "lval list" and w :: world
  defines "ns \<equiv> rev [1..<Suc (length s)]"
  assumes plain: "\<And>v. v \<in> set s \<Longrightarrow> plain_value v"
    and ps: "length ps = lb_pieces b" "length ps \<le> LUA_MINSTACK"
  shows "\<exists>b' ps'. for_each ns (printstack_line E D fuel L (length s)) b (set_stack L (ps @ s) w) =
      (Val b', set_stack L (ps' @ s) w) \<and> length ps' = lb_pieces b' \<and> length ps' \<le> LUA_MINSTACK \<and>
      lb_text b' = lb_text b @ stack_lines (printf_f D) s ns"
proof -
  define I where "I k b' v \<longleftrightarrow> (\<exists>ps'. v = set_stack L (ps' @ s) w \<and> length ps' = lb_pieces b' \<and>
      length ps' \<le> LUA_MINSTACK \<and>
      lb_text b' = lb_text b @ stack_lines (printf_f D) s (take k ns))" for k and b' :: luaL_Buffer and v
  have "\<exists>b' v. for_each ns (printstack_line E D fuel L (length s)) b (set_stack L (ps @ s) w) =
      (Val b', v) \<and> I (length ns) b' v"
  proof (rule for_each_invariant)
    show "I 0 b (set_stack L (ps @ s) w)"
      unfolding I_def using ps by (intro exI[of _ ps]) (simp add: stack_lines_def)
    fix k b' v assume k: "k < length ns" and "I k b' v"
    then obtain ps' where I: "v = set_stack L (ps' @ s) w" "length ps' = lb_pieces b'"
        "lb_text b' = lb_text b @ stack_lines (printf_f D) s (take k ns)"
      by (auto simp: I_def)
    have "set ns = {1..length s}" by (auto simp: ns_def)
    with nth_mem[OF k] have n: "1 \<le> ns ! k" "ns ! k \<le> length s" by simp_all
    have stack: "w_stack v L = ps' @ s" by (simp add: I)
    show "\<exists>b'' v'. printstack_line E D fuel L (length s) (ns ! k) b' v = (Val b'', v') \<and> I (Suc k) b'' v'"
      using printstack_line_run[OF plain n stack I(2), of fuel "length s"] k I(3)
      by (auto simp: I_def I(1) take_Suc_conv_app_nth stack_lines_def)
  qed
  then show ?thesis by (auto simp: I_def)
qed

lemma printstack_plain:
  assumes plain: "\<And>v. v \<in> set (w_stack w L) \<Longrightarrow> plain_value v"
    and room: "length (w_stack w L) + LUA_MINSTACK < LUAI_MAXCSTACK"
    and name: "length name < 245"
    and log: "\<And>msg v. ngx_log_error E msg v = v\<lparr>w_log := w_log v @ [msg]\<rparr>"
  shows "ngx_lua_select_luaS_printstack_named E D fuel L name w =
    (Val (), w\<lparr>w_log := w_log w @ [c_str (stack_text (printf_f D) name (w_stack w L))]\<rparr>)"
proof -
  define s where "s = w_stack w L"
  define hdr where "hdr = ''lua stack '' @ name @ '':''"
  obtain ps where first: "luaL_addstring D L \<lparr>lb_text = [], lb_pieces = 0\<rparr> hdr w =
      (Val \<lparr>lb_text = hdr, lb_pieces = length ps\<rparr>, set_stack L (ps @ s) w)"
      and ps: "length ps \<le> LUA_MINSTACK"
    using addstring[of w L "[]" s "\<lparr>lb_text = [], lb_pieces = 0\<rparr>" hdr] by (auto simp: s_def)
  obtain b ps' where loop: "for_each (rev [1..<Suc (length s)])
        (printstack_line E D fuel L (length s)) \<lparr>lb_text = hdr, lb_pieces = length ps\<rparr>
        (set_stack L (ps @ s) w) = (Val b, set_stack L (ps' @ s) w)"
      and b: "length ps' = lb_pieces b" "length ps' \<le> LUA_MINSTACK"
        "lb_text b = stack_text (printf_f D) name s"
    using printstack_loop[of s ps "\<lparr>lb_text = hdr, lb_pieces = length ps\<rparr>" fuel L w] plain ps
    by (auto simp: s_def hdr_def stack_text_def)
  let ?w = "set_stack L (ps' @ s) w" and ?v = "set_stack L (LStr (lb_text b) # s) w"
  have more: "luaL_checkstack D L 1 ?w = (Val (), ?w)"
    using assms(2) b(2) by (intro debug_api.room[OF debug_api_axioms]) (simp add: s_def)
  have push: "luaL_pushresult D L b ?w = (Val (), ?v)"
    using pushresult[of ?w L ps' s b] b(1) by simp
  have line: "c_sprintf 256 [] 0 hdr = mret hdr"
    using name by (simp add: c_sprintf_def hdr_def)
  show ?thesis
    unfolding ngx_lua_select_luaS_printstack_named_def hdr_def[symmetric]
    by (simp add: run_simps gettop s_def[symmetric] buffinit line first loop more push the_string_top
        log pop b(3) drop_one del: upt_Suc One_nat_def)
qed

end

section \<open>The names of a table\<close>

text \<open>
  A table is printed with the name of a global that holds it and with the name under which
  \<open>package.loaded\<close> holds it.  For tables without metatables these are raw comparisons.
\<close>

definition name_of :: "lua_table \<Rightarrow> addr \<Rightarrow> lval option" where
  "name_of t a = map_option fst (List.find (\<lambda>e. snd e = LTable a) t)"

fun named :: "(string \<Rightarrow> string) \<Rightarrow> lval option \<Rightarrow> string" where
  "named fmt (Some (LStr name)) = fmt (c_str name)"
| "named fmt _ = []"

fun string_key :: "lval option \<Rightarrow> bool" where
  "string_key None = True"
| "string_key (Some (LStr name)) = True"
| "string_key _ = False"

lemma string_key_cases: "string_key k \<Longrightarrow> k = None \<or> (\<exists>name. k = Some (LStr name))"
  by (cases k rule: string_key.cases) simp_all

definition package_loaded :: "world \<Rightarrow> addr \<Rightarrow> lua_table \<Rightarrow> lua_table \<Rightarrow> bool" where
  "package_loaded w g tg ld \<longleftrightarrow>
     table_at w g = Some tg \<and> wf_table tg \<and> w_meta w g = None \<and>
     (case table_get tg (LStr ''package'') of
        LTable p \<Rightarrow> w_meta w p = None \<and>
          (case table_get (case table_at w p of None \<Rightarrow> [] | Some tp \<Rightarrow> tp) (LStr ''loaded'') of
             LTable l \<Rightarrow> table_at w l = Some ld \<and> wf_table ld
           | _ \<Rightarrow> False)
      | _ \<Rightarrow> False)"

lemma package_loadedE:
  assumes "package_loaded w g tg ld"
  obtains p tp l where "table_at w g = Some tg" "wf_table tg" "w_meta w g = None"
    "table_get tg (LStr ''package'') = LTable p" "w_meta w p = None" "table_at w p = Some tp"
    "table_get tp (LStr ''loaded'') = LTable l" "table_at w l = Some ld" "wf_table ld"
  using assms
  by (auto simp: package_loaded_def table_get_def split: lval.splits option.splits)

definition next_step :: "thread \<Rightarrow> lval list \<Rightarrow> (lval \<times> lval) option \<Rightarrow> world \<Rightarrow> bool \<times> world" where
  "next_step L s e w =
     (case e of
        None \<Rightarrow> (False, set_stack L s w)
      | Some (k, v) \<Rightarrow> (True, set_stack L (v # k # s) w))"

locale debug_tables = debug_api +
  assumes equal_raw: "i \<noteq> LUA_GLOBALSINDEX \<Longrightarrow> n \<noteq> LUA_GLOBALSINDEX \<Longrightarrow> lua_at (w_stack w L) i = v \<Longrightarrow> lua_at (w_stack w L) n = LTable a \<Longrightarrow>
      w_meta w a = None \<Longrightarrow> lua_equal D L i n w = (Val (v = LTable a), w)"
    and equal_globals_raw: "i \<noteq> LUA_GLOBALSINDEX \<Longrightarrow> lua_at (w_stack w L) i = v \<Longrightarrow> w_meta w G = None \<Longrightarrow>
      lua_equal D L i LUA_GLOBALSINDEX w = (Val (v = LTable G), w)"
    and next_globals: "w_stack w L = k # s \<Longrightarrow> length s < LUAI_MAXCSTACK \<Longrightarrow>
      table_at w G = Some t \<Longrightarrow> wf_table t \<Longrightarrow> k = LNil \<or> k \<in> fst ` set t \<Longrightarrow>
      lua_next E L LUA_GLOBALSINDEX w = next_step L s (next_entry t k) w"
    and getglobal: "table_at w G = Some t \<Longrightarrow> w_meta w G = None \<Longrightarrow>
      lua_getglobal D L name w = (Val (), set_stack L (table_get t (LStr name) # w_stack w L) w)"
    and getfield: "i \<noteq> LUA_GLOBALSINDEX \<Longrightarrow> lua_at (w_stack w L) i = LTable a \<Longrightarrow> table_at w a = Some t \<Longrightarrow>
      w_meta w a = None \<Longrightarrow>
      lua_getfield D L i name w = (Val (), set_stack L (table_get t (LStr name) # w_stack w L) w)"
    and remove_below: "w_stack w L = x # y # s \<Longrightarrow> lua_remove D L (-2) w = set_stack L (x # s) w"
begin

lemma dbg_scan_run:
  assumes wf: "wf_table (pre @ post)"
    and step: "\<And>k. k = LNil \<or> k \<in> fst ` set (pre @ post) \<Longrightarrow>
      lua_next E L i (set_stack L (k # s) w) = next_step L s (next_entry (pre @ post) k) (set_stack L (k # s) w)"
    and n: "0 < n" "n \<le> int (length s)" "lua_at s n = LTable a" and raw: "w_meta w a = None"
    and key: "string_key (name_of post a)"
    and fits: "length buf + length (named fmt (name_of post a)) < 512"
    and fuel: "length post < fuel"
  shows "dbg_scan E D i fmt fuel L n buf (set_stack L (key_after pre # s) w) =
    (Val (buf @ named fmt (name_of post a)), set_stack L s w)"
  using wf step key fits fuel
proof (induction post arbitrary: pre fuel)
  case Nil
  then obtain f where f: "fuel = Suc f" by (cases fuel) auto
  have "next_entry pre (key_after pre) = None"
    using next_entry_after[of pre "[]"] Nil.prems(1) by simp
  then show ?case
    using Nil.prems(2)[of "key_after pre"] key_after_known[of pre "[]"]
    by (simp add: f run_simps next_step_def name_of_def)
next
  case (Cons e post)
  obtain k v where e: "e = (k, v)" by force
  obtain f where f: "fuel = Suc f" using Cons.prems(5) by (cases fuel) auto
  have "next_entry (pre @ e # post) (key_after pre) = Some e"
    using next_entry_after[OF Cons.prems(1)] by simp
  then have more: "lua_next E L i (set_stack L (key_after pre # s) w) =
      (True, set_stack L (v # k # s) w)"
    using Cons.prems(2)[of "key_after pre"] key_after_known[of pre "e # post"]
    by (simp add: next_step_def e)
  have at: "lua_at (v # k # s) n = LTable a"
    using n lua_at_bottom[of n s "[v, k]"] by simp
  have equal: "lua_equal D L (-1) n (set_stack L (v # k # s) w) =
      (Val (v = LTable a), set_stack L (v # k # s) w)"
    using n(1) by (intro equal_raw) (simp_all add: at raw LUA_GLOBALSINDEX_def)
  show ?case
  proof (cases "v = LTable a")
    case True
    with Cons.prems(3) obtain name where name: "k = LStr name"
      using string_key_cases by (fastforce simp: name_of_def e)
    have str: "the_string E L (-2) (set_stack L (LTable a # LStr name # s) w) =
        (Val (c_str name), set_stack L (LTable a # LStr name # s) w)"
      by (rule the_string_run) simp
    show ?thesis
      using Cons.prems(4) more equal str True
      by (simp add: f run_simps name_of_def e name c_sprintf_def pop)
  next
    case False
    have "dbg_scan E D i fmt f L n buf (set_stack L (key_after (pre @ [e]) # s) w) =
        (Val (buf @ named fmt (name_of post a)), set_stack L s w)"
      using Cons.prems False by (intro Cons.IH) (simp_all add: name_of_def e f)
    with False more equal show ?thesis
      by (simp add: f run_simps name_of_def e pop)
  qed
qed

lemma scan_globals_run:
  assumes g: "table_at w G = Some tg" "wf_table tg"
    and n: "0 < n" "n \<le> int (length (w_stack w L))" "lua_at (w_stack w L) n = LTable a"
    and raw: "w_meta w a = None" and room: "length (w_stack w L) < LUAI_MAXCSTACK"
    and key: "string_key (name_of tg a)" and fuel: "length tg < fuel"
    and fits: "length buf + length (named global_name (name_of tg a)) < 512"
  shows "dbg_scan_globals E D fuel L n buf (set_stack L (LNil # w_stack w L) w) =
    (Val (buf @ named global_name (name_of tg a)), w)"
proof -
  have "lua_next E L LUA_GLOBALSINDEX (set_stack L (k # w_stack w L) w) =
      next_step L (w_stack w L) (next_entry tg k) (set_stack L (k # w_stack w L) w)"
    if "k = LNil \<or> k \<in> fst ` set tg" for k
    using that g room by (intro next_globals) simp_all
  with g n raw key fits fuel show ?thesis
    unfolding dbg_scan_globals_def
    using dbg_scan_run[of "[]" tg L LUA_GLOBALSINDEX "w_stack w L" w n a buf global_name fuel]
    by simp
qed

lemma scan_loaded_run:
  assumes l: "table_at w l = Some ld" "wf_table ld"
    and n: "0 < n" "n \<le> int (length (w_stack w L))" "lua_at (w_stack w L) n = LTable a"
    and raw: "w_meta w a = None"
    and key: "string_key (name_of ld a)" and fuel: "length ld < fuel"
    and fits: "length buf + length (named loaded_name (name_of ld a)) < 512"
  shows "dbg_scan_loaded E D fuel L n buf (set_stack L (LNil # LTable l # w_stack w L) w) =
    (Val (buf @ named loaded_name (name_of ld a)), set_stack L (LTable l # w_stack w L) w)"
proof -
  have step: "lua_next E L (-2) (set_stack L (k # LTable l # w_stack w L) w) =
      next_step L (LTable l # w_stack w L) (next_entry ld k) (set_stack L (k # LTable l # w_stack w L) w)"
    if "k = LNil \<or> k \<in> fst ` set ld" for k
    using that l
      next_more[of "set_stack L (k # LTable l # w_stack w L) w" L k "LTable l # w_stack w L" "-2" l ld]
      next_done[of "set_stack L (k # LTable l # w_stack w L) w" L k "LTable l # w_stack w L" "-2" l ld]
    by (cases "next_entry ld k") (auto simp: next_step_def)
  from l(2) step n raw key fits fuel show ?thesis
    unfolding dbg_scan_loaded_def
    using dbg_scan_run[of "[]" ld L "-2" "LTable l # w_stack w L" w n a buf loaded_name fuel]
    by simp
qed

lemma dbgval_table:
  assumes n: "0 < n" "n \<le> int (length (w_stack w L))" and v: "lua_at (w_stack w L) n = LTable a"
    and top: "lua_at (w_stack w L) (-1) \<noteq> LTable G" and raw: "w_meta w a = None"
    and libs: "package_loaded w G tg ld" and keys: "string_key (name_of tg a)" "string_key (name_of ld a)"
    and room: "length (w_stack w L) + 8 \<le> LUAI_MAXCSTACK"
    and running: "lua_status D L w = LUA_OK"
    and str: "call_tostring E D L n w = (Val (), set_stack L (LStr str # w_stack w L) w)"
    and fits: "length (c_str str) + length (named global_name (name_of tg a)) +
      length (named loaded_name (name_of ld a)) < 512"
    and fuel: "length tg < fuel" "length ld < fuel"
  shows "ngx_lua_select_luaS_dbgval E D fuel L n w =
    (Val (c_str str @ named global_name (name_of tg a) @ named loaded_name (name_of ld a)), w)"
proof -
  from libs obtain p tp l where g: "table_at w G = Some tg" "wf_table tg" "w_meta w G = None"
    and p: "table_get tg (LStr ''package'') = LTable p" "w_meta w p = None" "table_at w p = Some tp"
    and l: "table_get tp (LStr ''loaded'') = LTable l" "table_at w l = Some ld" "wf_table ld"
    by (rule package_loadedE)
  let ?s = "w_stack w L"
  have no_globals: "lua_equal D L (-1) LUA_GLOBALSINDEX w = (Val False, w)"
    using equal_globals_raw[OF _ refl g(3), of "-1"] top by (simp add: LUA_GLOBALSINDEX_def)
  have globals: "dbg_scan_globals E D fuel L n (c_str str) (set_stack L (LNil # ?s) w) =
      (Val (c_str str @ named global_name (name_of tg a)), w)"
    using room fits by (intro scan_globals_run g n v raw keys fuel) simp_all
  have loaded: "dbg_scan_loaded E D fuel L n (c_str str @ named global_name (name_of tg a))
        (set_stack L (LNil # LTable l # ?s) w) =
      (Val (c_str str @ named global_name (name_of tg a) @ named loaded_name (name_of ld a)),
       set_stack L (LTable l # ?s) w)"
    using fits scan_loaded_run[OF l(2,3) n v raw keys(2) fuel(2),
        of "c_str str @ named global_name (name_of tg a)"] by simp
  have package: "lua_getglobal D L ''package'' w = (Val (), set_stack L (LTable p # ?s) w)"
    using getglobal[OF g(1,3)] p(1) by simp
  have field: "lua_getfield D L (-1) ''loaded'' (set_stack L (LTable p # ?s) w) =
      (Val (), set_stack L (LTable l # LTable p # ?s) w)"
    using getfield[of "-1" "set_stack L (LTable p # ?s) w" L p tp] p l(1)
    by (simp add: LUA_GLOBALSINDEX_def)
  have removed: "lua_remove D L (-2) (set_stack L (LTable l # LTable p # ?s) w) =
      set_stack L (LTable l # ?s) w"
    using remove_below[of "set_stack L (LTable l # LTable p # ?s) w" L] by simp
  have "dbg_table E D fuel L n w =
      (Val (c_str str @ named global_name (name_of tg a) @ named loaded_name (name_of ld a)), w)"
    using running fits by (simp add: dbg_table_def checkstack_run[OF room] run_simps str the_string_top
        c_sprintf_def pop no_globals pushnil globals package field removed loaded drop_one
        mbind_False del: One_nat_def)
  then show ?thesis
    using n v by (simp add: ngx_lua_select_luaS_dbgval_def type_of stack_index_def run_simps gettop)
qed

end

section \<open>An instance of the laws\<close>

text \<open>
  \<open>tos\<close> is what \<open>tostring\<close> makes of a value, \<open>g\<close> the table of the globals; numbers are printed
  with six decimals, pointers in decimal.  A buffer keeps its text apart from the stack.
\<close>

definition doc_fixed :: "lua_number \<Rightarrow> string" where
  "doc_fixed x =
     (case x of
        LNaN \<Rightarrow> ''nan''
      | LMinusInf \<Rightarrow> ''-inf''
      | LPlusInf \<Rightarrow> ''inf''
      | LFin q \<Rightarrow>
          let m = nat \<lfloor>\<bar>q\<bar> * 1000000 + 1 / 2\<rfloor>; frac = decimal_nat (m mod 1000000) in
          take 317 ((if q < 0 then ''-'' else []) @ decimal_nat (m div 1000000) @ ''.'' @
            replicate (6 - length frac) CHR ''0'' @ frac))"

definition doc_pointer :: "ptr \<Rightarrow> string" where
  "doc_pointer p = (case p of None \<Rightarrow> ''(nil)'' | Some a \<Rightarrow> decimal_nat a)"

definition doc_index :: "addr \<Rightarrow> thread \<Rightarrow> int \<Rightarrow> world \<Rightarrow> lval" where
  "doc_index g L i w = (if i = LUA_GLOBALSINDEX then LTable g else lua_at (w_stack w L) i)"

definition doc_push :: "thread \<Rightarrow> lval \<Rightarrow> unit cfun" where
  "doc_push L v = act (\<lambda>w. set_stack L (v # w_stack w L) w)"

definition doc_field :: "lval \<Rightarrow> string \<Rightarrow> world \<Rightarrow> lval" where
  "doc_field v name w =
     (case v of LTable a \<Rightarrow> table_get (the_entries w a) (LStr name) | _ \<Rightarrow> LNil)"

definition doc_call_tostring :: "(lval \<Rightarrow> string) \<Rightarrow> thread \<Rightarrow> unit cfun" where
  "doc_call_tostring tos L =
     act (\<lambda>w. set_stack L (LStr (tos (hd (w_stack w L))) # drop 2 (w_stack w L)) w)"

definition doc_denv :: "(lval \<Rightarrow> string) \<Rightarrow> addr \<Rightarrow> debug_env" where
  "doc_denv tos g =
     \<lparr>lua_type = (\<lambda>L n w. lval_type (lua_at (w_stack w L) n)),
      lua_typename = type_name,
      lua_toboolean = (\<lambda>L n w. lua_at (w_stack w L) n \<notin> {LNil, LBool False}),
      lua_topointer = (\<lambda>L n w. case lua_at (w_stack w L) n of LTable a \<Rightarrow> Some a | LUserdata a \<Rightarrow> Some a
        | LLightuserdata p \<Rightarrow> p | LThread t \<Rightarrow> Some t | _ \<Rightarrow> None),
      lua_tothread = (\<lambda>L n w. case lua_at (w_stack w L) n of LThread t \<Rightarrow> t | _ \<Rightarrow> 0),
      lua_iscfunction = (\<lambda>L n w. case lua_at (w_stack w L) n of LFunction f \<Rightarrow> True | _ \<Rightarrow> False),
      lua_status = (\<lambda>L w. LUA_OK),
      lua_getstack = (\<lambda>L k w. 1),
      luaL_checkstack = (\<lambda>L m w. if length (w_stack w L) + m \<le> LUAI_MAXCSTACK then (Val (), w)
        else (Raise (Lua_error ''stack overflow''), w)),
      lua_getglobal = (\<lambda>L name. mbind (rd (doc_field (LTable g) name)) (doc_push L)),
      lua_getfield = (\<lambda>L i name.
        mbind (rd (\<lambda>w. doc_field (doc_index g L i w) name w)) (doc_push L)),
      lua_remove = (\<lambda>L i w. let s = w_stack w L; k = nat (- i) - 1 in
        set_stack L (take k s @ drop (Suc k) s) w),
      lua_call = (\<lambda>L m k. doc_call_tostring tos L),
      lua_equal = (\<lambda>L i j. rd (\<lambda>w. doc_index g L i w = doc_index g L j w)),
      lua_getinfo = (\<lambda>L what w. (Val \<lparr>dbg_namewhat = [], dbg_name = None, dbg_short_src = ''?'',
        dbg_linedefined = -1\<rparr>, set_stack L (tl (w_stack w L)) w)),
      luaL_where = (\<lambda>L k w. set_stack L (LStr ''?'' # w_stack w L) w),
      luaL_buffinit = (\<lambda>L. mret \<lparr>lb_text = [], lb_pieces = 0\<rparr>),
      luaL_addstring = (\<lambda>L b str w. (Val \<lparr>lb_text = lb_text b @ str, lb_pieces = 0\<rparr>,
        set_stack L (drop (lb_pieces b) (w_stack w L)) w)),
      luaL_pushresult = (\<lambda>L b w. (Val (),
        set_stack L (LStr (lb_text b) # drop (lb_pieces b) (w_stack w L)) w)),
      printf_f = doc_fixed,
      printf_p = doc_pointer,
      raise_SIGSTOP = mret ()\<rparr>"

lemma doc_fixed_length: "length (doc_fixed x) \<le> 317"
  by (cases x) (simp_all add: doc_fixed_def Let_def del: take_append)

lemma lua_at_top_string: "lua_at s (-1) = LStr str \<Longrightarrow> LStr str # tl s = s"
  by (cases s) (simp_all add: lua_at_def)

interpretation doc_debug: debug_api doc_env "doc_denv tos g" g for tos g
  by unfold_locales
    (auto simp: doc_denv_def doc_env_def doc_fixed_length run_simps doc_index_def
      doc_tostring_def lua_at_top_string)

lemma doc_globals_next:
  assumes "w_stack w L = k # s" and "length s < LUAI_MAXCSTACK" and "table_at w 0 = Some t"
  shows "doc_next L LUA_GLOBALSINDEX w = next_step L s (next_entry t k) w"
  using assms by (simp add: doc_next_def next_step_def lua_at_def LUA_GLOBALSINDEX_def
      LUAI_MAXCSTACK_def the_table_def the_entries_def split: option.splits prod.splits)

text \<open>In this instance the table at the address 0 holds the globals.\<close>

interpretation doc_tables: debug_tables doc_env "doc_denv tos 0" 0 for tos
  by unfold_locales
    (auto simp: doc_denv_def doc_env_def run_simps doc_index_def
      doc_globals_next doc_push_def doc_field_def the_entries_def Let_def)

lemma doc_tostring_run:
  assumes "0 < n" and "n \<le> int (length (w_stack w L))"
  shows "call_tostring doc_env (doc_denv tos g) L n w =
    (Val (), set_stack L (LStr (tos (lua_at (w_stack w L) n)) # w_stack w L) w)"
  using assms by (simp add: call_tostring_def doc_denv_def doc_env_def run_simps doc_push_def
      doc_call_tostring_def lua_at_bottom[of n "w_stack w L" "[x]" for x, simplified] numeral_2_eq_2)

lemma doc_denv_simps [simp]:
  "lua_status (doc_denv tos g) L w = LUA_OK" "lua_getstack (doc_denv tos g) L k w = 1"
  "printf_f (doc_denv tos g) = doc_fixed"
  by (simp_all add: doc_denv_def)

end
