(* ===== verification/Select_Forms.thy ===== *)
theory Select_Forms
  imports Select_Outcomes "HOL-Library.Multiset"
begin

text \<open>
  The two ways of writing a socket table for reading, which the README calls equivalent:
  \<open>{sock1, sock2}\<close> and \<open>{[sock1]="r", [sock2]="r"}\<close>.  Lua traverses the second one in any order.
\<close>

section \<open>The order of a table\<close>

lemma check_entries_Inr:
  "check_entries E w r es = Inr xs \<longleftrightarrow> map (check_entry E w r) es = map Inr xs"
proof
  assume "check_entries E w r es = Inr xs"
  from check_entries_all[OF this] show "map (check_entry E w r) es = map Inr xs"
    by (auto simp: list_all2_conv_all_nth intro: nth_equalityI)
next
  show "map (check_entry E w r) es = map Inr xs \<Longrightarrow> check_entries E w r es = Inr xs"
  proof (induction es arbitrary: xs)
    case (Cons e es)
    from Cons.prems obtain y ys where "xs = y # ys" "check_entry E w r e = Inr y"
        "map (check_entry E w r) es = map Inr ys" by (cases xs) auto
    with Cons.IH[of ys] show ?case by simp
  qed simp
qed

text \<open>A table in another order is accepted with the same entries, or rejected too.\<close>

lemma check_entries_reordered:
  assumes same: "mset (map (check_entry E w' r) es') = mset (map (check_entry E w r) es)"
    and ok: "check_entries E w r es = Inr xs"
  shows "\<exists>xs'. check_entries E w' r es' = Inr xs' \<and> mset xs' = mset xs"
proof -
  let ?f = "check_entry E w' r"
  from ok same have m: "mset (map ?f es') = mset (map Inr xs)" by (simp add: check_entries_Inr)
  from arg_cong[OF m, of set_mset] have "\<forall>e \<in> set es'. \<exists>x. ?f e = Inr x"
    by (metis (no_types, lifting) imageE image_eqI list.set_map set_mset_mset)
  then have all: "map ?f es' = map Inr (map (projr \<circ> ?f) es')" by auto
  have "mset (map projr (map ?f es')) = mset (map projr (map Inr xs :: (string + _) list))"
    using arg_cong[OF m, of "image_mset projr"] by (simp only: mset_map)
  then have "mset (map (projr \<circ> ?f) es') = mset xs" by (simp add: comp_def)
  with all show ?thesis by (intro exI[of _ "map (projr \<circ> ?f) es'"]) (simp only: check_entries_Inr)
qed

section \<open>The two forms\<close>

fun array_form :: "int \<Rightarrow> addr list \<Rightarrow> lua_table" where
  "array_form n [] = []"
| "array_form n (a # as) = (lua_int n, LTable a) # array_form (n + 1) as"

definition mode_form :: "addr list \<Rightarrow> lua_table" where
  "mode_form as = map (\<lambda>a. (LTable a, LStr ''r'')) as"

lemma array_form_mem: "e \<in> set (array_form n as) \<Longrightarrow> \<exists>k. \<exists>a \<in> set as. e = (lua_int k, LTable a)"
  by (induction n as rule: array_form.induct) auto

lemma array_form_mem': "a \<in> set as \<Longrightarrow> \<exists>k. (lua_int k, LTable a) \<in> set (array_form n as)"
  by (induction n as rule: array_form.induct) auto

lemma array_form_length [simp]: "length (array_form n as) = length as"
  by (induction n as rule: array_form.induct) simp_all

lemma mode_form_mem [simp]: "e \<in> set (mode_form as) \<longleftrightarrow> (\<exists>a \<in> set as. e = (LTable a, LStr ''r''))"
  by (auto simp: mode_form_def)

lemma rw_of_r: "rw_of_string ''r'' = NGX_LUA_SELECT_READ" "NGX_LUA_SELECT_READ \<noteq> 0"
  by (simp_all add: rw_of_string_def c_strchr_def Let_def NGX_LUA_SELECT_READ_def)

text \<open>An entry asks for the same in both forms, when only the argument table \<open>T\<close> is another.\<close>

lemma the_entries_put: "a \<noteq> T \<Longrightarrow> the_entries (put_table T es w) a = the_entries w a"
  by (simp add: the_entries_def)

lemma check_entry_forms:
  assumes "a \<noteq> T"
  shows "check_entry E (put_table T es w) r (LTable a, LStr ''r'') = check_entry E w r (lua_int k, LTable a)"
proof -
  have "entry_socket E (put_table T es w) (LTable a, LStr ''r'') = entry_socket E w (lua_int k, LTable a)"
    using assms by (simp add: entry_socket_def the_entries_put rw_of_r lua_int_def)
  moreover have "request_buffered (put_table T es w) = request_buffered w"
    by (simp add: fun_eq_iff request_buffered_def cong: option.case_cong)
  then have "upstream_error (put_table T es w) = upstream_error w"
    by (intro ext) (simp only: upstream_error_def)
  ultimately show ?thesis by (simp only: check_entry_def put_table_frame)
qed

lemma check_forms:
  "T \<notin> set as \<Longrightarrow> map (check_entry E (put_table T es w) r) (mode_form as)
    = map (check_entry E w r) (array_form n as)"
  by (induction n as rule: array_form.induct) (simp_all add: mode_form_def check_entry_forms)

lemma mode_form_wf:
  assumes "distinct as" and "mset es = mset (mode_form as)"
  shows "wf_table es"
proof -
  have "set es = set (mode_form as)" using assms(2) by (rule mset_eq_setD)
  moreover have "mset (map fst es) = mset (map LTable as)"
    using arg_cong[OF assms(2), of "image_mset fst"]
    by (simp only: mset_map[symmetric] mode_form_def map_map comp_def fst_conv)
  then have "distinct (map fst es)"
    using mset_eq_imp_distinct_iff assms(1) by (metis distinct_map inj_onI lval.inject(4))
  ultimately show ?thesis by (auto simp: wf_table_def)
qed

lemma mode_form_ok:
  assumes ok: "\<forall>e \<in> set (array_form n as). entry_ok w e" and T: "T \<notin> set as"
    and a: "a \<in> set as"
  shows "entry_ok (put_table T es w) (LTable a, LStr ''r'')"
proof -
  from a T have "a \<noteq> T" by auto
  moreover obtain k where "(lua_int k, LTable a) \<in> set (array_form n as)"
    using array_form_mem'[OF a] by blast
  with ok have "entry_ok w (lua_int k, LTable a)" by blast
  ultimately show ?thesis by (simp add: entry_ok_def the_entries_put)
qed

section \<open>The calls\<close>

text \<open>The same outcome; of two rejected calls the messages may differ.\<close>

definition same_kind :: "int outcome \<Rightarrow> int outcome \<Rightarrow> bool" where
  "same_kind a b \<longleftrightarrow> a = b \<or> (\<exists>m m'. a = Raise (Arg_error 1 m) \<and> b = Raise (Arg_error 1 m'))"

text \<open>The thread's first argument is the table \<open>T\<close> of the sockets \<open>as\<close>.\<close>

definition array_call :: "env \<Rightarrow> nat \<Rightarrow> thread \<Rightarrow> world \<Rightarrow> addr \<Rightarrow> addr \<Rightarrow> addr \<Rightarrow> addr list \<Rightarrow> bool" where
  "array_call E fuel L w r co T as \<longleftrightarrow>
     wf_call E fuel L w r co (array_form 1 as) \<and> lua_at (w_stack w L) 1 = LTable T \<and>
     T \<notin> set as \<and> distinct as"

lemma mode_form_call:
  assumes call: "array_call E fuel L w r co T as" and es: "mset es = mset (mode_form as)"
    and "in_request E L (put_table T es w) r co"
  shows "wf_call E fuel L (put_table T es w) r co es"
proof -
  from call have ok: "\<forall>e \<in> set (array_form 1 as). entry_ok w e" and T: "T \<notin> set as"
    by (simp_all add: array_call_def wf_call_def)
  have "set es = set (mode_form as)" using es by (rule mset_eq_setD)
  then have "\<forall>e \<in> set es. entry_ok (put_table T es w) e" using mode_form_ok[OF ok T] by auto
  moreover have "length es = length as"
    using mset_eq_length[OF es] by (simp add: mode_form_def)
  ultimately show ?thesis
    using call mode_form_wf[OF _ es] assms(3) by (simp add: array_call_def wf_call_def)
qed

lemma forms_checked:
  assumes "T \<notin> set as" and "mset es = mset (mode_form as)"
  shows "mset (map (check_entry E (put_table T es w) r) es) = mset (map (check_entry E w r) (array_form 1 as))"
  using arg_cong[OF assms(2), of "image_mset (check_entry E (put_table T es w) r)"]
  by (simp only: mset_map[symmetric] check_forms[OF assms(1), where n = 1])

lemma forms_outcome:
  assumes T: "T \<notin> set as" and es: "mset es = mset (mode_form as)"
  shows "same_kind (call_outcome E w r (array_form 1 as) args) (call_outcome E (put_table T es w) r es args)"
proof -
  note m = forms_checked[OF T es, of E w r]
  have rd: "readable (put_table T es w) = readable w"
    by (simp add: fun_eq_iff readable_def cong: option.case_cong)
  show ?thesis
  proof (cases "check_entries E w r (array_form 1 as)")
    case (Inr xs)
    from check_entries_reordered[OF m this] obtain xs'
      where "check_entries E (put_table T es w) r es = Inr xs'" "set xs' = set xs"
      by (blast dest: mset_eq_setD)
    with Inr show ?thesis by (simp add: call_outcome_def same_kind_def rd split: sum.splits)
  next
    case (Inl msg)
    have "\<nexists>xs. check_entries E (put_table T es w) r es = Inr xs"
      using check_entries_reordered[OF m[symmetric]] Inl by fastforce
    then obtain msg' where "check_entries E (put_table T es w) r es = Inl msg'"
      by (cases "check_entries E (put_table T es w) r es") auto
    with Inl show ?thesis by (auto simp: call_outcome_def same_kind_def split: sum.splits)
  qed
qed

context process_api begin

lemma forms_equivalent_run:
  assumes call: "array_call E fuel L w r co T as" and es: "mset es = mset (mode_form as)"
    and req: "in_request E L (put_table T es w) r co" and "conns_ok w"
    and args: "parse_args (lua_str2number E) (w_stack w L) = Inr timeout"
    and "can_wait w co timeout" and "not_selecting w r"
  shows "same_kind (fst (lua_select_module_select E fuel L w))
      (fst (lua_select_module_select E fuel L (put_table T es w)))"
    and "accepted_call E fuel L w r co (array_form 1 as) timeout xs \<Longrightarrow>
      \<exists>xs'. mset xs' = mset xs \<and> accepted_call E fuel L (put_table T es w) r co es timeout xs'"
proof -
  let ?w = "put_table T es w"
  have T: "T \<notin> set as" and wf: "wf_call E fuel L w r co (array_form 1 as)"
    using call by (simp_all add: array_call_def)
  note wf' = mode_form_call[OF call es req]
  have frame: "conns_ok ?w" "can_wait ?w co timeout" "not_selecting ?w r"
    using assms by (simp_all add: conns_ok_def can_wait_def not_selecting_def)
  have "fst (lua_select_module_select E fuel L ?w) = call_outcome E ?w r es (w_stack w L)"
    using select_outcome_run[OF wf' frame(1) _ frame(2,3)] args by simp
  with select_outcome_run[OF wf assms(4-7)] forms_outcome[OF T es, of E w r "w_stack w L"]
  show "same_kind (fst (lua_select_module_select E fuel L w)) (fst (lua_select_module_select E fuel L ?w))"
    by simp
  assume "accepted_call E fuel L w r co (array_form 1 as) timeout xs"
  then have "check_entries E w r (array_form 1 as) = Inr xs" by (simp add: accepted_call_def)
  from check_entries_reordered[OF forms_checked[OF T es] this]
  show "\<exists>xs'. mset xs' = mset xs \<and> accepted_call E fuel L ?w r co es timeout xs'"
    using wf' args by (auto simp: accepted_call_def wf_call_def)
qed

end

end
