(* ===== verification/Select_Demo.thy ===== *)
theory Select_Demo
  imports Select_Loop Select_Debug Select_Forms
begin

text \<open>
  Concrete states of a worker process, on which the properties are instantiated: a stream
  request (1) whose client is the connection 8, with the upstreams 5 and 6 made by
  \<open>ngx.socket.tcp()\<close> on the connections 17 and 18, and 4, which wraps the client's
  connection.  Lua's socket objects are the tables 24, 25 and 26, and 27 is one made by
  \<open>ngx.socket.udp()\<close>; the table 30 is the argument.
\<close>

definition demo_event :: "bool \<Rightarrow> ngx_event" where
  "demo_event rdy = zero_event\<lparr>ev_active := True, ev_ready := rdy\<rparr>"

definition demo_conn :: "int \<Rightarrow> bool \<Rightarrow> ngx_connection" where
  "demo_conn fd rdy =
     \<lparr>cn_fd = fd, cn_read = demo_event rdy, cn_write = demo_event False, cn_buffered = 0,
      cn_requests = 1, cn_log = None\<rparr>"

definition demo_up :: "addr \<Rightarrow> tcp_upstream" where
  "demo_up b =
     \<lparr>up_peer_connection = Some b, up_read_closed = False, up_request = Some 1,
      up_conn_waiting = False, up_read_waiting = False, up_write_waiting = False,
      up_raw_downstream = False, up_read_event_handler = Fn_foreign 1,
      up_write_event_handler = Fn_foreign 2\<rparr>"

definition demo_req :: lua_request where
  "demo_req =
     \<lparr>rq_connection = Some 8, rq_read_event_handler = Fn_foreign 3,
      rq_write_event_handler = Fn_foreign 4,
      rq_ctx = (\<lambda>m. case m of Mod_stream_lua \<Rightarrow> Some 9 | Mod_select \<Rightarrow> None)\<rparr>"

text \<open>The thread 0 runs the function with the arguments \<open>args\<close>; \<open>es\<close> is the table's content.\<close>

definition demo :: "lval list \<Rightarrow> lua_table \<Rightarrow> int \<Rightarrow> world" where
  "demo args es bytes =
     \<lparr>w_stack = (\<lambda>_. [])(0 := args),
      w_registry = [],
      w_tables = [(30, es), (24, [(lua_int 1, LUserdata 4)]), (25, [(lua_int 1, LUserdata 5)]),
                  (26, [(lua_int 1, LUserdata 6)]), (27, [(lua_int 1, LUserdata 7)])],
      w_meta = (\<lambda>_. None),
      w_ctxs = [],
      w_conns = [8 \<mapsto> demo_conn 3 False, 17 \<mapsto> demo_conn 4 False, 18 \<mapsto> demo_conn 5 False],
      w_ups = [4 \<mapsto> demo_up 8, 5 \<mapsto> demo_up 17, 6 \<mapsto> demo_up 18],
      w_udps = [7 \<mapsto> \<lparr>uu_connection = Some 18\<rparr>],
      w_reqs = [1 \<mapsto> demo_req],
      w_sctxs = [9 \<mapsto> \<lparr>sc_cur_co_ctx = Some 10, sc_entered_content_phase = True,
                       sc_resume_handler = Fn_NULL\<rparr>],
      w_coctxs = [10 \<mapsto> \<lparr>co_co = 0, co_cleanup = Fn_NULL, co_data = None\<rparr>],
      w_posted = [],
      w_kernel = (\<lambda>fd. (0, if fd = 4 then bytes else 0)),
      w_log = []\<rparr>"

lemmas demo_defs = demo_def demo_up_def demo_req_def demo_conn_def demo_event_def

text \<open>The arguments of the witnesses: the table 30, with a timeout of 5000 ms or without.\<close>

abbreviation demo_args :: "lval list" where "demo_args \<equiv> [LTable 30]"
abbreviation demo_timed :: "lval list" where "demo_timed \<equiv> [LNum (LFin 5000), LTable 30]"

text \<open>\<open>{sock1, [sock2] = "rw"}\<close>.\<close>

definition demo_entries :: lua_table where
  "demo_entries = [(lua_int 1, LTable 25), (LTable 26, LStr ''rw'')]"

lemma demo_request: "in_request doc_env 0 (demo args es b) 1 10" and
  demo_selecting: "not_selecting (demo args es b) 1" and
  demo_conns: "conns_ok (demo args es b)"
  by (auto simp: in_request_def request_ok_def not_selecting_def conns_ok_def demo_defs
      doc_env_def split: if_splits)

text \<open>What the entries ask for: reading from 5, both from 6.\<close>

definition demo_asked :: "(32 word \<times> addr \<times> lval) list" where
  "demo_asked = [(1, 5, LTable 25), (3, 6, LTable 26)]"

lemma demo_rw [simp]: "rw_of_string ''rw'' = 3" "rw_of_string ''w'' = 2" "rw_of_string ''x'' = 0"
  "rw_has 1 1" "\<not> rw_has 1 2" "rw_has 2 2" "\<not> rw_has 2 1" "rw_has 3 1" "rw_has 3 2"
  by (simp_all add: rw_of_string_def c_strchr_def NGX_LUA_SELECT_READ_def NGX_LUA_SELECT_WRITE_def
      rw_has_def)

lemmas flag_defs = NGX_LUA_SELECT_READ_def NGX_LUA_SELECT_WRITE_def

lemma demo_table [simp]:
  "table_at (demo args es b) 30 = Some es"
  "table_at (demo args es b) 24 = Some [(lua_int 1, LUserdata 4)]"
  "table_at (demo args es b) 25 = Some [(lua_int 1, LUserdata 5)]"
  "table_at (demo args es b) 26 = Some [(lua_int 1, LUserdata 6)]"
  "table_at (demo args es b) 27 = Some [(lua_int 1, LUserdata 7)]"
  "w_stack (demo args es b) 0 = args" "w_registry (demo args es b) = []"
  by (simp_all add: demo_def table_at_def)

lemma demo_up_at [simp]:
  "w_ups (demo args es b) 4 = Some (demo_up 8)" "w_ups (demo args es b) 5 = Some (demo_up 17)"
  "w_ups (demo args es b) 6 = Some (demo_up 18)"
  by (simp_all add: demo_def)

lemma doc_strings [simp]: "lua_str2number doc_env = (\<lambda>_. None)" "lua_number2str doc_env = (\<lambda>_. ''0'')"
  by (simp_all add: doc_env_def)

lemma demo_entry:
  "a \<in> {24, 25, 26} \<Longrightarrow> table_get (the_entries (demo args es b) a) (lua_int 1) = LUserdata (a - 20)"
  by (auto simp: the_entries_def table_get_def)

lemma demo_no_error: "c \<in> {8, 17, 18} \<Longrightarrow> upstream_error (demo args es b) 1 rw (demo_up c) = None"
  by (simp add: upstream_error_def demo_up_def)

lemma lval_number_int [simp]: "lval_number f (lua_int n) = Some (LFin (of_int n))"
  by (simp add: lua_int_def)

lemma demo_checked: "check_entries doc_env (demo args es b) 1 demo_entries = Inr demo_asked"
  by (simp add: demo_entries_def demo_asked_def check_entry_def entry_socket_def demo_entry
      demo_no_error flag_defs del: One_nat_def)

lemma demo_entry_ok: "k \<in> {24, 25, 26} \<Longrightarrow> entry_ok (demo args es b) (lua_int n, LTable k)"
    "k \<in> {24, 25, 26} \<Longrightarrow> entry_ok (demo args es b) (LTable k, LStr str)"
  by (auto simp: entry_ok_def demo_entry)

lemma demo_call: "wf_call doc_env 3 0 (demo demo_timed demo_entries b) 1 10 demo_entries"
  by (auto simp: wf_call_def demo_request demo_entries_def demo_entry_ok wf_table_def
        lua_int_not_nil[THEN not_sym]
      simp del: One_nat_def)

lemma demo_accepted:
  "accepted_call doc_env 3 0 (demo demo_timed demo_entries b) 1 10 demo_entries (LFin 5000) demo_asked"
  using demo_call[of b] by (simp add: accepted_call_def wf_call_def demo_checked del: One_nat_def)

lemma demo_connected: "connected (demo args es b) demo_asked"
  by (rule conns_ok_connected[OF demo_conns demo_checked])

lemma demo_readable: "readable (demo args es b) 5 \<longleftrightarrow> 0 < b" "\<not> readable (demo args es b) 6"
  by (simp_all add: readable_def demo_defs)

lemma demo_idle: "\<not> (\<exists>x \<in> set demo_asked. readable (demo args es 0) (fst (snd x)))"
  by (simp add: demo_asked_def demo_readable)

lemma demo_can_wait: "can_wait (demo args es b) 10 (LFin 5000)"
  by (simp add: can_wait_def demo_def)

lemma demo_in_content: "in_content (demo args es b) 1 9"
  by (simp add: in_content_def demo_def demo_req_def)

lemma demo_coctx:
  "w_coctxs (demo args es b) 10 = Some \<lparr>co_co = 0, co_cleanup = Fn_NULL, co_data = None\<rparr>"
  by (simp add: demo_def)

lemma demo_all_read: "all_read (demo args es b) 1 demo_asked"
  by (simp add: all_read_def demo_asked_def flag_defs) (simp add: demo_defs)

lemma demo_distinct: "distinct_sockets (demo args es b) 1 demo_asked"
  by (simp add: distinct_sockets_def demo_asked_def entry_down_def) (simp add: demo_defs)

text \<open>Bytes arrive on the connection 17.\<close>

definition demo_arrival :: "addr \<Rightarrow> ngx_connection \<Rightarrow> ngx_connection" where
  "demo_arrival a conn =
     (if a = 17 then conn\<lparr>cn_read := (cn_read conn)\<lparr>ev_ready := True\<rparr>\<rparr> else conn)"

lemma after_wait_conns: "w_conns (after_wait f tmo p w) = (\<lambda>a. map_option (f a) (w_conns w a))"
  by (simp add: after_wait_def split: option.split)

lemma demo_arrived:
  assumes "w_conns w' = w_conns (demo args es b)"
  shows "ready_entries (demo args es b) (after_wait demo_arrival tmo p w') demo_asked
    = [(LTable 25, ''r'')]"
proof -
  let ?w2 = "after_wait demo_arrival tmo p w'"
  have c: "w_conns (demo args es b) 17 = Some (demo_conn 4 False)"
    "w_conns (demo args es b) 18 = Some (demo_conn 5 False)"
    by (simp_all add: demo_def)
  have conns: "w_conns ?w2 17 = Some (demo_arrival 17 (demo_conn 4 False))"
    "w_conns ?w2 18 = Some (demo_conn 5 False)"
    using c by (simp_all add: after_wait_conns assms demo_arrival_def)
  have ready: "ptr_ready cn_read ?w2 (Some 17)" "\<not> ptr_ready cn_read ?w2 (Some 18)"
    "\<not> ptr_ready cn_write ?w2 (Some 18)"
    by (simp_all add: ptr_ready_def conns demo_arrival_def demo_conn_def demo_event_def zero_event_def)
  have up: "up_peer_connection (demo_up k) = Some k" for k by (simp add: demo_up_def)
  show ?thesis
    using ready by (simp add: ready_entries_def ready_entry_def demo_asked_def flag_defs up Let_def)
qed

text \<open>A context whose first socket is readable and whose second is writable.\<close>

definition demo_done :: ngx_lua_select_ctx where
  "demo_done = (zero_ctx 0)\<lparr>cx_count := 2,
     cx_socket := [zero_socket\<lparr>sk_lua_socket_ref := 1, sk_read_ready := True\<rparr>,
                   zero_socket\<lparr>sk_lua_socket_ref := 2, sk_write_ready := True\<rparr>]\<rparr>"

definition demo_result :: world where
  "demo_result = (demo [] [] 0)
     \<lparr>w_registry := [(1, LTable 25), (2, LTable 26)], w_ctxs := [(40, demo_done)]\<rparr>"

lemma demo_result_facts:
  "ctx_at demo_result 40 = Some demo_done" "cx_count demo_done = length (cx_socket demo_done)"
  "refs_live (w_registry demo_result) (cx_socket demo_done)"
  "ready_list (w_registry demo_result) (cx_socket demo_done) = [(LTable 25, ''r''), (LTable 26, ''w'')]"
  by (simp_all add: demo_result_def demo_done_def ctx_at_def refs_live_def ready_list_def zero_socket_def)

lemma demo_written:
  "cx_socket demo_done ! 1 \<in> set (cx_socket demo_done)"
  "sk_read_ready (cx_socket demo_done ! 1) \<or> sk_write_ready (cx_socket demo_done ! 1)"
  "map_of (w_registry demo_result) (sk_lua_socket_ref (cx_socket demo_done ! 1)) = Some (LTable 26)"
  "\<forall>s' \<in> set (cx_socket demo_done). map_of (w_registry demo_result) (sk_lua_socket_ref s')
     = Some (LTable 26) \<longrightarrow> s' = cx_socket demo_done ! 1"
  by (simp_all add: demo_result_def demo_done_def zero_socket_def)

text \<open>\<open>{sock1, [sock2] = "x"}\<close>: the second entry has no valid mode.\<close>

definition demo_bad :: lua_table where
  "demo_bad = [(lua_int 1, LTable 25), (LTable 26, LStr ''x'')]"

lemma demo_rejected:
  "rejected_call doc_env 3 0 (demo demo_args demo_bad b) 1 10 [(lua_int 1, LTable 25)]
    (LTable 26, LStr ''x'') [] [(1, 5, LTable 25)] msg_bad_mode"
proof -
  have "check_entries doc_env (demo demo_args demo_bad b) 1 [(lua_int 1, LTable 25)]
      = Inr [(1, 5, LTable 25)]"
    by (simp add: check_entry_def entry_socket_def demo_entry demo_no_error flag_defs
        del: One_nat_def)
  moreover have "check_entry doc_env (demo demo_args demo_bad b) 1 (LTable 26, LStr ''x'')
      = Inl msg_bad_mode"
    by (simp add: check_entry_def entry_socket_def)
  ultimately show ?thesis
    by (auto simp: rejected_call_def demo_request demo_entry_ok demo_bad_def wf_table_def
        lua_int_not_nil[THEN not_sym] simp del: One_nat_def)
qed

lemma demo_bad_connected: "connected (demo args es b) [(1, 5, LTable 25)]"
  using demo_connected[of args es b] by (simp add: connected_def demo_asked_def)

text \<open>\<open>{[sock2] = "w"}\<close>, the README's second socket.\<close>

definition demo_write_only :: lua_table where
  "demo_write_only = [(LTable 26, LStr ''w'')]"

lemma demo_write_only_checked:
  "check_entries doc_env (demo args es b) 1 demo_write_only = Inr [(2, 6, LTable 26)]"
  by (simp add: demo_write_only_def check_entry_def entry_socket_def demo_entry demo_no_error
      del: One_nat_def)

lemma demo_write_only_accepted:
  "accepted_call doc_env 3 0 (demo demo_timed demo_write_only b) 1 10 demo_write_only (LFin 5000)
    [(2, 6, LTable 26)]"
proof -
  have "wf_table demo_write_only" "length demo_write_only < 3"
    "\<forall>e \<in> set demo_write_only. entry_ok (demo demo_timed demo_write_only b) e"
    by (simp_all add: demo_write_only_def wf_table_def demo_entry_ok)
  then show ?thesis
    by (simp add: accepted_call_def demo_request demo_write_only_checked del: One_nat_def)
qed

lemma demo_write_only_idle:
  "\<not> (\<exists>x \<in> set [(2, 6, LTable 26)]. readable (demo args es b) (fst (snd x)))"
  by (simp add: demo_readable)

lemma demo_write_only_connected: "connected (demo args es b) [(2, 6, LTable 26)]"
  by (rule conns_ok_connected[OF demo_conns demo_write_only_checked])

lemma demo_not_down: "\<not> entry_down (demo args es b) 1 (rw, 5, v)" "\<not> entry_down (demo args es b) 1 (rw, 6, v)"
  by (simp_all add: entry_down_def) (simp_all add: demo_defs)

text \<open>\<open>{sock1, sock1}\<close>: the same socket twice.\<close>

definition demo_twice :: lua_table where
  "demo_twice = [(lua_int 1, LTable 25), (lua_int 2, LTable 25)]"

abbreviation demo_twice_asked :: "(32 word \<times> addr \<times> lval) list" where
  "demo_twice_asked \<equiv> [(1, 5, LTable 25), (1, 5, LTable 25)]"

lemma demo_twice_checked:
  "check_entries doc_env (demo args es b) 1 demo_twice = Inr demo_twice_asked"
  by (simp add: demo_twice_def check_entry_def entry_socket_def demo_entry demo_no_error flag_defs
      del: One_nat_def)

lemma demo_twice_accepted:
  "accepted_call doc_env 3 0 (demo demo_timed demo_twice b) 1 10 demo_twice (LFin 5000)
    demo_twice_asked"
proof -
  have "wf_table demo_twice" "length demo_twice < 3"
    "\<forall>e \<in> set demo_twice. entry_ok (demo demo_timed demo_twice b) e"
    by (simp_all add: demo_twice_def wf_table_def demo_entry_ok lua_int_not_nil[THEN not_sym])
  then show ?thesis
    by (simp add: accepted_call_def demo_request demo_twice_checked del: One_nat_def)
qed

lemma demo_twice_facts:
  "connected (demo args es b) demo_twice_asked"
  "\<not> (\<exists>x \<in> set demo_twice_asked. readable (demo args es 0) (fst (snd x)))"
  "all_read (demo args es b) 1 demo_twice_asked"
  "2 \<le> length (filter (entry_of (demo args es b) 1 5) demo_twice_asked)"
proof -
  show "connected (demo args es b) demo_twice_asked"
    by (rule conns_ok_connected[OF demo_conns demo_twice_checked])
  show "\<not> (\<exists>x \<in> set demo_twice_asked. readable (demo args es 0) (fst (snd x)))"
    by (simp add: demo_readable)
  show "all_read (demo args es b) 1 demo_twice_asked"
    using demo_all_read[of args es b] by (simp add: all_read_def demo_asked_def)
  show "2 \<le> length (filter (entry_of (demo args es b) 1 5) demo_twice_asked)"
    by (simp add: entry_of_def demo_not_down del: One_nat_def)
qed

section \<open>A run of the event loop\<close>

lemma demo_queue: "queue_ok (demo args es b)"
  by (simp add: queue_ok_def demo_def)

text \<open>
  After the yield, bytes arrive on the connection 17, and its read handler is called.
\<close>

lemma demo_loop:
  "\<exists>w' p c w2. lua_select_module_select doc_env 3 0 (demo demo_timed demo_entries 0) = (Yield 0, w') \<and>
    selecting w' 1 p c \<and> loop_run doc_env 1 p 9 10 w' w2 \<and>
    logged_run doc_env 1 p 9 10 ([], w') ([Upstream_read 5], w2) \<and> latched p w2 \<and>
    ready_entries (demo demo_timed demo_entries 0) w2 demo_asked = [(LTable 25, ''r'')] \<and>
    \<not> latched p w' \<and> wakeup_enabled w2 1 p (Upstream_write 6)"
proof -
  let ?w = "demo demo_timed demo_entries 0"
  obtain w' p c where run: "lua_select_module_select doc_env 3 0 ?w = (Yield 0, w')"
    and sel: "selecting w' 1 p c" and conns: "w_conns w' = w_conns ?w"
    by (rule process_api.yields[OF doc_process.process_api_axioms demo_accepted demo_connected
          demo_idle demo_can_wait demo_queue])
  from process_api.yielded[OF doc_process.process_api_axioms demo_accepted demo_connected
      demo_idle demo_can_wait demo_queue run sel]
  obtain q c0 cref refs where q: "w_reqs ?w 1 = Some q"
      and len: "length (cx_socket c0) = length demo_asked" "length refs = length demo_asked"
      and w': "w' = waiting 1 10 (LFin 5000) demo_asked p c0 cref refs ?w"
      and inv: "\<And>sa. wait_inv 1 p sa 10 c w' w'"
    by metis
  let ?w1 = "w'\<lparr>w_conns := (\<lambda>a. map_option (demo_arrival a) (w_conns w' a))\<rparr>"
  have step1: "loop_event doc_env 1 p 9 10 w' [] ?w1"
    by (rule loop_event.elsewhere) (auto simp: untouched_def)
  have inv1: "wait_inv 1 p 9 10 c w' ?w1"
    by (rule process_api.loop_event_inv[OF doc_process.process_api_axioms inv step1])
  note enabled = process_api.waiting_enabled[OF doc_process.process_api_axioms q len(2,1) demo_checked]
  have "wakeup_enabled w' 1 p (Upstream_read (fst (snd (1 :: 32 word, 5, LTable 25))))"
    unfolding w' by (rule enabled(1))
      (simp_all add: demo_asked_def demo_not_down flag_defs del: One_nat_def)
  then have on: "wakeup_enabled ?w1 1 p (Upstream_read 5)" by (auto split: option.splits)
  have "wakeup_enabled w' 1 p (Upstream_write (fst (snd (3 :: 32 word, 6, LTable 26))))"
    unfolding w' by (rule enabled(2))
      (simp_all add: demo_asked_def demo_not_down flag_defs del: One_nat_def)
  then have on6: "wakeup_enabled (activate p c3 ?w1) 1 p (Upstream_write 6)" for c3
    by (auto simp: activate_def split: option.splits)
  have "w_posted w' = []" unfolding w' waiting_frame by (simp add: demo_def)
  then have unlatched: "\<not> latched p w'" by (simp add: latched_def)
  obtain c3 where c3: "ctx_at ?w1 p = Some c3"
    "wake doc_env 1 p (Upstream_read 5) ?w1 = (Val (), activate p c3 ?w1)"
    using process_api.wake_run[OF doc_process.process_api_axioms inv1 on] by auto
  have step2: "loop_event doc_env 1 p 9 10 ?w1 [Upstream_read 5] (activate p c3 ?w1)"
    by (rule loop_event.woken[OF on c3(2)])
  have "logged_step doc_env 1 p 9 10 ([], w') ([], ?w1)"
    using step1 by (auto simp: logged_step_def)
  moreover have "logged_step doc_env 1 p 9 10 ([], ?w1) ([Upstream_read 5], activate p c3 ?w1)"
    using step2 by (auto simp: logged_step_def)
  ultimately have run1: "logged_run doc_env 1 p 9 10 ([], w') ([Upstream_read 5], activate p c3 ?w1)"
    by (meson converse_rtranclp_into_rtranclp r_into_rtranclp)
  from logged_run_loop[OF this] have run2: "loop_run doc_env 1 p 9 10 w' (activate p c3 ?w1)" by simp
  have "w_conns (activate p c3 ?w1) = w_conns ?w1" by (simp add: activate_def)
  then have same: "w_conns (activate p c3 ?w1) = w_conns (after_wait demo_arrival False p w')"
    by (simp add: after_wait_conns)
  have "ready_entries ?w (activate p c3 ?w1) demo_asked = [(LTable 25, ''r'')]"
    unfolding ready_entries_conns[OF same] by (rule demo_arrived[OF conns])
  with run sel run1 run2 latched_activate[OF inv1 c3(1)] on6 unlatched show ?thesis by blast
qed

lemma demo_given_back:
  assumes "\<exists>c2. given_back (demo demo_timed demo_entries 0) 1 demo_asked c2 w2 w3"
  shows "read_handler_of w3 5 = Some (Fn_foreign 1)"
proof -
  have "\<exists>x \<in> set demo_asked. entry_of (demo demo_timed demo_entries 0) 1 5 x"
    by (simp add: demo_asked_def entry_of_def entry_down_def) (simp add: demo_defs)
  then have "read_handler_of w3 5 = read_handler_of (demo demo_timed demo_entries 0) 5"
    using assms by (auto simp: given_back_def)
  then show ?thesis by (simp add: read_handler_of_def) (simp add: demo_up_def)
qed

section \<open>Other timeouts, another kernel\<close>

lemma demo_accepted_args:
  assumes "parse_args (\<lambda>_. None) args = Inr t" and "lua_at args 1 = LTable 30"
  shows "accepted_call doc_env 3 0 (demo args demo_entries b) 1 10 demo_entries t demo_asked"
proof -
  have "wf_table demo_entries" "length demo_entries < 3"
    "\<forall>e \<in> set demo_entries. entry_ok (demo args demo_entries b) e"
    by (simp_all add: demo_entries_def wf_table_def demo_entry_ok lua_int_not_nil[THEN not_sym])
  with assms show ?thesis by (simp add: accepted_call_def demo_request demo_checked del: One_nat_def)
qed

text \<open>The timeout \<open>math.huge\<close>.\<close>

abbreviation demo_forever :: "lval list" where "demo_forever \<equiv> [LNum LPlusInf, LTable 30]"

lemma demo_forever_accepted:
  "accepted_call doc_env 3 0 (demo demo_forever demo_entries b) 1 10 demo_entries LPlusInf demo_asked"
  by (rule demo_accepted_args) simp_all

text \<open>The kernel answers every \<open>ioctl\<close> with an error.\<close>

definition demo_deaf :: world where
  "demo_deaf = (demo demo_args demo_entries 0)\<lparr>w_kernel := (\<lambda>_. (-1, 0))\<rparr>"

lemma kernel_frame:
  fixes w :: world and k :: "int \<Rightarrow> int \<times> int"
  defines "w' \<equiv> w\<lparr>w_kernel := k\<rparr>"
  shows "check_entries E w' r es = check_entries E w r es" and "entry_ok w' = entry_ok w"
    and "request_ok w' r = request_ok w r"
proof -
  have ents: "the_entries w' = the_entries w" by (simp add: w'_def the_entries_def fun_eq_iff)
  have "request_buffered w' r = request_buffered w r"
    by (simp add: w'_def request_buffered_def cong: option.case_cong)
  then have "upstream_error w' r = upstream_error w r" by (intro ext) (simp only: upstream_error_def)
  moreover have "entry_socket E w' = entry_socket E w"
    by (simp add: entry_socket_def ents fun_eq_iff cong: lval.case_cong)
  moreover have "w_ups w' = w_ups w" by (simp add: w'_def)
  ultimately have "check_entry E w' r = check_entry E w r"
    by (intro ext) (simp only: check_entry_def)
  then show "check_entries E w' r es = check_entries E w r es"
    by (induction es) (simp_all only: check_entries.simps)
  show "entry_ok w' = entry_ok w" by (simp add: entry_ok_def ents fun_eq_iff) (simp add: w'_def)
  show "request_ok w' r = request_ok w r" by (simp add: request_ok_def w'_def)
qed

lemma demo_deaf_accepted:
  "accepted_call doc_env 3 0 demo_deaf 1 10 demo_entries (LFin 0) demo_asked"
proof -
  let ?w = "demo demo_args demo_entries 0"
  have call: "accepted_call doc_env 3 0 ?w 1 10 demo_entries (LFin 0) demo_asked"
    by (rule demo_accepted_args) simp_all
  have "in_request doc_env 0 demo_deaf 1 10"
    using demo_request[of demo_args demo_entries 0] unfolding in_request_def demo_deaf_def kernel_frame(3)
    by (simp add: doc_env_def)
  moreover have "w_stack demo_deaf = w_stack ?w" "table_at demo_deaf = table_at ?w"
    by (simp_all add: demo_deaf_def)
  ultimately show ?thesis
    using call unfolding accepted_call_def demo_deaf_def kernel_frame by simp
qed

lemma demo_deaf_facts:
  "open_sockets demo_deaf demo_asked" "\<exists>x \<in> set demo_asked. ioctl_fails demo_deaf (fst (snd x))"
  by (simp_all add: open_sockets_def ioctl_fails_def demo_deaf_def demo_asked_def) (simp_all add: demo_defs)

section \<open>Contexts in the middle of their life\<close>

text \<open>
  A context of two sockets as the scan leaves it, with bytes on the first connection; and the
  same request with a completion event before its content phase.
\<close>

definition demo_scanned :: ngx_lua_select_ctx where
  "demo_scanned = (zero_ctx 0)\<lparr>cx_count := 2, cx_ref := 3, cx_r := Some 1, cx_coctx := Some 10,
     cx_post_completion_ev := zero_event\<lparr>ev_data := Some 1\<rparr>,
     cx_socket := [zero_socket\<lparr>sk_connection := Some 17, sk_up := Some 5, sk_readwrite := 1\<rparr>,
                   zero_socket\<lparr>sk_connection := Some 18, sk_up := Some 6, sk_readwrite := 3\<rparr>]\<rparr>"

definition demo_polled :: world where
  "demo_polled = (demo [] [] 7)\<lparr>w_registry := [(3, LUserdata 40)], w_ctxs := [(40, demo_scanned)]\<rparr>"

lemma demo_polled_facts:
  "ctx_at demo_polled 40 = Some demo_scanned" "cx_count demo_scanned = length (cx_socket demo_scanned)"
  "conns_live demo_polled (cx_socket demo_scanned)"
  "\<forall>s \<in> set (cx_socket demo_scanned). poll_ok demo_polled s"
  "length (filter (bytes_waiting demo_polled) (cx_socket demo_scanned)) = 1"
  "map (sk_read_ready \<circ> poll_mark demo_polled) (cx_socket demo_scanned) = [True, False]"
  by (simp_all add: demo_polled_def demo_scanned_def ctx_at_def conns_live_def poll_ok_def
      bytes_waiting_def poll_mark_def socket_poll_def zero_socket_def demo_def demo_conn_def)

lemma demo_polled_stop:
  "1 \<le> length (cx_socket demo_scanned)" "cx_ref demo_scanned \<noteq> LUA_NOREF"
  "cx_ref demo_scanned \<in> fst ` set (w_registry demo_polled)"
  "\<forall>s \<in> set (take 1 (cx_socket demo_scanned)). stoppable demo_polled s"
  "w_conns demo_polled 17 = Some (demo_conn 4 False)"
  "(\<exists>s \<in> set (take 1 (cx_socket demo_scanned)). slot_conn demo_polled s = Some 17 \<and> wants_read s) = True"
  "(\<exists>s \<in> set (take 1 (cx_socket demo_scanned)). slot_conn demo_polled s = Some 17 \<and> wants_write s) = False"
  by (simp_all add: demo_polled_def demo_scanned_def LUA_NOREF_def stoppable_def slot_conn_def
      zero_socket_def wants_read_def wants_write_def sk_rw_def rw_has_def flag_defs)
    (simp_all add: demo_defs)

definition demo_early_sctx :: stream_lua_ctx where
  "demo_early_sctx = \<lparr>sc_cur_co_ctx = None, sc_entered_content_phase = False, sc_resume_handler = Fn_NULL\<rparr>"

definition demo_early_req :: lua_request where
  "demo_early_req = demo_req\<lparr>rq_ctx := (rq_ctx demo_req)(Mod_select := Some 40)\<rparr>"

definition demo_early :: world where
  "demo_early = demo_polled\<lparr>w_reqs := [1 \<mapsto> demo_early_req], w_sctxs := [9 \<mapsto> demo_early_sctx]\<rparr>"

lemma demo_early_facts:
  "event_at demo_early (Completion_of 40) = Some (cx_post_completion_ev demo_scanned)"
  "ev_data (cx_post_completion_ev demo_scanned) = Some 1" "selecting demo_early 1 40 demo_scanned"
  "cx_r demo_scanned = Some 1" "cx_coctx demo_scanned = Some 10"
  "w_coctxs demo_early 10 = Some \<lparr>co_co = 0, co_cleanup = Fn_NULL, co_data = None\<rparr>"
  "w_reqs demo_early 1 = Some demo_early_req" "rq_ctx demo_early_req Mod_stream_lua = Some 9"
  "w_sctxs demo_early 9 = Some demo_early_sctx" "\<not> sc_entered_content_phase demo_early_sctx"
proof -
  have at: "ctx_at demo_early 40 = Some demo_scanned"
    by (simp add: demo_early_def demo_polled_def ctx_at_def)
  then show "event_at demo_early (Completion_of 40) = Some (cx_post_completion_ev demo_scanned)" by simp
  show "selecting demo_early 1 40 demo_scanned"
    using at by (simp add: selecting_def) (simp add: demo_early_def demo_early_req_def)
qed (simp_all add: demo_early_def demo_polled_def demo_scanned_def demo_early_sctx_def
    demo_early_req_def demo_req_def demo_def)

section \<open>A UDP socket\<close>

definition demo_udp :: lua_table where "demo_udp = [(lua_int 1, LTable 27)]"

lemma demo_udp_reached:
  "reaches_entry doc_env 3 0 (demo demo_timed demo_udp b) 1 10 [] (lua_int 1, LTable 27) [] []"
  by (simp add: reaches_entry_def demo_request demo_udp_def wf_table_def
      lua_int_not_nil[THEN not_sym] del: One_nat_def)

lemma demo_udp_foreign: "foreign_entry doc_env (demo args es b) (lua_int 1, LTable 27)"
  by (simp add: foreign_entry_def entry_socket_def the_entries_def table_get_def)
    (simp add: demo_def)

section \<open>The sockets as a list and with modes\<close>

lemma demo_array_call:
  "array_call doc_env 3 0 (demo demo_timed (array_form 1 [25, 26]) b) 1 10 30 [25, 26]"
  by (auto simp: array_call_def wf_call_def demo_request demo_entry_ok wf_table_def
        lua_int_not_nil[THEN not_sym]
      simp del: One_nat_def)

lemma demo_modes:
  "mset [(LTable 26, LStr ''r''), (LTable 25, LStr ''r'')] = mset (mode_form [25, 26])"
  by (simp add: mode_form_def)

lemma demo_modes_request: "in_request doc_env 0 (put_table T es (demo args es' b)) 1 10"
  using demo_request[of args es' b] by (simp add: in_request_def request_ok_def) (simp add: doc_env_def)

section \<open>The same call again\<close>

text \<open>After a select, a new coroutine runs on the thread 0 with the same arguments.\<close>

definition demo_again :: "world \<Rightarrow> world" where
  "demo_again w =
     (let w0 = demo demo_timed demo_entries 0 in
      w\<lparr>w_stack := w_stack w0, w_sctxs := w_sctxs w0, w_coctxs := w_coctxs w0,
        w_kernel := w_kernel w0\<rparr>)"

lemma demo_again_simps [simp]:
  "w_stack (demo_again w) = w_stack (demo demo_timed demo_entries 0)"
  "w_sctxs (demo_again w) = w_sctxs (demo demo_timed demo_entries 0)"
  "w_coctxs (demo_again w) = w_coctxs (demo demo_timed demo_entries 0)"
  "w_kernel (demo_again w) = w_kernel (demo demo_timed demo_entries 0)"
  "w_ups (demo_again w) = w_ups w" "w_reqs (demo_again w) = w_reqs w"
  "w_conns (demo_again w) = w_conns w" "w_registry (demo_again w) = w_registry w"
  "table_at (demo_again w) = table_at w"
  by (simp_all add: demo_again_def Let_def)

lemma demo_again_facts:
  assumes over: "select_over (demo demo_timed demo_entries 0) 1 demo_asked w"
    and kept: "w_conns w = w_conns (demo demo_timed demo_entries 0)"
      "table_at w = table_at (demo demo_timed demo_entries 0)"
  shows "select_over (demo demo_timed demo_entries 0) 1 demo_asked (demo_again w)"
    and "tables_kept (demo demo_timed demo_entries 0) (demo_again w)"
    and "in_request doc_env 0 (demo_again w) 1 10"
    and "lua_at (w_stack (demo_again w) 0) 1 = LTable 30"
    and "table_at (demo_again w) 30 = Some demo_entries"
    and "parse_args (lua_str2number doc_env) (w_stack (demo_again w) 0) = Inr (LFin 5000)"
    and "can_wait (demo_again w) 10 (LFin 5000)" and "conns_ok (demo_again w)"
    and "\<not> (\<exists>x \<in> set demo_asked. readable (demo_again w) (fst (snd x)))"
proof -
  let ?w = "demo demo_timed demo_entries 0"
  show "select_over ?w 1 demo_asked (demo_again w)"
    using over by (simp add: select_over_def not_selecting_def read_handler_of_def request_read_handler_def)
  show "tables_kept ?w (demo_again w)" by (simp add: tables_kept_def kept)
  have "w_reqs ?w 1 = Some demo_req" by (simp add: demo_def)
  with over obtain q where "w_reqs w 1 = Some q" "rq_connection q = Some 8"
      "rq_ctx q Mod_stream_lua = Some 9"
    by (auto simp: select_over_def demo_req_def)
  then show "in_request doc_env 0 (demo_again w) 1 10"
    by (simp add: in_request_def request_ok_def kept) (simp add: demo_def doc_env_def)
  show "lua_at (w_stack (demo_again w) 0) 1 = LTable 30" by simp
  show "table_at (demo_again w) 30 = Some demo_entries" by (simp add: kept)
  show "parse_args (lua_str2number doc_env) (w_stack (demo_again w) 0) = Inr (LFin 5000)" by simp
  show "can_wait (demo_again w) 10 (LFin 5000)"
    using demo_can_wait[of demo_timed demo_entries 0] by (simp add: can_wait_def)
  have peer: "map_option up_peer_connection (w_ups w a) = map_option up_peer_connection (w_ups ?w a)" for a
  proof -
    have "map_option forget_handlers (w_ups w a) = map_option forget_handlers (w_ups ?w a)"
      using over by (simp add: select_over_def)
    from arg_cong[OF this, of "map_option up_peer_connection"] show ?thesis
      by (simp add: option.map_comp comp_def forget_handlers_def)
  qed
  show "conns_ok (demo_again w)"
    unfolding conns_ok_def
  proof (intro allI impI)
    fix a u b assume u: "w_ups (demo_again w) a = Some u" "up_peer_connection u = Some b"
    with peer[of a] obtain u0 where "w_ups ?w a = Some u0" "up_peer_connection u0 = Some b"
      by (cases "w_ups ?w a") simp_all
    then show "\<exists>conn. w_conns (demo_again w) b = Some conn \<and> 0 \<le> fst (w_kernel (demo_again w) (cn_fd conn))"
      using demo_conns[of demo_timed demo_entries 0] by (simp add: conns_ok_def kept)
  qed
  have "readable (demo_again w) a = readable ?w a" for a
    using peer[of a] by (cases "w_ups w a"; cases "w_ups ?w a") (simp_all add: readable_def kept cong: option.case_cong)
  then show "\<not> (\<exists>x \<in> set demo_asked. readable (demo_again w) (fst (snd x)))"
    using demo_idle by simp
qed

section \<open>Values to print\<close>

text \<open>
  A stack with the values \<open>s\<close> in a process whose globals (the table 0) hold the table 25 as \<open>t\<close> and
  whose loaded modules hold it as \<open>mod\<close>.
\<close>

definition demo_globals :: lua_table where
  "demo_globals = [(LStr ''package'', LTable 28), (LStr ''t'', LTable 25)]"

definition demo_values :: "lval list \<Rightarrow> world" where
  "demo_values s = (demo s [] 0)
     \<lparr>w_tables := [(0, demo_globals), (28, [(LStr ''loaded'', LTable 29)]),
        (29, [(LStr ''mod'', LTable 25)]), (25, [(lua_int 1, LUserdata 5)])]\<rparr>"

lemma demo_values_facts [simp]:
  "w_stack (demo_values s) 0 = s" "w_stack (demo_values s) 1 = []" "w_meta (demo_values s) a = None"
  "w_log (demo_values s) = []"
  by (simp_all add: demo_values_def demo_def)

lemma demo_values_libs:
  "package_loaded (demo_values s) 0 demo_globals [(LStr ''mod'', LTable 25)]"
  by (simp add: package_loaded_def demo_values_def table_at_def demo_globals_def table_get_def
      wf_table_def demo_def)

end
