(* ===== verification/Select_Module.thy ===== *)
theory Select_Module
  imports Select_Externals
begin

text \<open>
  How the module enters nginx and Lua (\<open>src/ngx_stream_lua_select_module.c\<close>, its end, and
  \<open>src/ngx_http_lua_select_module.c\<close>): the phases nginx calls and the loader that
  \<open>require "ngx.select"\<close> runs.
\<close>

definition ngx_stream_lua_select_init_code :: "env \<Rightarrow> thread \<Rightarrow> int cfun" where
  "ngx_stream_lua_select_init_code E L =
     mseq (act (lua_pushcfunction E L Fn_select)) (mret 1)"

definition ngx_stream_lua_select_init_preconfig :: "int cfun" where
  "ngx_stream_lua_select_init_preconfig = mret NGX_OK"

definition ngx_stream_lua_select_init_postconfig :: "env \<Rightarrow> int cfun" where
  "ngx_stream_lua_select_init_postconfig E =
     mbind (ngx_stream_lua_add_package_preload E ''ngx.select'' Fn_init_code) (\<lambda>rc.
     if rc \<noteq> NGX_OK then mret NGX_ERROR else mret NGX_OK)"

definition ngx_stream_lua_select_init_module :: "int cfun" where
  "ngx_stream_lua_select_init_module = mret NGX_OK"

definition ngx_stream_lua_select_init_worker :: "int cfun" where
  "ngx_stream_lua_select_init_worker = mret NGX_OK"

definition ngx_stream_lua_select_exit_worker :: "unit cfun" where
  "ngx_stream_lua_select_exit_worker = mret ()"

definition ngx_stream_lua_select_exit_master :: "unit cfun" where
  "ngx_stream_lua_select_exit_master = mret ()"

text \<open>The table of the module's hooks, as \<open>ngx_module_t\<close> and \<open>ngx_stream_module_t\<close> list them.\<close>

datatype module_phase =
  Preconfiguration | Postconfiguration | Init_module | Init_process | Exit_process | Exit_master

text \<open>The hooks of type \<open>ngx_int_t\<close> have a result, the \<open>void\<close> hooks have none.\<close>

definition hook_result :: "int cfun \<Rightarrow> int option cfun" where
  "hook_result f = mbind f (\<lambda>rc. mret (Some rc))"

definition hook_void :: "unit cfun \<Rightarrow> int option cfun" where
  "hook_void f = mseq f (mret None)"

fun stream_module_hook :: "env \<Rightarrow> module_phase \<Rightarrow> int option cfun" where
  "stream_module_hook E Preconfiguration = hook_result ngx_stream_lua_select_init_preconfig"
| "stream_module_hook E Postconfiguration = hook_result (ngx_stream_lua_select_init_postconfig E)"
| "stream_module_hook E Init_module = hook_result ngx_stream_lua_select_init_module"
| "stream_module_hook E Init_process = hook_result ngx_stream_lua_select_init_worker"
| "stream_module_hook E Exit_process = hook_void ngx_stream_lua_select_exit_worker"
| "stream_module_hook E Exit_master = hook_void ngx_stream_lua_select_exit_master"

section \<open>The HTTP module, which registers nothing\<close>

definition ngx_http_lua_select_init_preconfig :: "int cfun" where
  "ngx_http_lua_select_init_preconfig = mret NGX_OK"

definition ngx_http_lua_select_init_postconfig :: "int cfun" where
  "ngx_http_lua_select_init_postconfig = mret NGX_OK"

definition ngx_http_lua_select_init_module :: "int cfun" where
  "ngx_http_lua_select_init_module = mret NGX_OK"

definition ngx_http_lua_select_init_worker :: "int cfun" where
  "ngx_http_lua_select_init_worker = mret NGX_OK"

definition ngx_http_lua_select_exit_worker :: "unit cfun" where
  "ngx_http_lua_select_exit_worker = mret ()"

definition ngx_http_lua_select_exit_master :: "unit cfun" where
  "ngx_http_lua_select_exit_master = mret ()"

fun http_module_hook :: "module_phase \<Rightarrow> int option cfun" where
  "http_module_hook Preconfiguration = hook_result ngx_http_lua_select_init_preconfig"
| "http_module_hook Postconfiguration = hook_result ngx_http_lua_select_init_postconfig"
| "http_module_hook Init_module = hook_result ngx_http_lua_select_init_module"
| "http_module_hook Init_process = hook_result ngx_http_lua_select_init_worker"
| "http_module_hook Exit_process = hook_void ngx_http_lua_select_exit_worker"
| "http_module_hook Exit_master = hook_void ngx_http_lua_select_exit_master"

end
