(* ===== verification/Spec2Isabelle.thy ===== *)
theory Spec2Isabelle
  imports Select_Demo Select_Module
begin

text \<open>
  The nginx module \<open>ngx_lua_select_module\<close>: \<open>ngx.select\<close> for the cosockets of OpenResty's
  stream Lua module.  A Lua coroutine calls \<open>ngx.select({sockets}, timeout)\<close>; the module
  replaces the event handlers of the sockets by its own, yields the coroutine, and when a socket
  becomes ready or the timer fires, it restores the handlers and resumes the coroutine with a
  table of the ready sockets.

  \<^bold>\<open>The program and the theories.\<close>  Every C function is a definition of the same name; where a C
  function is long, its parts are definitions of their own, composed in the order of the source.

  \<^item> \<open>Select_Prelude\<close>: outcomes of C functions (a value, a raised Lua error, a yield, a fault),
    their sequencing, loops over index lists, fuel, and the contract of a heap of structs.
  \<^item> \<open>Select_State\<close> (\<open>src/ngx_lua_select.h\<close>): the module's structs as records, the fields of the
    structs of nginx, OpenResty and Lua that the module reads or writes, and the process state
    \<open>world\<close>: one heap per struct type, the Lua stacks, the Lua registry, the queue of posted events.
  \<^item> \<open>Select_Externals\<close>: the code the module calls but does not contain.  Each function is a field of
    the record \<open>env\<close>, an argument of every definition that uses it.  The locales \<open>lua_api\<close>,
    \<open>nginx_api\<close> and \<open>openresty_api\<close> hold the laws the module relies on, \<open>process_api\<close> all three.
    The instance \<open>doc_env\<close> satisfies them, and the witnesses run on it.
  \<^item> \<open>Select_Result\<close>, \<open>Select_Ready\<close> (\<open>src/ngx_lua_select.c\<close>): \<open>ngx_lua_select_push_result\<close>,
    \<open>ngx_lua_select_sockets_ready\<close> and \<open>ngx_lua_select_get_socket_type\<close>.
  \<^item> \<open>Select_Call\<close> (\<open>src/ngx_stream_lua_select_module.c\<close>): \<open>lua_select_module_select\<close>, with the
    specification \<open>check_entries\<close> of what a socket table asks for.  \<open>Select_Install\<close> and
    \<open>Select_Start\<close> hold its closed form: the state after the scan, after the poll, at the yield.
  \<^item> \<open>Select_Forms\<close>: calls whose socket tables are written in another form or order.
  \<^item> \<open>Select_Cleanup\<close>: \<open>select_fail_cleanup\<close>, \<open>ngx_stream_lua_select_ctx_cleanup_and_discard\<close>,
    \<open>ngx_stream_lua_select_cleanup\<close>.  \<open>Select_Fail\<close>: what the error exits leave behind.
  \<^item> \<open>Select_Events\<close>: the five event handlers, \<open>ngx_stream_lua_select_post_completion_handler\<close> and
    \<open>ngx_stream_lua_select_resume\<close>.  \<open>Select_Restore\<close>: why the way back restores the handlers.
  \<^item> \<open>Select_Outcomes\<close>: the outcome of a call, the two ways out of a wait.  \<open>Select_Held\<close>: the same two
    ways where other code has run in between.
  \<^item> \<open>Select_Loop\<close>: the event loop around a select that waits, as a step relation with an invariant,
    and as a refinement of a latch when its wakeups are logged.
  \<^item> \<open>Select_Debug\<close> (\<open>src/ngx_lua_select.c\<close>): the debug functions \<open>ngx_lua_select_luaS_dbgval\<close>,
    \<open>ngx_lua_select_luaS_printstack_named\<close> and \<open>ngx_lua_select_module_sigstop\<close>, with a record
    \<open>debug_env\<close> of what only they call, the locales \<open>debug_api\<close> and \<open>debug_tables\<close> for its laws, and
    its instance \<open>doc_denv\<close>.
  \<^item> \<open>Select_Module\<close>: the hooks of the two modules, the loader.
  \<^item> \<open>Select_Demo\<close>: concrete process states, on which the properties are instantiated.

  \<^bold>\<open>How the parts interact.\<close>  The context of a select (\<open>ngx_lua_select_ctx\<close>) is a Lua userdata kept
  alive by a registry reference, found again through the module context of the request
  (\<open>rq_ctx q Mod_select\<close>).  The call stores it there last.  The handlers find it there and queue its
  completion event; the completion handler and the coroutine's cleanup find it there and take it away.
  A function that looks for it when it is not there dereferences a null pointer, which is the fault
  \<open>Null_deref\<close>.

  \<^bold>\<open>What the properties show.\<close>  C1, C2: the outcome of a call, and the state it waits in.  C3, C4: the
  two ways out of the wait, and what they give back.  C5: the result table.  C6, C7, C17, C18: the
  error exits, and the registry references they lose.  C8 to C13: the event loop, over any
  interleaving of wakeups, the timer and other code of the process: its invariant, that no handler
  fails, that no wakeup is lost, what completion and cancellation do at any moment, and that a
  cancellation leaves a queued event behind.  C14 to C16: sockets for which there is no way back.  C19
  to C22: timeouts, termination, socket types.  C23, C24: modes on their way in and out.  C25 to C27:
  the poll, the error exit, the deferred completion.  C28: the two forms of a socket table that the
  README calls equivalent.  C29: sockets that are not TCP.  C30: one select after another.  C31 to
  C38: what the debug functions print, and where they write past their buffer, fail their assertion or
  misreport a value.  C39: a deferred completion does what a direct one does.

  \<^bold>\<open>Assumptions on the environment.\<close>  The laws of \<open>process_api\<close>; pointers that the code follows without a
  check are valid (\<open>wf_call\<close>, \<open>entry_ok\<close>: what a socket table has at index 1 is an upstream of a TCP
  socket if it is a userdata at all); open upstreams have connections (\<open>connected\<close>, \<open>open_sockets\<close>).
  While a select waits, other code may change registry, connections and handlers, but does not free
  what the select points to nor touch its context, its references and its suspended coroutine
  (\<open>untouched\<close>).  The two directions of the way back are proved for sockets that ask for reading (\<open>all_read\<close>) and occur once
  (\<open>distinct_sockets\<close>); C14 and C16 show what happens otherwise.

  \<^bold>\<open>Fuel.\<close>  The only loops whose end is not a count are those over \<open>lua_next\<close>: two in
  \<open>lua_select_module_select\<close>, two in \<open>ngx_lua_select_luaS_dbgval\<close>.  One unit of fuel per entry of the
  table and one more is enough (C21, C33), and for the call more changes nothing (C21).

  \<^bold>\<open>Not modelled.\<close>  The C memory below the structs (padding, lifetime of a collected userdata), the text
  that \<open>luaL_error\<close> adds to a message, debug logging; what the Lua thread does once resumed
  (\<open>ngx_stream_lua_run_thread\<close> is a parameter); what the static buffer of the debug printer holds
  between two calls; the variant of the structs for the HTTP module, whose code is empty; the build
  files, scripts and tests.
\<close>

section \<open>The call\<close>

text \<open>
  C1.  The outcome of \<open>ngx.select\<close> as a function of its arguments and of the sockets: bad
  arguments and the first bad entry in traversal order raise their error; when bytes already wait
  on a socket, the early return dereferences the null pointer that the module context is before
  the call has stored one; otherwise the coroutine yields.  There is no other outcome.
\<close>

theorem select_outcome:
  assumes "process_api E" and "wf_call E fuel L w r co es" and "conns_ok w"
    and "parse_args (lua_str2number E) (w_stack w L) = Inr timeout"
    and "can_wait w co timeout" and "not_selecting w r"
  shows "fst (lua_select_module_select E fuel L w) = call_outcome E w r es (w_stack w L)"
  by (rule process_api.select_outcome_run[OF assms])

theorem select_outcome_witness:
  "fst (lua_select_module_select doc_env 3 0 (demo demo_timed demo_entries 0)) = Yield 0 \<and>
   fst (lua_select_module_select doc_env 3 0 (demo demo_timed demo_entries 7)) = Fault Null_deref"
proof -
  have "fst (lua_select_module_select doc_env 3 0 (demo demo_timed demo_entries b))
      = call_outcome doc_env (demo demo_timed demo_entries b) 1 demo_entries demo_timed" for b
    using select_outcome[OF doc_process.process_api_axioms demo_call demo_conns _ demo_can_wait
        demo_selecting, of b] by simp
  then show ?thesis
    by (simp add: call_outcome_def demo_checked demo_asked_def demo_readable del: One_nat_def)
qed

text \<open>
  C2.  The state at the yield.  The request has a new context, with one slot per entry and a live
  registry reference to every socket and to the context itself; the handlers of an upstream are
  the module's own exactly for the directions that an entry asks for; the request's read handler
  is the module's own exactly if the client's socket is to be read; the timer runs exactly if the
  timeout is positive; the coroutine's cleanup is armed; nothing is queued.
\<close>

theorem select_waits:
  assumes E: "process_api E" and call: "accepted_call E fuel L w r co es timeout xs"
    and con: "connected w xs" and idle: "\<not> (\<exists>x \<in> set xs. readable w (fst (snd x)))"
    and wait: "can_wait w co timeout"
  shows "\<exists>w' p c x. lua_select_module_select E fuel L w = (Yield 0, w') \<and>
    ctx_at w p = None \<and> selecting w' r p c \<and>
    cx_count c = length xs \<and> length (cx_socket c) = length xs \<and>
    map (\<lambda>s. map_of (w_registry w') (sk_lua_socket_ref s)) (cx_socket c) = map (Some \<circ> snd \<circ> snd) xs \<and>
    map_of (w_registry w') (cx_ref c) = Some (LUserdata p) \<and>
    (\<forall>a. read_handler_of w' a = map_option (\<lambda>u.
       if \<exists>x \<in> set xs. entry_of w r a x \<and> rw_has (fst x) NGX_LUA_SELECT_READ
       then Fn_read_upstream_handler else up_read_event_handler u) (w_ups w a)) \<and>
    (\<forall>a. write_handler_of w' a = map_option (\<lambda>u.
       if \<exists>x \<in> set xs. entry_of w r a x \<and> rw_has (fst x) NGX_LUA_SELECT_WRITE
       then Fn_write_upstream_handler else up_write_event_handler u) (w_ups w a)) \<and>
    request_read_handler w' r = map_option (\<lambda>q.
       if \<exists>x \<in> set xs. entry_down w r x \<and> rw_has (fst x) NGX_LUA_SELECT_READ
       then Fn_read_request_handler else rq_read_event_handler q) (w_reqs w r) \<and>
    ev_timer_set (cx_timer c) = lua_number_pos timeout \<and> w_posted w' = w_posted w \<and>
    w_coctxs w' co = Some x \<and> co_cleanup x = Fn_cleanup \<and> co_data x = Some r"
proof -
  from process_api.select_idle_yields[OF E call con idle wait] obtain p c0 cref refs
    where new: "ctx_at w p = None" and len: "length refs = length xs" "length (cx_socket c0) = length xs"
      and fresh: "fresh_refs (cref # refs) (w_registry w)"
      and run: "lua_select_module_select E fuel L w
        = (Yield 0, waiting r co timeout xs p c0 cref refs w)"
    by blast
  obtain q where q: "w_reqs w r = Some q"
    using call by (auto simp: accepted_call_def in_request_def)
  let ?w' = "waiting r co timeout xs p c0 cref refs w"
  let ?c = "waiting_ctx r co timeout xs c0 cref refs w"
  note heaps = waiting_heaps[OF q len] and ctx = waiting_ctx_simps[OF len]
  have refs: "map sk_lua_socket_ref (cx_socket ?c) = refs"
    by (simp add: ctx map_installed_slots waiting_slots_def map_scan_slots_ref[OF len])
  have live: "map (\<lambda>s. map_of (w_registry ?w') (sk_lua_socket_ref s)) (cx_socket ?c)
      = map (Some \<circ> snd \<circ> snd) xs"
    by (rule waiting_refs_map[OF len fresh refs])
  have self: "map_of (w_registry ?w') cref = Some (LUserdata p)"
    by (simp add: waiting_self_ref[OF len(1) fresh])
  have rd: "read_handler_of ?w' a = map_option (\<lambda>u.
       if \<exists>x \<in> set xs. entry_of w r a x \<and> rw_has (fst x) NGX_LUA_SELECT_READ
       then Fn_read_upstream_handler else up_read_event_handler u) (w_ups w a)" for a
    using waiting_handlers(1)[OF q len, of a]
    by (cases "w_ups w a") (simp_all add: read_handler_of_def heaps)
  have wr: "write_handler_of ?w' a = map_option (\<lambda>u.
       if \<exists>x \<in> set xs. entry_of w r a x \<and> rw_has (fst x) NGX_LUA_SELECT_WRITE
       then Fn_write_upstream_handler else up_write_event_handler u) (w_ups w a)" for a
    using waiting_handlers(2)[OF q len, of a]
    by (cases "w_ups w a") (simp_all add: write_handler_of_def heaps)
  have sel: "selecting ?w' r p ?c" by (simp add: selecting_def heaps)
  show ?thesis
    using new run sel live self rd wr len q
    by (intro exI[of _ ?w'] exI[of _ p] exI[of _ ?c]
        exI[of _ "(the (w_coctxs w co))\<lparr>co_cleanup := Fn_cleanup, co_data := Some r\<rparr>"])
      (simp add: ctx heaps waiting_request_handler waiting_timer_set)
qed

theorem select_waits_witness:
  "\<exists>w' p c. lua_select_module_select doc_env 3 0 (demo demo_timed demo_entries 0) = (Yield 0, w') \<and>
    selecting w' 1 p c \<and> cx_count c = 2 \<and> ev_timer_set (cx_timer c) \<and>
    read_handler_of w' 5 = Some Fn_read_upstream_handler \<and>
    write_handler_of w' 5 = Some (Fn_foreign 2)"
proof -
  have pos: "lua_number_pos (LFin 5000)" by simp
  have r5: "\<exists>x \<in> set demo_asked. entry_of (demo demo_timed demo_entries 0) 1 5 x \<and>
      rw_has (fst x) NGX_LUA_SELECT_READ"
    by (simp add: demo_asked_def entry_of_def entry_down_def flag_defs) (simp add: demo_defs)
  have w5: "\<not> (\<exists>x \<in> set demo_asked. entry_of (demo demo_timed demo_entries 0) 1 5 x \<and>
      rw_has (fst x) NGX_LUA_SELECT_WRITE)"
    by (simp add: demo_asked_def entry_of_def flag_defs)
  have up: "up_write_event_handler (demo_up 17) = Fn_foreign 2" by (simp add: demo_up_def)
  have two: "length demo_asked = 2" by (simp add: demo_asked_def)
  from select_waits[OF doc_process.process_api_axioms demo_accepted demo_connected demo_idle
      demo_can_wait] obtain w' p c where
    run: "lua_select_module_select doc_env 3 0 (demo demo_timed demo_entries 0) = (Yield 0, w')"
      "selecting w' 1 p c" "cx_count c = length demo_asked"
      "ev_timer_set (cx_timer c) = lua_number_pos (LFin 5000)"
    and rd: "read_handler_of w' 5 = map_option (\<lambda>u.
       if \<exists>x \<in> set demo_asked. entry_of (demo demo_timed demo_entries 0) 1 5 x \<and>
          rw_has (fst x) NGX_LUA_SELECT_READ
       then Fn_read_upstream_handler else up_read_event_handler u)
       (w_ups (demo demo_timed demo_entries 0) 5)"
    and wr: "write_handler_of w' 5 = map_option (\<lambda>u.
       if \<exists>x \<in> set demo_asked. entry_of (demo demo_timed demo_entries 0) 1 5 x \<and>
          rw_has (fst x) NGX_LUA_SELECT_WRITE
       then Fn_write_upstream_handler else up_write_event_handler u)
       (w_ups (demo demo_timed demo_entries 0) 5)"
    by blast
  show ?thesis
    using run rd wr unfolding if_P[OF r5] if_not_P[OF w5]
    by (intro exI[of _ w'] exI[of _ p] exI[of _ c]) (simp add: up two pos)
qed

section \<open>The completion\<close>

text \<open>
  C3.  A select that waits is completed by its completion event, whatever became ready and
  whether or not its timer fired: the handler runs \<open>ngx_stream_lua_select_resume\<close> as far as
  the resumption of the coroutine, which is given one table whose content is the map that the
  README promises, over the entries that are ready in a way they asked for, or \<open>nil, "timeout"\<close>
  when none is and the timer fired; and everything the call took is given back: the read
  handlers, the request's read handler, the registry references and the module context.
\<close>

theorem completion_resumes:
  assumes E: "process_api E" and call: "accepted_call E fuel L w r co es timeout xs"
    and con: "connected w xs" and idle: "\<not> (\<exists>x \<in> set xs. readable w (fst (snd x)))"
    and wait: "can_wait w co timeout" and content: "in_content w r sa"
    and cox: "w_coctxs w co = Some cox"
    and rd: "all_read w r xs" and dist: "distinct_sockets w r xs"
  shows "\<exists>w' p. lua_select_module_select E fuel L w = (Yield 0, w') \<and> w_conns w' = w_conns w \<and>
    (\<forall>f timedout. \<exists>vm a t w3.
      (let w2 = after_wait f timedout p w';
           rs = ready_entries w w2 xs;
           vals = result_values a timedout rs
       in ngx_stream_lua_select_post_completion_handler E (Completion_of p) w2
            = mseq (resume_thread E vm (Some r) (Some sa) (int (length vals))) (mret ()) w3 \<and>
          take (length vals) (w_stack w3 (co_co cox)) = vals \<and>
          table_at w3 a = Some t \<and> wf_table t \<and> map_of t = result_map 0 Map.empty rs \<and>
          select_over w r xs w3))"
proof -
  from process_api.wait_to_resume[OF E call con idle wait content cox] obtain w' p c0 cref refs
    where run: "lua_select_module_select E fuel L w = (Yield 0, w')"
      and w': "w' = waiting r co timeout xs p c0 cref refs w"
      and len: "length refs = length xs" "length (cx_socket c0) = length xs"
      and fresh: "fresh_refs (cref # refs) (w_registry w)"
      and later: "\<And>f tmo. \<exists>c2 w2 x2.
      ngx_stream_lua_select_post_completion_handler E (Completion_of p) (after_wait f tmo p w')
        = mseq (ngx_stream_lua_select_resume E (Some r)) (mret ()) w2 \<and>
      still_waiting p (waiting_ctx r co timeout xs c0 cref refs w) w' c2 w2 \<and>
      resumable w2 r p c2 sa co x2 \<and> co_co x2 = co_co cox \<and>
      ev_timedout (cx_timer c2) = tmo \<and> w_conns w2 = w_conns (after_wait f tmo p w')"
    by blast
  obtain q where q: "w_reqs w r = Some q" using content by (auto simp: in_content_def)
  have "\<exists>vm a t w3.
      (let w2 = after_wait f tmo p w'; rs = ready_entries w w2 xs; vals = result_values a tmo rs
       in ngx_stream_lua_select_post_completion_handler E (Completion_of p) w2
            = mseq (resume_thread E vm (Some r) (Some sa) (int (length vals))) (mret ()) w3 \<and>
          take (length vals) (w_stack w3 (co_co cox)) = vals \<and>
          table_at w3 a = Some t \<and> wf_table t \<and> map_of t = result_map 0 Map.empty rs \<and>
          select_over w r xs w3)" for f tmo
  proof -
    obtain c2 w2 x2 where handler:
        "ngx_stream_lua_select_post_completion_handler E (Completion_of p) (after_wait f tmo p w')
          = mseq (ngx_stream_lua_select_resume E (Some r)) (mret ()) w2"
      and sw: "still_waiting p (waiting_ctx r co timeout xs c0 cref refs w)
          (waiting r co timeout xs p c0 cref refs w) c2 w2"
      and res: "resumable w2 r p c2 sa co x2" and x2: "co_co x2 = co_co cox"
      and tmo: "ev_timedout (cx_timer c2) = tmo"
      and conns: "w_conns w2 = w_conns (after_wait f tmo p w')"
      using later w' by blast
    have same: "ready_entries w w2 xs = ready_entries w (after_wait f tmo p w') xs"
      by (rule ready_entries_conns[OF conns])
    note resumed = process_api.completion_run[OF E q len fresh rd dist sw res]
    show ?thesis
      using resumed handler unfolding same x2 tmo Let_def by (metis mseq_cong_at)
  qed
  moreover have "w_conns w' = w_conns w" by (simp add: w')
  ultimately show ?thesis using run by blast
qed

theorem completion_resumes_witness:
  "\<exists>w' p vm a t w3.
    lua_select_module_select doc_env 3 0 (demo demo_timed demo_entries 0) = (Yield 0, w') \<and>
    ngx_stream_lua_select_post_completion_handler doc_env (Completion_of p)
        (after_wait demo_arrival False p w')
      = mseq (resume_thread doc_env vm (Some 1) (Some 9) 1) (mret ()) w3 \<and>
    take 1 (w_stack w3 0) = [LTable a] \<and> table_at w3 a = Some t \<and>
    map_of t = [LTable 25 \<mapsto> LStr ''r'', lua_int 1 \<mapsto> LTable 25] \<and>
    select_over (demo demo_timed demo_entries 0) 1 demo_asked w3"
proof -
  let ?w = "demo demo_timed demo_entries 0"
  from completion_resumes[OF doc_process.process_api_axioms demo_accepted demo_connected demo_idle
      demo_can_wait demo_in_content demo_coctx demo_all_read demo_distinct]
  obtain w' p where run: "lua_select_module_select doc_env 3 0 ?w = (Yield 0, w')"
    and conns: "w_conns w' = w_conns ?w"
    and later: "\<And>f timedout. \<exists>vm a t w3.
      (let w2 = after_wait f timedout p w'; rs = ready_entries ?w w2 demo_asked;
           vals = result_values a timedout rs
       in ngx_stream_lua_select_post_completion_handler doc_env (Completion_of p) w2
            = mseq (resume_thread doc_env vm (Some 1) (Some 9) (int (length vals))) (mret ()) w3 \<and>
          take (length vals) (w_stack w3 0) = vals \<and>
          table_at w3 a = Some t \<and> wf_table t \<and> map_of t = result_map 0 Map.empty rs \<and>
          select_over ?w 1 demo_asked w3)"
    by auto
  have rs: "ready_entries ?w (after_wait demo_arrival False p w') demo_asked = [(LTable 25, ''r'')]"
    by (rule demo_arrived[OF conns])
  from later[of demo_arrival False] obtain vm a t w3 where
    "ngx_stream_lua_select_post_completion_handler doc_env (Completion_of p)
        (after_wait demo_arrival False p w')
      = mseq (resume_thread doc_env vm (Some 1) (Some 9) 1) (mret ()) w3"
    "take 1 (w_stack w3 0) = [LTable a]" "table_at w3 a = Some t"
    "map_of t = result_map 0 Map.empty [(LTable 25, ''r'')]" "select_over ?w 1 demo_asked w3"
    unfolding Let_def rs by (auto simp: result_values_def)
  with run show ?thesis by (intro exI conjI) auto
qed

section \<open>The cancellation\<close>

text \<open>
  C4.  A coroutine that is killed while it waits runs \<open>ngx_stream_lua_select_cleanup\<close>, which
  gives everything back: the registry is what it was before the call, as are all read handlers,
  and the request has no select any more; tables, connections and stacks are not touched.
\<close>

theorem cancel_restores:
  assumes E: "process_api E" and call: "accepted_call E fuel L w r co es timeout xs"
    and con: "connected w xs" and idle: "\<not> (\<exists>x \<in> set xs. readable w (fst (snd x)))"
    and wait: "can_wait w co timeout" and rd: "all_read w r xs" and dist: "distinct_sockets w r xs"
  shows "\<exists>w' p. lua_select_module_select E fuel L w = (Yield 0, w') \<and>
    (\<forall>f timedout. \<exists>w3.
      ngx_stream_lua_select_cleanup E (Some co) (after_wait f timedout p w') = (Val (), w3) \<and>
      select_over w r xs w3 \<and> w_conns w3 = (\<lambda>b. map_option (f b) (w_conns w b)) \<and>
      table_at w3 = table_at w \<and> w_stack w3 = w_stack w')"
  by (rule process_api.cancel_over[OF assms])

theorem cancel_restores_witness:
  "\<exists>w' p w3. lua_select_module_select doc_env 3 0 (demo demo_timed demo_entries 0) = (Yield 0, w') \<and>
    ngx_stream_lua_select_cleanup doc_env (Some 10) (after_wait demo_arrival True p w') = (Val (), w3) \<and>
    not_selecting w3 1 \<and> w_registry w3 = [] \<and> read_handler_of w3 5 = Some (Fn_foreign 1)"
proof -
  let ?w = "demo demo_timed demo_entries 0"
  from cancel_restores[OF doc_process.process_api_axioms demo_accepted demo_connected demo_idle
      demo_can_wait demo_all_read demo_distinct]
  obtain w' p w3 where "lua_select_module_select doc_env 3 0 ?w = (Yield 0, w')"
    "ngx_stream_lua_select_cleanup doc_env (Some 10) (after_wait demo_arrival True p w') = (Val (), w3)"
    "select_over ?w 1 demo_asked w3" by blast
  moreover have "read_handler_of ?w 5 = Some (Fn_foreign 1)"
    by (simp add: read_handler_of_def) (simp add: demo_up_def)
  ultimately show ?thesis
    by (intro exI[of _ w'] exI[of _ p] exI[of _ w3])
      (simp add: select_over_def del: One_nat_def)
qed

section \<open>The result table\<close>

text \<open>
  C5.  What \<open>ngx_lua_select_push_result\<close> pushes: \<open>nil, "timeout"\<close> when no socket is
  ready and the timer fired, one new table otherwise, and nothing else changes.  The table has
  the ready sockets at 1, 2, ... in the order of the context, the mode \<open>"r"\<close>, \<open>"w"\<close> or
  \<open>"rw"\<close> under each of them, and no other key.
\<close>

theorem push_result_builds:
  assumes E: "lua_api E" and c: "ctx_at w p = Some c" "cx_count c = length (cx_socket c)"
    and live: "refs_live (w_registry w) (cx_socket c)"
  shows "\<exists>a t w'.
    (let rs = ready_list (w_registry w) (cx_socket c);
         vals = result_values a (ev_timedout (cx_timer c)) rs in
     ngx_lua_select_push_result E L (Some p) w = (Val (int (length vals)), w') \<and>
     w_stack w' = (w_stack w)(L := vals @ w_stack w L) \<and> ctx_at w' = ctx_at w \<and>
     w_registry w' = w_registry w \<and> w_ups w' = w_ups w \<and> w_reqs w' = w_reqs w \<and>
     table_at w a = None \<and> table_at w' a = Some t \<and> wf_table t \<and>
     (\<forall>k. map_of t (lua_int k) =
        (if 0 < k \<and> k \<le> int (length rs) then Some (fst (rs ! nat (k - 1))) else None)) \<and>
     (\<forall>b. map_of t (LTable b) = map_option LStr (map_of (rev rs) (LTable b))) \<and>
     fst ` set t \<subseteq> LTable ` UNIV \<union> lua_int ` {1..int (length rs)})"
proof -
  let ?rs = "ready_list (w_registry w) (cx_socket c)"
  from lua_api.push_result_run[OF E c live, of L] obtain a t where
    new: "table_at w a = None" and t: "wf_table t" "map_of t = result_map 0 Map.empty ?rs"
    and run: "ngx_lua_select_push_result E L (Some p) w =
      (let w' = put_table a t (w\<lparr>w_meta := (w_meta w)(a := None)\<rparr>) in
       if ?rs = [] \<and> ev_timedout (cx_timer c)
       then (Val 2, set_stack L (LStr ''timeout'' # LNil # w_stack w L) w')
       else (Val 1, set_stack L (LTable a # w_stack w L) w'))"
    by blast
  note tables = ready_list_tables[OF live]
  have num: "map_of t (lua_int k) =
      (if 0 < k \<and> k \<le> int (length ?rs) then Some (fst (?rs ! nat (k - 1))) else None)" for k
    using result_map_number[OF tables, of 0 Map.empty k] by (simp add: t(2))
  have sock: "map_of t (LTable b) = map_option LStr (map_of (rev ?rs) (LTable b))" for b
    by (simp add: t(2) result_map_socket split: option.split)
  have keys: "fst ` set t \<subseteq> LTable ` UNIV \<union> lua_int ` {1..int (length ?rs)}"
    by (rule result_keys[OF tables t(2)])
  show ?thesis
    by (rule exI[of _ a], rule exI[of _ t], rule exI[of _
        "set_stack L (result_values a (ev_timedout (cx_timer c)) ?rs @ w_stack w L)
          (put_table a t (w\<lparr>w_meta := (w_meta w)(a := None)\<rparr>))"])
      (use new t(1) num sock keys run in \<open>simp add: Let_def result_values_def\<close>)
qed

theorem push_result_builds_witness:
  "\<exists>a t w'. ngx_lua_select_push_result doc_env 0 (Some 40) demo_result = (Val 1, w') \<and>
    w_stack w' 0 = [LTable a] \<and> table_at w' a = Some t \<and>
    map_of t (lua_int 1) = Some (LTable 25) \<and> map_of t (lua_int 2) = Some (LTable 26) \<and>
    map_of t (LTable 26) = Some (LStr ''w'') \<and> map_of t (lua_int 3) = None"
proof -
  have stack: "w_stack demo_result 0 = []" by (simp add: demo_result_def)
  from push_result_builds[OF doc_lua.lua_api_axioms demo_result_facts(1-3), of 0]
  obtain a t w' where "ngx_lua_select_push_result doc_env 0 (Some 40) demo_result
      = (Val (int (length (result_values a (ev_timedout (cx_timer demo_done))
          [(LTable 25, ''r''), (LTable 26, ''w'')]))), w')"
    and "w_stack w' = (w_stack demo_result)(0 := result_values a (ev_timedout (cx_timer demo_done))
          [(LTable 25, ''r''), (LTable 26, ''w'')] @ w_stack demo_result 0)"
    and "table_at w' a = Some t"
    and num: "\<And>k. map_of t (lua_int k) = (if 0 < k \<and> k \<le> int (length [(LTable 25, ''r''), (LTable 26, ''w'')])
        then Some (fst ([(LTable 25, ''r''), (LTable 26, ''w'')] ! nat (k - 1))) else None)"
    and sock: "\<And>b. map_of t (LTable b)
        = map_option LStr (map_of (rev [(LTable 25, ''r''), (LTable 26, ''w'')]) (LTable b))"
    unfolding Let_def demo_result_facts(4) by blast
  moreover have "map_of t (lua_int 1) = Some (LTable 25)" "map_of t (lua_int 2) = Some (LTable 26)"
    "map_of t (lua_int 3) = None" "map_of t (LTable 26) = Some (LStr ''w'')"
    by (simp_all add: num sock)
  ultimately show ?thesis
    by (intro exI[of _ a] exI[of _ t] exI[of _ w']) (simp add: result_values_def stack)
qed

section \<open>The error exit\<close>

text \<open>
  C6.  The first bad entry raises its error, and the error exit leaves no trace in the handlers:
  every upstream, the request and the coroutine are exactly what they were; no event is queued,
  and the only change of a connection is that pending events of sockets accepted before the bad
  entry are deleted.
\<close>

theorem bad_entry_raises:
  assumes E: "process_api E" and call: "rejected_call E fuel L w r co good e rest xs msg"
    and con: "connected w xs"
  shows "\<exists>w' ss. lua_select_module_select E fuel L w = (Raise (Arg_error 1 msg), w') \<and>
    w_ups w' = w_ups w \<and> w_reqs w' = w_reqs w \<and> w_coctxs w' = w_coctxs w \<and>
    w_sctxs w' = w_sctxs w \<and> w_posted w' = w_posted w \<and>
    length ss = length xs \<and> w_conns w' = w_conns (fail_all ss w)"
proof -
  from process_api.select_bad_entry[OF E call con] obtain p c st cref refs ss
    where len: "length refs = length xs" "length xs \<le> length ss"
      and tk: "take (length xs) (cx_socket c) = scan_slots w r xs refs ss"
      and run: "lua_select_module_select E fuel L w = (Raise (Arg_error 1 msg),
       failed p c (length xs) (set_stack L st (scanned p c xs refs cref w)))"
    by blast
  let ?w0 = "put_ctx p (c\<lparr>cx_ref := LUA_NOREF\<rparr>) ((set_stack L st (scanned p c xs refs cref w))
    \<lparr>w_registry := AList.delete (cx_ref c) (w_registry (set_stack L st (scanned p c xs refs cref w)))\<rparr>)"
  have "w_conns (fail_all (scan_slots w r xs refs ss) ?w0) = w_conns (fail_all (scan_slots w r xs refs ss) w)"
    by (rule fail_all_conns_same) (simp_all add: scanned_def)
  then show ?thesis
    using run len
    by (intro exI[of _ "failed p c (length xs) (set_stack L st (scanned p c xs refs cref w))"]
        exI[of _ "scan_slots w r xs refs ss"]) (simp add: failed_def tk, simp add: scanned_def)
qed

theorem bad_entry_raises_witness:
  "\<exists>w'. lua_select_module_select doc_env 3 0 (demo demo_args demo_bad 0)
      = (Raise (Arg_error 1 msg_bad_mode), w') \<and> w_ups w' = w_ups (demo demo_args demo_bad 0)"
  using bad_entry_raises[OF doc_process.process_api_axioms demo_rejected demo_bad_connected, of 0]
  by blast

text \<open>
  C7.  What the error exit does leave behind: the registry keeps one reference to every socket
  that was accepted before the bad entry.  Nothing holds their numbers any more, so these sockets
  are never collected; each failing call adds to them.
\<close>

theorem bad_entry_leaks:
  assumes E: "process_api E" and call: "rejected_call E fuel L w r co good e rest xs msg"
    and con: "connected w xs"
  shows "\<exists>w' refs. lua_select_module_select E fuel L w = (Raise (Arg_error 1 msg), w') \<and>
    length refs = length good \<and> fresh_refs refs (w_registry w) \<and>
    w_registry w' = rev (zip refs (map (snd \<circ> snd) xs)) @ w_registry w"
proof -
  from process_api.select_bad_entry[OF E call con] obtain p c st cref refs
    where len: "length refs = length xs" and fresh: "fresh_refs (cref # refs) (w_registry w)"
      and c: "cx_ref c = cref"
      and run: "lua_select_module_select E fuel L w = (Raise (Arg_error 1 msg),
       failed p c (length xs) (set_stack L st (scanned p c xs refs cref w)))"
    by blast
  have "length xs = length good"
    using call check_entries_length by (auto simp: rejected_call_def)
  then show ?thesis
    using run len fresh c
    by (intro exI[of _ "failed p c (length xs) (set_stack L st (scanned p c xs refs cref w))"]
        exI[of _ refs]) (simp add: failed_def delete_cref, simp add: fresh_refs_def scan_refs_def)
qed

theorem bad_entry_leaks_witness:
  "\<exists>w' n. lua_select_module_select doc_env 3 0 (demo demo_args demo_bad 0)
      = (Raise (Arg_error 1 msg_bad_mode), w') \<and> w_registry w' = [(n, LTable 25)]"
proof -
  from bad_entry_leaks[OF doc_process.process_api_axioms demo_rejected demo_bad_connected, of 0]
  obtain w' refs where "lua_select_module_select doc_env 3 0 (demo demo_args demo_bad 0)
      = (Raise (Arg_error 1 msg_bad_mode), w')" "length refs = 1"
    "w_registry w' = rev (zip refs [LTable 25])"
    by auto
  then show ?thesis by (cases refs) auto
qed

section \<open>The event loop\<close>

text \<open>
  C8.  The invariant of the event loop, over every run from the yield and the log \<open>ks\<close> of the wakeups
  in it: the select is still in progress with the slots it had; the completion event is posted
  exactly if there was a wakeup, and it is in the queue once if it is posted and not at all
  otherwise; the context says that it timed out exactly if the timer has fired; and the timer, which
  fires once at most, still runs exactly if it was started and has not fired.
\<close>

theorem loop_invariant:
  assumes E: "process_api E" and call: "accepted_call E fuel L w r co es timeout xs"
    and con: "connected w xs" and idle: "\<not> (\<exists>x \<in> set xs. readable w (fst (snd x)))"
    and wait: "can_wait w co timeout" and queue: "queue_ok w"
    and yield: "lua_select_module_select E fuel L w = (Yield 0, w')" and sel: "selecting w' r p c"
    and run: "logged_run E r p sa co ([], w') (ks, w2)"
  shows "\<exists>c2. selecting w2 r p c2 \<and> cx_socket c2 = cx_socket c \<and>
    (ev_posted (cx_post_completion_ev c2) \<longleftrightarrow> ks \<noteq> []) \<and> queued_once w2 p c2 \<and>
    (ev_timedout (cx_timer c2) \<longleftrightarrow> Timeout \<in> set ks) \<and>
    (ev_timer_set (cx_timer c2) \<longleftrightarrow> lua_number_pos timeout \<and> Timeout \<notin> set ks) \<and>
    count_list ks Timeout \<le> 1"
proof -
  note log = process_api.yielded_logged[OF E call con idle wait queue yield sel run]
  from log(1) obtain c2 where c2: "ctx_at w2 p = Some c2" "held r p c w' c2 w2" "selecting w2 r p c2"
    "queued_once w2 p c2" by (rule wait_invE)
  moreover have "ev_posted (cx_post_completion_ev c2) \<longleftrightarrow> ks \<noteq> []"
    using latch_state[OF log(3)] c2(4) by (auto simp: latched_count queued_once_def)
  ultimately show ?thesis
    using log(2) held_ctx_simps(2)[OF c2(2)]
    by (intro exI[of _ c2]) (auto simp: timer_log_def of_bool_def split: if_splits)
qed

theorem loop_invariant_witness:
  "\<exists>w' p c w2 c2. lua_select_module_select doc_env 3 0 (demo demo_timed demo_entries 0) = (Yield 0, w') \<and>
    logged_run doc_env 1 p 9 10 ([], w') ([Upstream_read 5], w2) \<and> selecting w2 1 p c2 \<and>
    ev_posted (cx_post_completion_ev c2) \<and> ev_timer_set (cx_timer c2)"
proof -
  from demo_loop obtain w' p c w2
    where demo: "lua_select_module_select doc_env 3 0 (demo demo_timed demo_entries 0) = (Yield 0, w')"
      "selecting w' 1 p c" "logged_run doc_env 1 p 9 10 ([], w') ([Upstream_read 5], w2)" by blast
  from loop_invariant[OF doc_process.process_api_axioms demo_accepted demo_connected demo_idle
      demo_can_wait demo_queue demo(1-3)]
  obtain c2 where "selecting w2 1 p c2" "ev_posted (cx_post_completion_ev c2)"
    "ev_timer_set (cx_timer c2)" by auto
  with demo(1,3) show ?thesis by blast
qed

text \<open>
  C9.  No handler of the module fails while the select waits: at every state of the loop, the
  handler of every socket that can call it and that of the timer return normally, and the
  completion event is in the queue once, whether or not another handler has queued it before.
\<close>

theorem wakeups_handled:
  assumes E: "process_api E" and call: "accepted_call E fuel L w r co es timeout xs"
    and con: "connected w xs" and idle: "\<not> (\<exists>x \<in> set xs. readable w (fst (snd x)))"
    and wait: "can_wait w co timeout" and queue: "queue_ok w"
    and yield: "lua_select_module_select E fuel L w = (Yield 0, w')" and sel: "selecting w' r p c"
    and run: "loop_run E r p sa co w' w2" and on: "wakeup_enabled w2 r p k"
  shows "\<exists>w3. wake E r p k w2 = (Val (), w3) \<and> count_list (w_posted w3) (Completion_of p) = 1"
proof -
  from process_api.yielded[OF E call con idle wait queue yield sel]
  have "wait_inv r p sa co c w' w'" by metis
  note inv = process_api.loop_run_inv[OF E this run]
  from process_api.wake_run[OF E inv on] obtain c3
    where c3: "ctx_at (before_wakeup p k w2) p = Some c3"
      and inv3: "wait_inv r p sa co c w' (before_wakeup p k w2)"
      and run3: "wake E r p k w2 = (Val (), activate p c3 (before_wakeup p k w2))" by blast
  from wait_inv_activate[OF inv3 c3] latched_activate[OF inv3 c3]
  have "count_list (w_posted (activate p c3 (before_wakeup p k w2))) (Completion_of p) = 1"
    by (auto simp: latched_count queued_once_def elim!: wait_invE)
  with run3 show ?thesis by blast
qed

theorem wakeups_handled_witness:
  "\<exists>w' p w2 w3. lua_select_module_select doc_env 3 0 (demo demo_timed demo_entries 0) = (Yield 0, w') \<and>
    latched p w2 \<and> wake doc_env 1 p (Upstream_write 6) w2 = (Val (), w3) \<and>
    count_list (w_posted w3) (Completion_of p) = 1"
proof -
  from demo_loop obtain w' p c w2
    where demo: "lua_select_module_select doc_env 3 0 (demo demo_timed demo_entries 0) = (Yield 0, w')"
      "selecting w' 1 p c" "loop_run doc_env 1 p 9 10 w' w2" "latched p w2"
      "wakeup_enabled w2 1 p (Upstream_write 6)" by blast
  from wakeups_handled[OF doc_process.process_api_axioms demo_accepted demo_connected demo_idle
      demo_can_wait demo_queue demo(1-3,5)] demo(1,4)
  show ?thesis by blast
qed

text \<open>
  C10.  The loop refines a latch: its state is the log of the wakeups and whether the completion
  event is queued, and its only step logs a wakeup and sets it.  So whichever handlers have run, in
  whatever order and however often, the event is in the queue exactly once if any of them has run
  and not otherwise, and from the first of them on it is there at every later state of the loop: no
  wakeup is lost, and none completes the select twice.
\<close>

theorem wakeup_not_lost:
  assumes E: "process_api E" and call: "accepted_call E fuel L w r co es timeout xs"
    and con: "connected w xs" and idle: "\<not> (\<exists>x \<in> set xs. readable w (fst (snd x)))"
    and wait: "can_wait w co timeout" and queue: "queue_ok w"
    and yield: "lua_select_module_select E fuel L w = (Yield 0, w')" and sel: "selecting w' r p c"
    and run: "logged_run E r p sa co ([], w') (ks, w2)"
  shows "latch_step\<^sup>*\<^sup>* ([], False) (ks, latched p w2) \<and>
    count_list (w_posted w2) (Completion_of p) = of_bool (ks \<noteq> []) \<and>
    (ks \<noteq> [] \<longrightarrow> (\<forall>w3. loop_run E r p sa co w2 w3 \<longrightarrow> latched p w3))"
proof -
  note log = process_api.yielded_logged[OF E call con idle wait queue yield sel]
  have "count_list (w_posted w2) (Completion_of p) = of_bool (ks \<noteq> [])"
    using log(1)[OF run] latch_state[OF log(3)[OF run]]
    by (auto simp: latched_count queued_once_def elim!: wait_invE)
  moreover have "latched p w3" if "ks \<noteq> []" and later: "loop_run E r p sa co w2 w3" for w3
  proof -
    from loop_run_logged[OF later] obtain ls where "logged_run E r p sa co (ks, w2) (ks @ ls, w3)" by blast
    with run have "logged_run E r p sa co ([], w') (ks @ ls, w3)" by (rule rtranclp_trans)
    from latch_state[OF log(3)[OF this]] that show ?thesis by simp
  qed
  ultimately show ?thesis using log(3)[OF run] by blast
qed

theorem wakeup_not_lost_witness:
  "\<exists>w' p w2. lua_select_module_select doc_env 3 0 (demo demo_timed demo_entries 0) = (Yield 0, w') \<and>
    loop_run doc_env 1 p 9 10 w' w2 \<and> count_list (w_posted w2) (Completion_of p) = 1 \<and>
    (\<forall>w3. loop_run doc_env 1 p 9 10 w2 w3 \<longrightarrow> Completion_of p \<in> set (w_posted w3))"
proof -
  from demo_loop obtain w' p c w2
    where demo: "lua_select_module_select doc_env 3 0 (demo demo_timed demo_entries 0) = (Yield 0, w')"
      "selecting w' 1 p c" "logged_run doc_env 1 p 9 10 ([], w') ([Upstream_read 5], w2)"
      "loop_run doc_env 1 p 9 10 w' w2" by blast
  from wakeup_not_lost[OF doc_process.process_api_axioms demo_accepted demo_connected demo_idle
      demo_can_wait demo_queue demo(1-3)] demo(1,4)
  show ?thesis unfolding latched_def by fastforce
qed

text \<open>
  C11.  The completion at any state of the loop, however other code has changed the registry, the
  connections and the handlers meanwhile: when the event is taken out of the queue and its handler
  called, the coroutine is resumed with the sockets that are ready then.  By that moment the registry
  references of the select are released and no others, the module context is gone, the read
  handlers of the selected upstreams, and of the request if its own connection was selected, are
  those of before the call, and the event is no longer queued.  Write handlers are not given back:
  each is left as it was just before.
\<close>

theorem loop_completes:
  assumes E: "process_api E" and call: "accepted_call E fuel L w r co es timeout xs"
    and con: "connected w xs" and idle: "\<not> (\<exists>x \<in> set xs. readable w (fst (snd x)))"
    and wait: "can_wait w co timeout" and queue: "queue_ok w"
    and content: "in_content w r sa" and cox: "w_coctxs w co = Some cox"
    and rd: "all_read w r xs" and dist: "distinct_sockets w r xs"
    and yield: "lua_select_module_select E fuel L w = (Yield 0, w')" and sel: "selecting w' r p c"
    and run: "loop_run E r p sa co w' w2"
  shows "\<exists>vm a t w3 c2.
    (let rs = ready_entries w w2 xs; vals = result_values a (ev_timedout (cx_timer c2)) rs in
     ctx_at w2 p = Some c2 \<and>
     process_completion E p w2
       = mseq (resume_thread E vm (Some r) (Some sa) (int (length vals))) (mret ()) w3 \<and>
     take (length vals) (w_stack w3 (co_co cox)) = vals \<and>
     table_at w3 a = Some t \<and> wf_table t \<and> map_of t = result_map 0 Map.empty rs \<and>
     given_back w r xs c2 w2 w3 \<and> \<not> latched p w3)"
proof -
  from process_api.yielded[OF E call con idle wait queue yield sel]
  obtain q c0 cref refs where q: "w_reqs w r = Some q"
    and len: "length refs = length xs" "length (cx_socket c0) = length xs"
    and fresh: "fresh_refs (cref # refs) (w_registry w)"
    and w': "w' = waiting r co timeout xs p c0 cref refs w"
    and c: "c = waiting_ctx r co timeout xs c0 cref refs w"
    and inv0: "wait_inv r p sa co c w' w'"
    by metis
  note inv = process_api.loop_run_inv[OF E inv0 run]
  from inv obtain c2 where c2: "ctx_at w2 p = Some c2" by (rule wait_invE)
  have es: "check_entries E w r es = Inr xs" using call by (simp add: accepted_call_def)
  from process_api.loop_completed[OF E q len fresh es con content cox rd dist inv[unfolded w' c] c2] c2
  show ?thesis unfolding Let_def by blast
qed

theorem loop_completes_witness:
  "\<exists>w' p w2 vm a t w3.
    lua_select_module_select doc_env 3 0 (demo demo_timed demo_entries 0) = (Yield 0, w') \<and>
    loop_run doc_env 1 p 9 10 w' w2 \<and> latched p w2 \<and>
    process_completion doc_env p w2
      = mseq (resume_thread doc_env vm (Some 1) (Some 9) 1) (mret ()) w3 \<and>
    table_at w3 a = Some t \<and> map_of t = [LTable 25 \<mapsto> LStr ''r'', lua_int 1 \<mapsto> LTable 25] \<and>
    read_handler_of w3 5 = Some (Fn_foreign 1) \<and> \<not> latched p w3"
proof -
  let ?w = "demo demo_timed demo_entries 0"
  from demo_loop obtain w' p c w2
    where demo: "lua_select_module_select doc_env 3 0 ?w = (Yield 0, w')"
      "selecting w' 1 p c" "loop_run doc_env 1 p 9 10 w' w2" "latched p w2"
      "ready_entries ?w w2 demo_asked = [(LTable 25, ''r'')]" by blast
  from loop_completes[OF doc_process.process_api_axioms demo_accepted demo_connected demo_idle
      demo_can_wait demo_queue demo_in_content demo_coctx demo_all_read demo_distinct demo(1-3)]
  obtain vm a t w3 c2 where run: "process_completion doc_env p w2
      = mseq (resume_thread doc_env vm (Some 1) (Some 9) (int (length (result_values a
          (ev_timedout (cx_timer c2)) [(LTable 25, ''r'')])))) (mret ()) w3"
    and t: "table_at w3 a = Some t" "map_of t = result_map 0 Map.empty [(LTable 25, ''r'')]"
    and over: "given_back ?w 1 demo_asked c2 w2 w3" "\<not> latched p w3"
    unfolding Let_def demo(5) by blast
  from over(1) have "\<exists>c2. given_back ?w 1 demo_asked c2 w2 w3" by blast
  then have "read_handler_of w3 5 = Some (Fn_foreign 1)" by (rule demo_given_back)
  with demo(1,3,4) run t over(2) show ?thesis
    by (intro exI conjI) (assumption | simp add: result_values_def)+
qed

text \<open>
  C12.  The cancellation at any state of the loop: the coroutine's cleanup returns, stops the timer,
  releases the references of the select and no others, takes the module context away and restores
  the read handlers of the selected sockets.  Two things it leaves: the write handlers as they were,
  and the queue as it was, a queued completion event in it (C13).
\<close>

theorem loop_cancels:
  assumes E: "process_api E" and call: "accepted_call E fuel L w r co es timeout xs"
    and con: "connected w xs" and idle: "\<not> (\<exists>x \<in> set xs. readable w (fst (snd x)))"
    and wait: "can_wait w co timeout" and queue: "queue_ok w"
    and rd: "all_read w r xs" and dist: "distinct_sockets w r xs"
    and yield: "lua_select_module_select E fuel L w = (Yield 0, w')" and sel: "selecting w' r p c"
    and run: "loop_run E r p sa co w' w2"
  shows "\<exists>w3 c2 c3. ngx_stream_lua_select_cleanup E (Some co) w2 = (Val (), w3) \<and>
    ctx_at w2 p = Some c2 \<and> given_back w r xs c2 w2 w3 \<and> w_posted w3 = w_posted w2 \<and>
    ctx_at w3 p = Some c3 \<and> \<not> ev_timer_set (cx_timer c3)"
proof -
  from process_api.yielded[OF E call con idle wait queue yield sel]
  obtain q c0 cref refs where q: "w_reqs w r = Some q"
    and len: "length refs = length xs" "length (cx_socket c0) = length xs"
    and fresh: "fresh_refs (cref # refs) (w_registry w)"
    and w': "w' = waiting r co timeout xs p c0 cref refs w"
    and c: "c = waiting_ctx r co timeout xs c0 cref refs w"
    and inv0: "wait_inv r p sa co c w' w'"
    by metis
  note inv = process_api.loop_run_inv[OF E inv0 run]
  from inv obtain c2 where c2: "ctx_at w2 p = Some c2" by (rule wait_invE)
  from process_api.loop_cancelled[OF E q len fresh rd dist inv[unfolded w' c] c2] c2 show ?thesis by blast
qed

theorem loop_cancels_witness:
  "\<exists>w' p w2 w3. lua_select_module_select doc_env 3 0 (demo demo_timed demo_entries 0) = (Yield 0, w') \<and>
    loop_run doc_env 1 p 9 10 w' w2 \<and> ngx_stream_lua_select_cleanup doc_env (Some 10) w2 = (Val (), w3) \<and>
    read_handler_of w3 5 = Some (Fn_foreign 1) \<and> latched p w3"
proof -
  from demo_loop obtain w' p c w2
    where demo: "lua_select_module_select doc_env 3 0 (demo demo_timed demo_entries 0) = (Yield 0, w')"
      "selecting w' 1 p c" "loop_run doc_env 1 p 9 10 w' w2" "latched p w2" by blast
  from loop_cancels[OF doc_process.process_api_axioms demo_accepted demo_connected demo_idle
      demo_can_wait demo_queue demo_all_read demo_distinct demo(1-3)]
  obtain w3 c2 where w3: "ngx_stream_lua_select_cleanup doc_env (Some 10) w2 = (Val (), w3)"
    "given_back (demo demo_timed demo_entries 0) 1 demo_asked c2 w2 w3" "w_posted w3 = w_posted w2"
    by blast
  from w3(2) have "\<exists>c2. given_back (demo demo_timed demo_entries 0) 1 demo_asked c2 w2 w3" by blast
  from demo_given_back[OF this] demo w3(1,3) show ?thesis
    by (intro exI[of _ w'] exI[of _ p] exI[of _ w2] exI[of _ w3]) (simp add: latched_def)
qed

text \<open>
  C13.  A coroutine that is killed after one of its sockets has woken it leaves the completion
  event in the queue: \<open>ngx_stream_lua_select_ctx_cleanup_and_discard\<close> removes the timer but not
  the event.  When the queue is processed, the event's handler finds no module context and
  dereferences the null pointer.
\<close>

theorem killed_posted_faults:
  assumes E: "process_api E" and call: "accepted_call E fuel L w r co es timeout xs"
    and con: "connected w xs" and idle: "\<not> (\<exists>x \<in> set xs. readable w (fst (snd x)))"
    and wait: "can_wait w co timeout" and queue: "queue_ok w"
    and rd: "all_read w r xs" and dist: "distinct_sockets w r xs"
    and yield: "lua_select_module_select E fuel L w = (Yield 0, w')" and sel: "selecting w' r p c"
    and run: "loop_run E r p sa co w' w2" and latched: "latched p w2"
  shows "\<exists>w3 w4. ngx_stream_lua_select_cleanup E (Some co) w2 = (Val (), w3) \<and> latched p w3 \<and>
    process_completion E p w3 = (Fault Null_deref, w4)"
proof -
  from process_api.yielded[OF E call con idle wait queue yield sel]
  obtain q c0 cref refs where q: "w_reqs w r = Some q"
    and len: "length refs = length xs" "length (cx_socket c0) = length xs"
    and fresh: "fresh_refs (cref # refs) (w_registry w)"
    and w': "w' = waiting r co timeout xs p c0 cref refs w"
    and c: "c = waiting_ctx r co timeout xs c0 cref refs w"
    and inv0: "wait_inv r p sa co c w' w'"
    by metis
  note inv = process_api.loop_run_inv[OF E inv0 run]
  from inv obtain c2 where c2: "ctx_at w2 p = Some c2" by (rule wait_invE)
  from process_api.loop_cancelled[OF E q len fresh rd dist inv[unfolded w' c] c2]
  obtain w3 c3 where cancel: "ngx_stream_lua_select_cleanup E (Some co) w2 = (Val (), w3)"
    and over: "given_back w r xs c2 w2 w3" and posted: "w_posted w3 = w_posted w2"
    and c3: "ctx_at w3 p = Some c3" "ev_data (cx_post_completion_ev c3) = Some r"
    by blast
  have "process_completion E p w3 = (Fault Null_deref, take_posted (Completion_of p) w3)"
    using process_api.post_completion_null[OF E, of "take_posted (Completion_of p) w3" "Completion_of p"]
      c3 over
    by (simp add: process_completion_def run_simps take_posted_def given_back_def not_selecting_def)
  with cancel posted latched show ?thesis by (auto simp: latched_def)
qed

theorem killed_posted_faults_witness:
  "\<exists>w' p w2 w3 w4. lua_select_module_select doc_env 3 0 (demo demo_timed demo_entries 0) = (Yield 0, w') \<and>
    loop_run doc_env 1 p 9 10 w' w2 \<and>
    ngx_stream_lua_select_cleanup doc_env (Some 10) w2 = (Val (), w3) \<and>
    process_completion doc_env p w3 = (Fault Null_deref, w4)"
proof -
  from demo_loop obtain w' p c w2
    where demo: "lua_select_module_select doc_env 3 0 (demo demo_timed demo_entries 0) = (Yield 0, w')"
      "selecting w' 1 p c" "loop_run doc_env 1 p 9 10 w' w2" "latched p w2" by blast
  from killed_posted_faults[OF doc_process.process_api_axioms demo_accepted demo_connected demo_idle
      demo_can_wait demo_queue demo_all_read demo_distinct demo(1-4)] demo
  show ?thesis by blast
qed

section \<open>Where the way back is missing\<close>

text \<open>
  C14.  A socket that is only to be written stops the worker process: its read handler was never
  saved, so the assertion at the completion of the select fails, whatever became ready and whether
  or not the timer fired.
\<close>

theorem write_only_aborts:
  assumes E: "process_api E" and call: "accepted_call E fuel L w r co es timeout xs"
    and con: "connected w xs" and idle: "\<not> (\<exists>x \<in> set xs. readable w (fst (snd x)))"
    and wait: "can_wait w co timeout" and content: "in_content w r sa"
    and cox: "w_coctxs w co = Some cox"
    and x: "x \<in> set xs" "\<not> entry_down w r x" "\<not> rw_has (fst x) NGX_LUA_SELECT_READ"
  shows "\<exists>w' p. lua_select_module_select E fuel L w = (Yield 0, w') \<and>
    (\<forall>f timedout. fst (ngx_stream_lua_select_post_completion_handler E (Completion_of p)
       (after_wait f timedout p w')) = Fault Assert_failed)"
proof -
  from process_api.wait_to_resume[OF E call con idle wait content cox] obtain w' p c0 cref refs
    where run: "lua_select_module_select E fuel L w = (Yield 0, w')"
      and w': "w' = waiting r co timeout xs p c0 cref refs w"
      and len: "length refs = length xs" "length (cx_socket c0) = length xs"
      and fresh: "fresh_refs (cref # refs) (w_registry w)"
      and later: "\<And>f tmo. \<exists>c2 w2 x2.
      ngx_stream_lua_select_post_completion_handler E (Completion_of p) (after_wait f tmo p w')
        = mseq (ngx_stream_lua_select_resume E (Some r)) (mret ()) w2 \<and>
      still_waiting p (waiting_ctx r co timeout xs c0 cref refs w) w' c2 w2 \<and>
      resumable w2 r p c2 sa co x2 \<and> co_co x2 = co_co cox \<and>
      ev_timedout (cx_timer c2) = tmo \<and> w_conns w2 = w_conns (after_wait f tmo p w')"
    by blast
  obtain q where q: "w_reqs w r = Some q" using content by (auto simp: in_content_def)
  have es: "check_entries E w r es = Inr xs" using call by (simp add: accepted_call_def)
  have "fst (ngx_stream_lua_select_post_completion_handler E (Completion_of p)
       (after_wait f tmo p w')) = Fault Assert_failed" for f tmo
  proof -
    obtain c2 w2 x2 where handler:
        "ngx_stream_lua_select_post_completion_handler E (Completion_of p) (after_wait f tmo p w')
          = mseq (ngx_stream_lua_select_resume E (Some r)) (mret ()) w2"
      and sw: "still_waiting p (waiting_ctx r co timeout xs c0 cref refs w)
          (waiting r co timeout xs p c0 cref refs w) c2 w2"
      and res: "resumable w2 r p c2 sa co x2"
      using later w' by blast
    from process_api.resume_assert[OF E q len fresh es x sw res] handler show ?thesis
      by (auto simp: run_simps)
  qed
  with run show ?thesis by blast
qed

theorem write_only_aborts_witness:
  "\<exists>w' p. lua_select_module_select doc_env 3 0 (demo demo_timed demo_write_only 0) = (Yield 0, w') \<and>
    fst (ngx_stream_lua_select_post_completion_handler doc_env (Completion_of p)
      (after_wait demo_arrival True p w')) = Fault Assert_failed"
proof -
  have "(2, 6, LTable 26) \<in> set [(2 :: 32 word, 6 :: nat, LTable 26)]" by simp
  moreover have "\<not> rw_has (fst (2, 6 :: nat, LTable 26)) NGX_LUA_SELECT_READ" by (simp add: flag_defs)
  ultimately show ?thesis
    using write_only_aborts[OF doc_process.process_api_axioms demo_write_only_accepted
      demo_write_only_connected demo_write_only_idle demo_can_wait demo_in_content demo_coctx _
      demo_not_down(2)] by blast
qed

text \<open>
  C15.  The write handler of an upstream is never restored: after the coroutine is killed, the
  upstream still calls the module's handler on its next write event, and that handler
  dereferences the null pointer that the module context is by then.
\<close>

theorem write_handler_left:
  assumes E: "process_api E" and call: "accepted_call E fuel L w r co es timeout xs"
    and con: "connected w xs" and idle: "\<not> (\<exists>x \<in> set xs. readable w (fst (snd x)))"
    and wait: "can_wait w co timeout" and rd: "all_read w r xs" and dist: "distinct_sockets w r xs"
    and x: "x \<in> set xs" "entry_of w r a x" "rw_has (fst x) NGX_LUA_SELECT_WRITE"
  shows "\<exists>w' w3. lua_select_module_select E fuel L w = (Yield 0, w') \<and>
    ngx_stream_lua_select_cleanup E (Some co) w' = (Val (), w3) \<and>
    write_handler_of w3 a = Some Fn_write_upstream_handler \<and>
    ngx_stream_lua_select_socket_write_upstream_handler E (Some r) (Some a) w3 = (Fault Null_deref, w3)"
proof -
  from process_api.select_idle_yields[OF E call con idle wait] obtain p c0 cref refs
    where len: "length refs = length xs" "length (cx_socket c0) = length xs"
      and fresh: "fresh_refs (cref # refs) (w_registry w)"
      and run: "lua_select_module_select E fuel L w
        = (Yield 0, waiting r co timeout xs p c0 cref refs w)"
    by blast
  obtain q where q: "w_reqs w r = Some q"
    using call by (auto simp: accepted_call_def in_request_def)
  let ?w' = "waiting r co timeout xs p c0 cref refs w"
  let ?c = "waiting_ctx r co timeout xs c0 cref refs w"
  note heaps = waiting_heaps[OF q len]
  have sw: "still_waiting p ?c ?w' ?c ?w'" by (rule still_waiting_refl) (simp add: heaps)
  obtain q2 where q2: "w_reqs ?w' r = Some q2" by (simp add: heaps)
  let ?w3 = "discarded r q2 p ?c ?w'"
  have "ngx_stream_lua_select_cleanup E (Some co) ?w' = (Val (), ?w3)"
    by (rule process_api.cancel_run[OF E q len fresh rd sw q2,
          where x = "(the (w_coctxs w co))\<lparr>co_cleanup := Fn_cleanup, co_data := Some r\<rparr>"])
      (simp_all add: heaps)
  moreover have "not_selecting ?w3 r"
    using discarded_over[OF q len fresh rd dist sw refl refl refl q2] by (simp add: select_over_def)
  then have "ngx_stream_lua_select_socket_write_upstream_handler E (Some r) (Some a) ?w3
      = (Fault Null_deref, ?w3)"
    by (simp add: process_api.handler_defs[OF E] process_api.event_activated_null[OF E])
  moreover obtain u where "w_ups w a = Some u" using x rd by (auto simp: all_read_def entry_of_def)
  from waiting_discarded_up[OF q len rd dist sw refl this] x
  have "write_handler_of ?w3 a = Some Fn_write_upstream_handler"
    by (auto simp: write_handler_of_def)
  ultimately show ?thesis using run by blast
qed

theorem write_handler_left_witness:
  "\<exists>w' w3. lua_select_module_select doc_env 3 0 (demo demo_timed demo_entries 0) = (Yield 0, w') \<and>
    ngx_stream_lua_select_cleanup doc_env (Some 10) w' = (Val (), w3) \<and>
    ngx_stream_lua_select_socket_write_upstream_handler doc_env (Some 1) (Some 6) w3
      = (Fault Null_deref, w3)"
proof -
  have "(3, 6, LTable 26) \<in> set demo_asked" by (simp add: demo_asked_def)
  moreover have "entry_of (demo demo_timed demo_entries 0) 1 6 (3, 6, LTable 26)"
    by (simp add: entry_of_def demo_not_down del: One_nat_def)
  moreover have "rw_has (fst (3, 6 :: nat, LTable 26)) NGX_LUA_SELECT_WRITE" by (simp add: flag_defs)
  ultimately show ?thesis
    using write_handler_left[OF doc_process.process_api_axioms demo_accepted demo_connected demo_idle
        demo_can_wait demo_all_read demo_distinct] by blast
qed

text \<open>
  C16.  An upstream that is in the table twice is left with the module's own read handler: the
  second entry saves the handler that the first one installed, and is discarded last.
\<close>

theorem duplicate_left:
  assumes E: "process_api E" and call: "accepted_call E fuel L w r co es timeout xs"
    and con: "connected w xs" and idle: "\<not> (\<exists>x \<in> set xs. readable w (fst (snd x)))"
    and wait: "can_wait w co timeout" and rd: "all_read w r xs"
    and dup: "2 \<le> length (filter (entry_of w r a) xs)"
  shows "\<exists>w' w3. lua_select_module_select E fuel L w = (Yield 0, w') \<and>
    ngx_stream_lua_select_cleanup E (Some co) w' = (Val (), w3) \<and>
    read_handler_of w3 a = Some Fn_read_upstream_handler"
proof -
  from process_api.select_idle_yields[OF E call con idle wait] obtain p c0 cref refs
    where len: "length refs = length xs" "length (cx_socket c0) = length xs"
      and fresh: "fresh_refs (cref # refs) (w_registry w)"
      and run: "lua_select_module_select E fuel L w
        = (Yield 0, waiting r co timeout xs p c0 cref refs w)"
    by blast
  obtain q where q: "w_reqs w r = Some q"
    using call by (auto simp: accepted_call_def in_request_def)
  let ?w' = "waiting r co timeout xs p c0 cref refs w"
  let ?c = "waiting_ctx r co timeout xs c0 cref refs w"
  note heaps = waiting_heaps[OF q len]
  have sw: "still_waiting p ?c ?w' ?c ?w'" by (rule still_waiting_refl) (simp add: heaps)
  obtain q2 where q2: "w_reqs ?w' r = Some q2" by (simp add: heaps)
  have "ngx_stream_lua_select_cleanup E (Some co) ?w' = (Val (), discarded r q2 p ?c ?w')"
    by (rule process_api.cancel_run[OF E q len fresh rd sw q2,
          where x = "(the (w_coctxs w co))\<lparr>co_cleanup := Fn_cleanup, co_data := Some r\<rparr>"])
      (simp_all add: heaps)
  with run duplicate_stuck[OF q len rd dup sw refl, of q2] show ?thesis by blast
qed

theorem duplicate_left_witness:
  "\<exists>w' w3. lua_select_module_select doc_env 3 0 (demo demo_timed demo_twice 0) = (Yield 0, w') \<and>
    ngx_stream_lua_select_cleanup doc_env (Some 10) w' = (Val (), w3) \<and>
    read_handler_of w3 5 = Some Fn_read_upstream_handler"
  by (rule duplicate_left[OF doc_process.process_api_axioms demo_twice_accepted demo_twice_facts(1,2)
        demo_can_wait demo_twice_facts(3,4)])

section \<open>The other ends of a call\<close>

text \<open>
  C17.  Bad arguments raise the error that the checks name, in their order, before anything is
  looked up, allocated or changed.
\<close>

theorem bad_arguments_raise:
  assumes "process_api E" and "parse_args (lua_str2number E) (w_stack w L) = Inl e"
  shows "lua_select_module_select E fuel L w = (Raise e, w)"
  by (rule process_api.select_bad_args[OF assms])

theorem bad_arguments_raise_witness:
  "lua_select_module_select doc_env 3 0 (demo [] demo_entries 0)
     = (Raise (Lua_error ''expected more than 0 arguments''), demo [] demo_entries 0) \<and>
   lua_select_module_select doc_env 3 0 (demo [LNum (LFin (-1)), LTable 30] demo_entries 0)
     = (Raise (Arg_error 2 ''timeout cannot be <0''), demo [LNum (LFin (-1)), LTable 30] demo_entries 0)"
  by (intro conjI bad_arguments_raise[OF doc_process.process_api_axioms]) simp_all

text \<open>
  C18.  When the kernel does not answer for one of the sockets, the call raises \<open>"ioctl error"\<close>
  after the error exit: no handler, request, coroutine or queue has changed, and the registry keeps
  one reference to every socket of the table.
\<close>

theorem ioctl_error_raises:
  assumes E: "process_api E" and call: "accepted_call E fuel L w r co es timeout xs"
    and con: "open_sockets w xs" and bad: "\<exists>x \<in> set xs. ioctl_fails w (fst (snd x))"
  shows "\<exists>w' refs. lua_select_module_select E fuel L w = (Raise (Lua_error ''ioctl error''), w') \<and>
    w_ups w' = w_ups w \<and> w_reqs w' = w_reqs w \<and> w_coctxs w' = w_coctxs w \<and>
    w_posted w' = w_posted w \<and> length refs = length xs \<and> fresh_refs refs (w_registry w) \<and>
    w_registry w' = rev (zip refs (map (snd \<circ> snd) xs)) @ w_registry w"
proof -
  from process_api.select_ioctl_error[OF E call con bad] obtain p c cref refs
    where len: "length refs = length xs" and fresh: "fresh_refs (cref # refs) (w_registry w)"
      and c: "cx_ref c = cref"
      and run: "lua_select_module_select E fuel L w = (Raise (Lua_error ''ioctl error''),
      failed p c (length xs) (scanned p c xs refs cref w))"
    by blast
  then show ?thesis
    by (intro exI[of _ "failed p c (length xs) (scanned p c xs refs cref w)"] exI[of _ refs])
      (simp add: failed_def delete_cref, simp add: fresh_refs_def scan_refs_def scanned_def)
qed

theorem ioctl_error_raises_witness:
  "\<exists>w' n m. lua_select_module_select doc_env 3 0 demo_deaf = (Raise (Lua_error ''ioctl error''), w') \<and>
    w_ups w' = w_ups demo_deaf \<and> w_registry w' = [(m, LTable 26), (n, LTable 25)]"
proof -
  from ioctl_error_raises[OF doc_process.process_api_axioms demo_deaf_accepted demo_deaf_facts]
  obtain w' refs where w': "lua_select_module_select doc_env 3 0 demo_deaf
      = (Raise (Lua_error ''ioctl error''), w')" "w_ups w' = w_ups demo_deaf" "length refs = length demo_asked"
    "w_registry w' = rev (zip refs (map (snd \<circ> snd) demo_asked)) @ w_registry demo_deaf"
    by blast
  have "w_registry demo_deaf = []" by (simp add: demo_deaf_def)
  moreover obtain n m where "refs = [n, m]"
    using w'(3) by (auto simp: demo_asked_def length_Suc_conv)
  ultimately show ?thesis using w' by (auto simp: demo_asked_def)
qed

text \<open>
  C19.  A timeout that an unsigned 64-bit number of milliseconds cannot hold, an infinite one
  (\<open>math.huge\<close>) among them, passes the checks; the conversion of the C double to \<open>ngx_msec_t\<close>
  is then undefined.
\<close>

theorem huge_timeout_undefined:
  assumes E: "process_api E" and call: "accepted_call E fuel L w r co es timeout xs"
    and con: "connected w xs" and idle: "\<not> (\<exists>x \<in> set xs. readable w (fst (snd x)))"
    and big: "timeout = LPlusInf \<or> (\<exists>q \<ge> 2 ^ 64. timeout = LFin q)"
  shows "fst (lua_select_module_select E fuel L w) = Fault Undefined_conversion"
proof -
  have "lua_number_pos timeout" "lua_number_to_msec timeout = None" using big by auto
  with process_api.select_timeout_undefined[OF E call con idle] show ?thesis by blast
qed

theorem huge_timeout_undefined_witness:
  "fst (lua_select_module_select doc_env 3 0 (demo demo_forever demo_entries 0))
    = Fault Undefined_conversion"
  by (rule huge_timeout_undefined[OF doc_process.process_api_axioms demo_forever_accepted
        demo_connected demo_idle]) simp

text \<open>
  C20.  The timer of a call that waits: a positive timeout starts it with the whole number of
  milliseconds below the timeout, which fits its 64 bits, for the module's handler and the request;
  a timeout of zero, or one that is not a number, does not start it.
\<close>

theorem timer_started:
  assumes E: "process_api E" and call: "accepted_call E fuel L w r co es timeout xs"
    and con: "connected w xs" and idle: "\<not> (\<exists>x \<in> set xs. readable w (fst (snd x)))"
    and wait: "can_wait w co timeout"
  shows "\<exists>w' p c. lua_select_module_select E fuel L w = (Yield 0, w') \<and> selecting w' r p c \<and>
    ev_timer_set (cx_timer c) = lua_number_pos timeout \<and>
    (\<forall>q. timeout = LFin q \<and> 0 < q \<longrightarrow> uint (ev_delay (cx_timer c)) = \<lfloor>q\<rfloor> \<and>
       ev_handler (cx_timer c) = Fn_timeout_handler \<and> ev_data (cx_timer c) = Some r) \<and>
    ev_timedout (cx_timer c) = False"
proof -
  from process_api.select_idle_yields[OF E call con idle wait] obtain p c0 cref refs
    where len: "length refs = length xs" "length (cx_socket c0) = length xs"
      and run: "lua_select_module_select E fuel L w
        = (Yield 0, waiting r co timeout xs p c0 cref refs w)"
    by blast
  obtain q where q: "w_reqs w r = Some q"
    using call by (auto simp: accepted_call_def in_request_def)
  let ?c = "waiting_ctx r co timeout xs c0 cref refs w"
  note heaps = waiting_heaps[OF q len]
  have sel: "selecting (waiting r co timeout xs p c0 cref refs w) r p ?c"
    by (simp add: selecting_def heaps)
  have "uint (ev_delay (cx_timer ?c)) = \<lfloor>t\<rfloor> \<and> ev_handler (cx_timer ?c) = Fn_timeout_handler \<and>
      ev_data (cx_timer ?c) = Some r" if t: "timeout = LFin t" "0 < t" for t
  proof -
    from t wait have "t < 2 ^ 64" by (auto simp: can_wait_def split: if_splits)
    with t have "lua_number_to_msec timeout = Some (word_of_int \<lfloor>t\<rfloor>)" by simp
    moreover have "0 \<le> \<lfloor>t\<rfloor>" "\<lfloor>t\<rfloor> < 2 ^ 64"
      using t(2) \<open>t < 2 ^ 64\<close> by (simp_all add: floor_less_iff)
    then have "uint (word_of_int \<lfloor>t\<rfloor> :: 64 word) = \<lfloor>t\<rfloor>" by (simp add: uint_word_of_int_eq take_bit_int_eq_self)
    ultimately show ?thesis
      using t by (simp add: waiting_ctx_def armed_ctx_def Let_def)
  qed
  then show ?thesis
    using run sel waiting_ctx_simps(10)[OF len, of r co timeout cref w]
    by (intro exI[of _ "waiting r co timeout xs p c0 cref refs w"] exI[of _ p] exI[of _ ?c])
      (auto simp: waiting_timer_set)
qed

theorem timer_started_witness:
  "\<exists>w' p c. lua_select_module_select doc_env 3 0 (demo demo_timed demo_entries 0) = (Yield 0, w') \<and>
    selecting w' 1 p c \<and> uint (ev_delay (cx_timer c)) = 5000 \<and>
    ev_handler (cx_timer c) = Fn_timeout_handler"
proof -
  from timer_started[OF doc_process.process_api_axioms demo_accepted demo_connected demo_idle
      demo_can_wait] obtain w' p c where
    "lua_select_module_select doc_env 3 0 (demo demo_timed demo_entries 0) = (Yield 0, w')"
    "selecting w' 1 p c"
    "\<forall>q. LFin 5000 = LFin q \<and> 0 < q \<longrightarrow> uint (ev_delay (cx_timer c)) = \<lfloor>q\<rfloor> \<and>
       ev_handler (cx_timer c) = Fn_timeout_handler \<and> ev_data (cx_timer c) = Some 1"
    by blast
  then show ?thesis by (intro exI[of _ w'] exI[of _ p] exI[of _ c]) auto
qed

text \<open>
  C21.  The two loops over the table end: with more fuel than the table has entries, a call that
  finds its request has an outcome other than the exhaustion of the fuel, and more fuel does not
  change it.
\<close>

theorem call_terminates:
  assumes E: "process_api E" and call: "wf_call E fuel L w r co es" and con: "conns_ok w"
    and args: "parse_args (lua_str2number E) (w_stack w L) = Inr timeout"
    and wait: "can_wait w co timeout" and sel: "not_selecting w r" and more: "fuel \<le> fuel'"
  shows "fst (lua_select_module_select E fuel L w) \<noteq> Fault Out_of_fuel \<and>
    lua_select_module_select E fuel' L w = lua_select_module_select E fuel L w"
proof -
  have "fst (lua_select_module_select E fuel L w) \<noteq> Fault Out_of_fuel"
    using process_api.select_outcome_run[OF E call con args wait sel] args
    by (simp add: call_outcome_def split: sum.split)
  with select_fuel[OF more] show ?thesis by (auto simp: fuel_le_def)
qed

theorem call_terminates_witness:
  "lua_select_module_select doc_env 100 0 (demo demo_timed demo_entries 0)
    = lua_select_module_select doc_env 3 0 (demo demo_timed demo_entries 0)"
  using call_terminates[OF doc_process.process_api_axioms demo_call demo_conns _ demo_can_wait
      demo_selecting, of 0 100] by simp

text \<open>
  C22.  Every slot of a context that waits is a TCP socket, downstream exactly if its connection is
  the request's own: the UDP branches of the installation and of the discard cannot be reached.
\<close>

theorem slots_are_tcp:
  assumes E: "process_api E" and call: "accepted_call E fuel L w r co es timeout xs"
    and con: "connected w xs" and idle: "\<not> (\<exists>x \<in> set xs. readable w (fst (snd x)))"
    and wait: "can_wait w co timeout"
  shows "\<exists>w' p c. lua_select_module_select E fuel L w = (Yield 0, w') \<and> selecting w' r p c \<and>
    map sk_type (cx_socket c) = map (\<lambda>x. if entry_down w r x then NGX_LUA_SELECT_TCP_DOWNSTREAM
       else NGX_LUA_SELECT_TCP_UPSTREAM) xs \<and>
    map sk_up (cx_socket c) = map (Some \<circ> fst \<circ> snd) xs"
proof -
  from process_api.select_idle_yields[OF E call con idle wait] obtain p c0 cref refs
    where len: "length refs = length xs" "length (cx_socket c0) = length xs"
      and run: "lua_select_module_select E fuel L w
        = (Yield 0, waiting r co timeout xs p c0 cref refs w)"
    by blast
  obtain q where q: "w_reqs w r = Some q"
    using call by (auto simp: accepted_call_def in_request_def)
  let ?c = "waiting_ctx r co timeout xs c0 cref refs w"
  have sel: "selecting (waiting r co timeout xs p c0 cref refs w) r p ?c"
    by (simp add: selecting_def waiting_heaps[OF q len])
  have "map sk_type (cx_socket ?c) = map (\<lambda>x. if entry_down w r x
      then NGX_LUA_SELECT_TCP_DOWNSTREAM else NGX_LUA_SELECT_TCP_UPSTREAM) xs"
    by (rule waiting_map[OF len]) (simp_all add: installed_slot_def Let_def entry_slot_type)
  moreover have "map sk_up (cx_socket ?c) = map (Some \<circ> fst \<circ> snd) xs"
    by (rule waiting_map[OF len]) (simp_all add: installed_slot_def Let_def)
  ultimately show ?thesis using run sel by blast
qed

theorem slots_are_tcp_witness:
  "\<exists>w' p c. lua_select_module_select doc_env 3 0 (demo demo_timed demo_entries 0) = (Yield 0, w') \<and>
    selecting w' 1 p c \<and>
    map sk_type (cx_socket c) = [NGX_LUA_SELECT_TCP_UPSTREAM, NGX_LUA_SELECT_TCP_UPSTREAM]"
proof -
  from slots_are_tcp[OF doc_process.process_api_axioms demo_accepted demo_connected demo_idle
      demo_can_wait] obtain w' p c where
    "lua_select_module_select doc_env 3 0 (demo demo_timed demo_entries 0) = (Yield 0, w')"
    "selecting w' 1 p c"
    "map sk_type (cx_socket c) = map (\<lambda>x. if entry_down (demo demo_timed demo_entries 0) 1 x
       then NGX_LUA_SELECT_TCP_DOWNSTREAM else NGX_LUA_SELECT_TCP_UPSTREAM) demo_asked"
    by blast
  then show ?thesis
    by (intro exI[of _ w'] exI[of _ p] exI[of _ c])
      (simp add: demo_asked_def demo_not_down del: One_nat_def)
qed

section \<open>The parts\<close>

text \<open>
  C23.  The mode of an entry survives its way through the context: the flags of a mode string are
  those of its letters before the first NUL, they fit the 2-bit field, and the field promoted back
  to \<open>int\<close> is the value that was stored.
\<close>

theorem mode_field_roundtrip:
  "sk_rw (s\<lparr>sk_readwrite := ucast (rw_of_string str)\<rparr>) = rw_of_string str \<and>
   rw_of_string str < 4 \<and>
   rw_has (rw_of_string str) NGX_LUA_SELECT_READ = c_strchr str CHR ''r'' \<and>
   rw_has (rw_of_string str) NGX_LUA_SELECT_WRITE = c_strchr str CHR ''w''"
proof -
  have "rw_of_string str \<in> {0, 1, 2, 3}"
    by (auto simp: rw_of_string_def flag_defs Let_def)
  then show ?thesis by (auto simp: sk_rw_def rw_of_string_has)
qed

text \<open>
  C24.  The result of a select is an argument for the next one: the mode that
  \<open>ngx_lua_select_push_result\<close> stores under a ready socket which is in one slot is a string, and read
  back as \<open>lua_select_module_select\<close> reads a mode it gives exactly the two flags that the slot was
  ready for.
\<close>

theorem result_mode_roundtrip:
  assumes E: "lua_api E" and c: "ctx_at w p = Some c" "cx_count c = length (cx_socket c)"
    and live: "refs_live (w_registry w) (cx_socket c)"
    and s: "s \<in> set (cx_socket c)" "sk_read_ready s \<or> sk_write_ready s"
    and v: "map_of (w_registry w) (sk_lua_socket_ref s) = Some (LTable b)"
    and once: "\<forall>s' \<in> set (cx_socket c).
      map_of (w_registry w) (sk_lua_socket_ref s') = Some (LTable b) \<longrightarrow> s' = s"
  shows "\<exists>a t md w'. ngx_lua_select_push_result E L (Some p) w = (Val 1, w') \<and>
    w_stack w' L = LTable a # w_stack w L \<and> table_at w' a = Some t \<and>
    map_of t (LTable b) = Some (LStr md) \<and>
    rw_has (rw_of_string md) NGX_LUA_SELECT_READ = sk_read_ready s \<and>
    rw_has (rw_of_string md) NGX_LUA_SELECT_WRITE = sk_write_ready s"
proof -
  from lua_api.push_result_run[OF E c live, of L] obtain a t
    where t: "map_of t = result_map 0 Map.empty (ready_list (w_registry w) (cx_socket c))"
      and run: "ngx_lua_select_push_result E L (Some p) w =
      (let w' = put_table a t (w\<lparr>w_meta := (w_meta w)(a := None)\<rparr>) in
       if ready_list (w_registry w) (cx_socket c) = [] \<and> ev_timedout (cx_timer c)
       then (Val 2, set_stack L (LStr ''timeout'' # LNil # w_stack w L) w')
       else (Val 1, set_stack L (LTable a # w_stack w L) w'))" by blast
  have "ready_list (w_registry w) (cx_socket c) \<noteq> []" using s by (auto simp: ready_list_Nil_iff)
  with run have "ngx_lua_select_push_result E L (Some p) w = (Val 1,
      set_stack L (LTable a # w_stack w L) (put_table a t (w\<lparr>w_meta := (w_meta w)(a := None)\<rparr>)))"
    by (simp add: Let_def)
  moreover have "map_of t (LTable b) = Some (LStr (mode_string (sk_read_ready s) (sk_write_ready s)))"
    unfolding t by (rule result_mode[OF live s v once])
  moreover have "rw_has (rw_of_string (mode_string (sk_read_ready s) (sk_write_ready s))) NGX_LUA_SELECT_READ
      = sk_read_ready s"
    "rw_has (rw_of_string (mode_string (sk_read_ready s) (sk_write_ready s))) NGX_LUA_SELECT_WRITE
      = sk_write_ready s"
    using s(2) by (auto simp: rw_of_string_has c_strchr_def)
  ultimately show ?thesis by (intro exI conjI) (assumption | simp)+
qed

theorem result_mode_roundtrip_witness:
  "\<exists>a t md w'. ngx_lua_select_push_result doc_env 0 (Some 40) demo_result = (Val 1, w') \<and>
    table_at w' a = Some t \<and> map_of t (LTable 26) = Some (LStr md) \<and>
    \<not> rw_has (rw_of_string md) NGX_LUA_SELECT_READ \<and> rw_has (rw_of_string md) NGX_LUA_SELECT_WRITE"
  using result_mode_roundtrip[OF doc_lua.lua_api_axioms demo_result_facts(1-3) demo_written, of 0]
  by (auto simp: demo_done_def zero_socket_def)

text \<open>
  C25.  The poll: when the kernel answers for every socket, the count is that of the sockets with
  bytes waiting, and those are marked as readable, whatever mode they were given; when it does not,
  the poll ends with the error at the first such socket, those before it already marked.
\<close>

theorem poll_marks:
  assumes E: "nginx_api E" and c: "ctx_at w p = Some c" "cx_count c = length (cx_socket c)"
    and live: "conns_live w (cx_socket c)"
  shows "ngx_lua_select_sockets_ready E (Some p) w =
    (if \<forall>s \<in> set (cx_socket c). poll_ok w s
     then (Val (None, int (length (filter (bytes_waiting w) (cx_socket c)))),
           put_ctx p (c\<lparr>cx_socket := map (poll_mark w) (cx_socket c)\<rparr>) w)
     else (Val (Some ''ioctl error'', 0),
           put_ctx p (c\<lparr>cx_socket := polled w (cx_socket c)\<rparr>) w))"
  using nginx_api.sockets_ready_ok[OF E c live] nginx_api.sockets_ready_error[OF E c live]
  by (auto simp: poll_ok_def)

theorem poll_marks_witness:
  "\<exists>w'. ngx_lua_select_sockets_ready doc_env (Some 40) demo_polled = (Val (None, 1), w') \<and>
    map_option (map sk_read_ready \<circ> cx_socket) (ctx_at w' 40) = Some [True, False]"
  using poll_marks[OF doc_nginx.nginx_api_axioms demo_polled_facts(1-3)]
  unfolding demo_polled_facts(4) by (simp add: demo_polled_facts)

text \<open>
  C26.  The error exit on its own: the context's reference is released, and on the connections of
  the sockets entered so far the events of the directions that were asked for are deleted; nothing
  else changes.
\<close>

theorem fail_cleanup_stops:
  assumes E: "process_api E" and c: "ctx_at w p = Some c" and n: "n \<le> length (cx_socket c)"
    and ref: "cx_ref c \<noteq> LUA_NOREF" "cx_ref c \<in> fst ` set (w_registry w)"
    and ok: "\<forall>s \<in> set (take n (cx_socket c)). stoppable w s"
  shows "\<exists>w'. select_fail_cleanup E L (Some p) n w = (Val (), w') \<and>
    ctx_at w' = (ctx_at w)(p \<mapsto> c\<lparr>cx_ref := LUA_NOREF\<rparr>) \<and>
    w_registry w' = AList.delete (cx_ref c) (w_registry w) \<and>
    w_ups w' = w_ups w \<and> w_reqs w' = w_reqs w \<and> w_coctxs w' = w_coctxs w \<and>
    (\<forall>b. w_conns w' b = map_option (\<lambda>conn. conn
       \<lparr>cn_read := stop_event (\<exists>s \<in> set (take n (cx_socket c)). slot_conn w s = Some b \<and> wants_read s)
                     (cn_read conn),
        cn_write := stop_event (\<exists>s \<in> set (take n (cx_socket c)). slot_conn w s = Some b \<and> wants_write s)
                     (cn_write conn)\<rparr>) (w_conns w b))"
proof -
  let ?w = "put_ctx p (c\<lparr>cx_ref := LUA_NOREF\<rparr>) (w\<lparr>w_registry := AList.delete (cx_ref c) (w_registry w)\<rparr>)"
  have "slot_conn ?w = slot_conn w" by (simp add: slot_conn_def fun_eq_iff cong: option.case_cong)
  then show ?thesis
    using process_api.select_fail_cleanup_run[OF E c n ref ok, of L]
    by (intro exI[of _ "failed p c n w"]) (simp add: failed_def fail_all_conns)
qed

theorem fail_cleanup_stops_witness:
  "\<exists>w'. select_fail_cleanup doc_env 0 (Some 40) 1 demo_polled = (Val (), w') \<and>
    map_option (ev_active \<circ> cn_read) (w_conns w' 17) = Some False \<and>
    map_option (ev_active \<circ> cn_write) (w_conns w' 17) = Some True"
proof -
  from fail_cleanup_stops[OF doc_process.process_api_axioms demo_polled_facts(1) demo_polled_stop(1-4)]
  obtain w' where w': "select_fail_cleanup doc_env 0 (Some 40) 1 demo_polled = (Val (), w')"
    and conns: "w_conns w' 17 = map_option (\<lambda>conn. conn
       \<lparr>cn_read := stop_event (\<exists>s \<in> set (take 1 (cx_socket demo_scanned)).
           slot_conn demo_polled s = Some 17 \<and> wants_read s) (cn_read conn),
        cn_write := stop_event (\<exists>s \<in> set (take 1 (cx_socket demo_scanned)).
           slot_conn demo_polled s = Some 17 \<and> wants_write s) (cn_write conn)\<rparr>) (w_conns demo_polled 17)"
    by blast
  from w' conns[unfolded demo_polled_stop] show ?thesis
    by (simp add: stop_event_def demo_conn_def demo_event_def)
qed

text \<open>
  C27.  A completion event that is processed before the request has entered the content phase does
  not resume the coroutine itself: it makes it the current one, disarms its cleanup, sets the
  resume handler and hands over to the phases of the request.
\<close>

theorem completion_deferred:
  assumes E: "process_api E" and ev: "event_at w e = Some v" "ev_data v = Some r"
    and sel: "selecting w r p c" and c: "cx_r c = Some r" "cx_coctx c = Some co" "w_coctxs w co = Some x"
    and q: "w_reqs w r = Some q" "rq_ctx q Mod_stream_lua = Some sa" "w_sctxs w sa = Some sc"
    and early: "\<not> sc_entered_content_phase sc"
  shows "\<exists>w'. ngx_stream_lua_select_post_completion_handler E e w
      = ngx_stream_lua_core_run_phases E (Some r) w' \<and>
    w_coctxs w' = (w_coctxs w)(co \<mapsto> x\<lparr>co_cleanup := Fn_NULL\<rparr>) \<and>
    w_sctxs w' = (w_sctxs w)(sa \<mapsto> sc\<lparr>sc_cur_co_ctx := Some co, sc_resume_handler := Fn_resume\<rparr>) \<and>
    selecting w' r p c"
  using process_api.post_completion_run[OF E ev sel c q] early sel
  by (simp add: Let_def selecting_def exI[of _ "put_sctx sa (sc\<lparr>sc_cur_co_ctx := Some co,
        sc_resume_handler := Fn_resume\<rparr>) (put_coctx co (x\<lparr>co_cleanup := Fn_NULL\<rparr>) w)"])

theorem completion_deferred_witness:
  "\<exists>w'. ngx_stream_lua_select_post_completion_handler doc_env (Completion_of 40) demo_early
      = ngx_stream_lua_core_run_phases doc_env (Some 1) w' \<and>
    map_option sc_resume_handler (w_sctxs w' 9) = Some Fn_resume"
  using completion_deferred[OF doc_process.process_api_axioms demo_early_facts] by auto

text \<open>
  C28.  The README: \<open>{sock1, sock2, sock3}\<close> is equivalent to \<open>{[sock1]="r", [sock2]="r", [sock3]="r"}\<close>.
  Whatever the order in which Lua traverses the second table, both calls yield, or both have the
  same fault, or both raise an error for argument 1 (with several bad sockets, which of their
  messages it is depends on the order); and when the first is accepted, the second is accepted
  with the same modes and sockets, so that all that is proved of the waiting select holds of both.
\<close>

theorem list_form_equivalent:
  assumes E: "process_api E" and "array_call E fuel L w r co T as" and "mset es = mset (mode_form as)"
    and "in_request E L (put_table T es w) r co" and "conns_ok w"
    and "parse_args (lua_str2number E) (w_stack w L) = Inr timeout"
    and "can_wait w co timeout" and "not_selecting w r"
  shows "same_kind (fst (lua_select_module_select E fuel L w))
      (fst (lua_select_module_select E fuel L (put_table T es w))) \<and>
    (\<forall>xs. accepted_call E fuel L w r co (array_form 1 as) timeout xs \<longrightarrow>
      (\<exists>xs'. mset xs' = mset xs \<and> accepted_call E fuel L (put_table T es w) r co es timeout xs'))"
  using process_api.forms_equivalent_run[OF assms] by blast

theorem list_form_equivalent_witness:
  "same_kind (fst (lua_select_module_select doc_env 3 0 (demo demo_timed (array_form 1 [25, 26]) 0)))
     (fst (lua_select_module_select doc_env 3 0
       (put_table 30 [(LTable 26, LStr ''r''), (LTable 25, LStr ''r'')]
         (demo demo_timed (array_form 1 [25, 26]) 0))))"
  using list_form_equivalent[OF doc_process.process_api_axioms demo_array_call demo_modes
      demo_modes_request demo_conns _ demo_can_wait demo_selecting] by simp

text \<open>
  C29.  The code takes every userdata at index 1 of a socket table for a TCP upstream.  With the
  object of a UDP socket, or any other userdata, the call reads a struct that is not there: it
  neither raises an error nor yields.
\<close>

theorem foreign_socket_dangles:
  assumes "process_api E" and "reaches_entry E fuel L w r co good e rest xs"
    and "foreign_entry E w e"
  shows "fst (lua_select_module_select E fuel L w) = Fault Dangling_deref"
  by (rule process_api.select_foreign_entry[OF assms])

theorem foreign_socket_dangles_witness:
  "fst (lua_select_module_select doc_env 3 0 (demo demo_timed demo_udp 0)) = Fault Dangling_deref"
  by (rule foreign_socket_dangles[OF doc_process.process_api_axioms demo_udp_reached demo_udp_foreign])



section \<open>The debug functions\<close>

text \<open>
  C31.  \<open>ngx_lua_select_luaS_dbgval\<close> prints nil, booleans, numbers and strings without calling into
  Lua: the text is the one of \<open>plain_text\<close>, a string cut after 50 characters; it always fits the
  512 bytes of the buffer, and the state is the same afterwards.
\<close>

theorem dbgval_plain_printed:
  assumes "debug_api E D G" and "stack_index (w_stack w L) n"
    and "plain_value (lua_at (w_stack w L) n)"
  shows "ngx_lua_select_luaS_dbgval E D fuel L n w =
      (Val (plain_text (printf_f D) (lua_at (w_stack w L) n)), w) \<and>
    length (plain_text (printf_f D) (lua_at (w_stack w L) n)) < 512"
  using assms by (simp add: debug_api.dbgval_plain debug_api.plain_text_fits)

theorem dbgval_plain_printed_witness:
  "fst (ngx_lua_select_luaS_dbgval doc_env (doc_denv (\<lambda>_. []) 0) 0 0 (-2)
     (demo_values [LNil, LStr (replicate 60 CHR ''a'')])) =
   Val (''string: '' @ CHR 0x22 # replicate 50 CHR ''a'' @ ''...'' @ [CHR 0x22])"
  using dbgval_plain_printed[OF doc_debug.debug_api_axioms,
      of "demo_values [LNil, LStr (replicate 60 CHR ''a'')]" 0 "-2" "\<lambda>_. []" 0 0]
  by (simp add: stack_index_def quoted_def c_str_def)

text \<open>
  C32.  \<open>ngx_lua_select_luaS_printstack_named\<close> on a stack of such values writes one log entry, with
  a line for each value from the top of the stack to its bottom, and leaves the stack as it was.
\<close>

theorem printstack_logs:
  assumes D: "debug_api E D G" and N: "nginx_api E"
    and plain: "\<forall>v \<in> set (w_stack w L). plain_value v"
    and room: "length (w_stack w L) + LUA_MINSTACK < LUAI_MAXCSTACK" and name: "length name < 245"
  shows "ngx_lua_select_luaS_printstack_named E D fuel L name w =
    (Val (), w\<lparr>w_log := w_log w @ [c_str (stack_text (printf_f D) name (w_stack w L))]\<rparr>)"
  using debug_api.printstack_plain[OF D _ room name] plain nginx_api.log_error[OF N] by blast

theorem printstack_logs_witness:
  "w_log (snd (ngx_lua_select_luaS_printstack_named doc_env (doc_denv (\<lambda>_. []) 0) 0 0 ''x''
     (demo_values [LBool True]))) =
   [''lua stack x:'' @ CHR 0x0A # replicate 31 CHR '' '' @ ''[-1  1]: boolean: true'']"
proof -
  have "c_str (stack_text doc_fixed ''x'' [LBool True]) =
      ''lua stack x:'' @ CHR 0x0A # replicate 31 CHR '' '' @ ''[-1  1]: boolean: true''"
    by code_simp
  then show ?thesis
    using printstack_logs[OF doc_debug.debug_api_axioms doc_nginx.nginx_api_axioms,
        of "demo_values [LBool True]" 0 "''x''" "\<lambda>_. []" 0 0]
    by (simp add: LUA_MINSTACK_def LUAI_MAXCSTACK_def)
qed

text \<open>
  C33.  A table is printed as \<open>tostring\<close> has it, followed by the name of the first global that holds
  it and the name of the first loaded module that holds it, where there are such; the stack is
  left as it was.
\<close>

theorem dbgval_table_named:
  assumes "debug_tables E D G"
    and "0 < n" "n \<le> int (length (w_stack w L))" and "lua_at (w_stack w L) n = LTable a"
    and "lua_at (w_stack w L) (-1) \<noteq> LTable G" and "w_meta w a = None"
    and "package_loaded w G tg ld" and "string_key (name_of tg a)" "string_key (name_of ld a)"
    and "length (w_stack w L) + 8 \<le> LUAI_MAXCSTACK" and "lua_status D L w = LUA_OK"
    and "call_tostring E D L n w = (Val (), set_stack L (LStr str # w_stack w L) w)"
    and "length (c_str str) + length (named global_name (name_of tg a)) +
      length (named loaded_name (name_of ld a)) < 512"
    and "length tg < fuel" "length ld < fuel"
  shows "ngx_lua_select_luaS_dbgval E D fuel L n w =
    (Val (c_str str @ named global_name (name_of tg a) @ named loaded_name (name_of ld a)), w)"
  by (rule debug_tables.dbgval_table[OF assms])

theorem dbgval_table_named_witness:
  "fst (ngx_lua_select_luaS_dbgval doc_env (doc_denv (\<lambda>v. ''table: 25'') 0) 3 0 1
     (demo_values [LTable 25])) =
   Val (''table: 25 _G['' @ CHR 0x22 # ''t'' @ CHR 0x22 # ''] module '' @ CHR 0x22 # ''mod'' @ [CHR 0x22])"
proof -
  let ?w = "demo_values [LTable 25]"
  have at: "lua_at [LTable 25] 1 = LTable 25" by (simp add: lua_at_def)
  have names: "name_of demo_globals 25 = Some (LStr ''t'')"
    "name_of [(LStr ''mod'', LTable 25)] 25 = Some (LStr ''mod'')"
    by (simp_all add: name_of_def demo_globals_def)
  have two: "length demo_globals = 2" by (simp add: demo_globals_def)
  have "call_tostring doc_env (doc_denv (\<lambda>v. ''table: 25'') 0) 0 1 ?w =
      (Val (), set_stack 0 (LStr ''table: 25'' # w_stack ?w 0) ?w)"
    by (rule doc_tostring_run) simp_all
  then show ?thesis
    using dbgval_table_named[OF doc_tables.debug_tables_axioms, of 1 ?w 0 25 demo_globals
        "[(LStr ''mod'', LTable 25)]" "\<lambda>v. ''table: 25''" "''table: 25''" 3]
    by (simp add: at names two demo_values_libs LUAI_MAXCSTACK_def global_name_def loaded_name_def
        c_str_def)
qed

text \<open>
  C34.  What is printed of a function: \<open>c\<close> if it is a C function; the text of \<open>tostring\<close>, or its address
  when the printing thread does not run; what kind of name it has, and the name, each after a blank
  and only if Lua's debug interface knows it; its source and the line of its definition.  A text
  that does not fit the 512 bytes is written past the end of the buffer.
\<close>

theorem dbgval_function_printed:
  assumes "debug_api E D G" and "stack_index (w_stack w L) n"
    and "lua_at (w_stack w L) n = LFunction f"
    and "length (w_stack w L) + 3 \<le> LUAI_MAXCSTACK"
    and "lua_getinfo D L ''>nSlu'' (set_stack L (LFunction f # w_stack w L) w) = (Val dbg, w)"
    and "if lua_status D L w = LUA_OK
      then call_tostring E D L n w = (Val (), set_stack L (LStr str # w_stack w L) w)
      else str = ''function: '' @ printf_p D (lua_topointer D L n w)"
    and "lua_iscfunction D L n (set_stack L (LStr str # w_stack w L) w) = cfunction"
    and "text = (if cfunction then ''c '' @ c_str str else c_str str) @
        (if dbg_namewhat dbg = [] then [] else '' '' @ dbg_namewhat dbg) @
        (case dbg_name dbg of None \<Rightarrow> [] | Some name \<Rightarrow> '' '' @ name) @
        '' '' @ dbg_short_src dbg @ '':'' @ decimal (dbg_linedefined dbg)"
  shows "ngx_lua_select_luaS_dbgval E D fuel L n w =
    (if length text < 512 then (Val text, w)
     else (Fault Buffer_overflow, set_stack L (LStr str # w_stack w L) w))"
  by (rule debug_api.dbgval_function[OF assms])

theorem dbgval_function_printed_witness:
  "fst (ngx_lua_select_luaS_dbgval doc_env (doc_denv (\<lambda>v. ''function: 1'') 0) 0 0 1
     (demo_values [LFunction Fn_select])) = Val ''c function: 1 ?:-1''"
proof -
  let ?w = "demo_values [LFunction Fn_select]" and ?D = "doc_denv (\<lambda>v. ''function: 1'') 0"
    and ?dbg = "\<lparr>dbg_namewhat = [], dbg_name = None, dbg_short_src = ''?'', dbg_linedefined = -1\<rparr>"
  have "call_tostring doc_env ?D 0 1 ?w = (Val (), set_stack 0 (LStr ''function: 1'' # w_stack ?w 0) ?w)"
    by (rule doc_tostring_run) simp_all
  then have str: "if lua_status ?D 0 ?w = LUA_OK
      then call_tostring doc_env ?D 0 1 ?w = (Val (), set_stack 0 (LStr ''function: 1'' # w_stack ?w 0) ?w)
      else ''function: 1'' = ''function: '' @ printf_p ?D (lua_topointer ?D 0 1 ?w)"
    by (simp add: doc_denv_def)
  have printed: "''c function: 1 ?:-1'' = (if True then ''c '' @ c_str ''function: 1'' else c_str ''function: 1'') @
      (if dbg_namewhat ?dbg = [] then [] else '' '' @ dbg_namewhat ?dbg) @
      (case dbg_name ?dbg of None \<Rightarrow> [] | Some name \<Rightarrow> '' '' @ name) @
      '' '' @ dbg_short_src ?dbg @ '':'' @ decimal (dbg_linedefined ?dbg)" by code_simp
  show ?thesis
    by (subst dbgval_function_printed[OF doc_debug.debug_api_axioms _ _ _ _ str _ printed, where f = Fn_select])
      (simp_all add: stack_index_def lua_at_def LUAI_MAXCSTACK_def, simp_all add: doc_denv_def lua_at_def)
qed

text \<open>
  C35.  The text of \<open>tostring\<close>, which a metamethod of the value can choose, is printed with
  \<open>sprintf\<close>: where it has 512 characters or more, the function writes past the end of its buffer.
\<close>

theorem dbgval_overflows:
  assumes D: "debug_api E D G" and n: "stack_index (w_stack w L) n"
    and v: "lua_at (w_stack w L) n \<in> {LTable a, LUserdata a}"
    and room: "length (w_stack w L) + 8 \<le> LUAI_MAXCSTACK" and running: "lua_status D L w = LUA_OK"
    and str: "call_tostring E D L n w = (Val (), set_stack L (LStr str # w_stack w L) w)"
    and long: "512 \<le> length (c_str str)"
  shows "fst (ngx_lua_select_luaS_dbgval E D fuel L n w) = Fault Buffer_overflow"
  using v
proof
  assume "lua_at (w_stack w L) n = LTable a"
  then show ?thesis using debug_api.dbgval_table_overflow[OF D n _ room running str long] by simp
next
  assume "lua_at (w_stack w L) n \<in> {LUserdata a}"
  then show ?thesis using debug_api.dbgval_userdata[OF D n _ _ running str] room long by simp
qed

theorem dbgval_overflows_witness:
  "fst (ngx_lua_select_luaS_dbgval doc_env (doc_denv (\<lambda>v. replicate 512 CHR ''a'') 0) 0 0 1
     (demo_values [LUserdata 5])) = Fault Buffer_overflow"
proof (rule dbgval_overflows[OF doc_debug.debug_api_axioms, where a = 5])
  let ?w = "demo_values [LUserdata 5]"
  show "call_tostring doc_env (doc_denv (\<lambda>v. replicate 512 CHR ''a'') 0) 0 1 ?w =
      (Val (), set_stack 0 (LStr (replicate 512 CHR ''a'') # w_stack ?w 0) ?w)"
    by (rule doc_tostring_run) simp_all
qed (simp_all add: stack_index_def lua_at_def LUAI_MAXCSTACK_def c_str_def)

text \<open>
  C36.  With the table of the globals on top of the stack, whatever table is to be printed, the test
  for the globals finds them and pops the caller's value: the function's own assertion fails.
\<close>

theorem dbgval_globals_assert:
  assumes "debug_api E D G" and "stack_index (w_stack w L) n"
    and "lua_at (w_stack w L) n = LTable a" and "w_stack w L = LTable G # s"
    and "length (w_stack w L) + 8 \<le> LUAI_MAXCSTACK" and "lua_status D L w = LUA_OK"
    and "call_tostring E D L n w = (Val (), set_stack L (LStr str # w_stack w L) w)"
    and "length (c_str str) + 3 < 512"
  shows "ngx_lua_select_luaS_dbgval E D fuel L n w = (Fault Assert_failed, set_stack L s w)"
  by (rule debug_api.dbgval_globals[OF assms])

theorem dbgval_globals_assert_witness:
  "fst (ngx_lua_select_luaS_dbgval doc_env (doc_denv (\<lambda>v. ''table: 25'') 0) 0 0 1
     (demo_values [LTable 0, LTable 25])) = Fault Assert_failed"
proof -
  let ?w = "demo_values [LTable 0, LTable 25]"
  have "call_tostring doc_env (doc_denv (\<lambda>v. ''table: 25'') 0) 0 1 ?w =
      (Val (), set_stack 0 (LStr ''table: 25'' # w_stack ?w 0) ?w)"
    by (rule doc_tostring_run) simp_all
  then show ?thesis
    using dbgval_globals_assert[OF doc_debug.debug_api_axioms, of ?w 0 1 25 0 "[LTable 25]"
        "\<lambda>v. ''table: 25''" "''table: 25''" 0]
    by (simp add: stack_index_def lua_at_def LUAI_MAXCSTACK_def c_str_def)
qed

text \<open>
  C37.  The status printed of a coroutine is that of the thread that prints it: a running thread
  prints every other coroutine as \<open>normal\<close>, be it suspended or dead.
\<close>

theorem dbgval_thread_normal:
  assumes "debug_api E D G" and "stack_index (w_stack w L) n"
    and "lua_at (w_stack w L) n = LThread t" "t \<noteq> L"
    and "length (w_stack w L) + 4 \<le> LUAI_MAXCSTACK" "length (w_stack w t) + 1 \<le> LUAI_MAXCSTACK"
    and "lua_status D L w = LUA_OK" "0 < lua_getstack D L 0 w"
    and "call_tostring E D L n w = (Val (), set_stack L (LStr str # w_stack w L) w)"
    and "\<And>v. luaL_where D t 1 v = set_stack t (LStr loc # w_stack v t) v"
    and "length (c_str str) + length (c_str loc) + 12 < 512"
  shows "ngx_lua_select_luaS_dbgval E D fuel L n w =
    (Val (c_str str @ '' (normal) @ '' @ c_str loc), w)"
  by (rule debug_api.dbgval_thread[OF assms])

theorem dbgval_thread_normal_witness:
  "fst (ngx_lua_select_luaS_dbgval doc_env (doc_denv (\<lambda>v. ''thread: 1'') 0) 0 0 1
     (demo_values [LThread 1])) = Val ''thread: 1 (normal) @ ?''"
proof -
  let ?w = "demo_values [LThread 1]"
  have "call_tostring doc_env (doc_denv (\<lambda>v. ''thread: 1'') 0) 0 1 ?w =
      (Val (), set_stack 0 (LStr ''thread: 1'' # w_stack ?w 0) ?w)"
    by (rule doc_tostring_run) simp_all
  moreover have "luaL_where (doc_denv (\<lambda>v. ''thread: 1'') 0) 1 1 v = set_stack 1 (LStr ''?'' # w_stack v 1) v"
    for v by (simp add: doc_denv_def)
  ultimately show ?thesis
    using dbgval_thread_normal[OF doc_debug.debug_api_axioms, of ?w 0 1 1 "\<lambda>v. ''thread: 1''" 0
        "''thread: 1''" "''?''" 0]
    by (simp add: stack_index_def lua_at_def LUAI_MAXCSTACK_def c_str_def del: One_nat_def)
qed

text \<open>
  C38.  The function expects an index from the bottom of the stack.  With the index -1 what is
  printed is not the userdata there but \<open>tostring\<close> itself, which was pushed on top of it.
\<close>

theorem dbgval_top_misread:
  assumes "debug_api E D G" and "w_stack w L = LUserdata a # s"
    and "length (w_stack w L) + 2 \<le> LUAI_MAXCSTACK" and "lua_status D L w = LUA_OK"
    and "lua_getglobal D L ''tostring'' w = (Val (), set_stack L (f # w_stack w L) w)"
    and "lua_call D L 1 1 (set_stack L (f # f # w_stack w L) w) =
      (Val (), set_stack L (LStr str # w_stack w L) w)"
    and "length (c_str str) < 512"
  shows "ngx_lua_select_luaS_dbgval E D fuel L (-1) w = (Val (c_str str), w)"
  by (rule debug_api.dbgval_top[OF assms])

theorem dbgval_top_misread_witness:
  "fst (ngx_lua_select_luaS_dbgval doc_env
     (doc_denv (\<lambda>v. if v = LUserdata 5 then ''userdata'' else ''other'') 0) 0 0 (-1)
     (demo_values [LUserdata 5])) = Val ''other''"
  using dbgval_top_misread[OF doc_debug.debug_api_axioms, of "demo_values [LUserdata 5]" 0 5 "[]"
      "\<lambda>v. if v = LUserdata 5 then ''userdata'' else ''other''" 0 LNil "''other''" 0]
  by (simp add: LUAI_MAXCSTACK_def c_str_def)
    (simp add: doc_denv_def run_simps doc_push_def doc_field_def doc_call_tostring_def
      the_entries_def table_get_def demo_values_def demo_globals_def table_at_def)

text \<open>
  C39.  Deferring a completion changes nothing but the moment.  The completion event of a request
  that is not in its content phase yet hands over to the request's phases with
  \<open>ngx_stream_lua_select_resume\<close> as the resume handler; when the content phase begins and nginx
  calls that handler, the outcome is the one the event's own handler has in the content phase: the
  same results for the coroutine, the same errors and faults, the same final state.
\<close>

theorem deferred_equals_direct:
  assumes E: "process_api E" and ev: "event_at w e = Some v" "ev_data v = Some r"
    and sel: "selecting w r p c" and c: "cx_r c = Some r" "cx_coctx c = Some co" "w_coctxs w co = Some x"
    and q: "w_reqs w r = Some q" "rq_ctx q Mod_stream_lua = Some sa" "w_sctxs w sa = Some sc"
    and early: "\<not> sc_entered_content_phase sc" and vm: "vm_ignores_handler E r sa"
  shows "\<exists>w'. ngx_stream_lua_select_post_completion_handler E e w
      = ngx_stream_lua_core_run_phases E (Some r) w' \<and>
    map_option sc_resume_handler (w_sctxs w' sa) = Some Fn_resume \<and>
    mseq (ngx_stream_lua_select_resume E (Some r)) (mret ()) (enter_content_phase sa w')
      = ngx_stream_lua_select_post_completion_handler E e (enter_content_phase sa w)"
  by (rule process_api.post_completion_deferred[OF E ev sel c q early vm])

theorem deferred_equals_direct_witness:
  "\<exists>w'. ngx_stream_lua_select_post_completion_handler doc_env (Completion_of 40) demo_early
      = ngx_stream_lua_core_run_phases doc_env (Some 1) w' \<and>
    map_option sc_resume_handler (w_sctxs w' 9) = Some Fn_resume \<and>
    mseq (ngx_stream_lua_select_resume doc_env (Some 1)) (mret ()) (enter_content_phase 9 w')
      = ngx_stream_lua_select_post_completion_handler doc_env (Completion_of 40)
          (enter_content_phase 9 demo_early)"
  by (rule deferred_equals_direct[OF doc_process.process_api_axioms demo_early_facts])
    (simp add: vm_ignores_handler_def doc_env_def)

end
